(* ===== verification/Go_Prelude.thy ===== *)
theory Go_Prelude
  imports Main "HOL-Library.Word" "HOL-Library.AList" "HOL-Library.Multiset"
begin

section \<open>Prelude: the Go constructs the components share\<close>

text \<open>
  This theory holds what every component theory uses of the Go language and its runtime:
  \<^item> a computation that threads a state and may panic (\<open>go\<close>), with sequencing, loops over
    a snapshot and \<open>recover\<close>;
  \<^item> channels (\<open>chan\<close>) with the non-blocking send and receive of a \<open>select\<close> that has a
    \<open>default\<close> case, and \<open>close\<close>;
  \<^item> \<open>sync.Map\<close> as an association list with distinct keys, so that \<open>Range\<close> has an order;
  \<^item> the interface \<open>keyed_store\<close> that every user of \<open>sync.Map\<close> relies on;
  \<^item> a generic notion of reachable state and invariant (\<open>event_system\<close>), used by the
    theories that model goroutines as interleaved steps;
  \<^item> the 64-bit integers of Go.

  A panic is a value of type \<open>panic\<close>; the state at the point of the panic is kept, because a
  recovered goroutine leaves behind what it had already done.
\<close>

named_theorems go_simps \<open>unfolding rules of the state-and-panic computations\<close>
named_theorems inv_rules \<open>preservation rules of the invariants\<close>

subsection \<open>Machine integers\<close>

type_synonym int64 = "64 word"
type_synonym uint64 = "64 word"
type_synonym byte = "8 word"

text \<open>\<open>time.Duration\<close> is an \<open>int64\<close> count of nanoseconds: its products wrap around.\<close>

type_synonym Duration = int64

text \<open>
  An instant \<open>time.Time\<close> is the number of nanoseconds since the zero time (1 January of year 1,
  UTC); \<open>Time.IsZero\<close> is equality with 0. One clock stands for the wall and the monotonic
  reading.
\<close>

type_synonym Time = int

definition Time_IsZero :: "Time \<Rightarrow> bool" where
  "Time_IsZero t \<longleftrightarrow> t = 0"

definition Time_Add :: "Time \<Rightarrow> Duration \<Rightarrow> Time" where
  "Time_Add t d = t + sint d"

definition Time_Before :: "Time \<Rightarrow> Time \<Rightarrow> bool" where
  "Time_Before t u \<longleftrightarrow> t < u"

definition time_Second :: Duration where
  "time_Second = 1000000000"

definition time_Minute :: Duration where
  "time_Minute = 60000000000"

lemma sint64_of_int:
  assumes "- (2 ^ 63) \<le> i" and "i < 2 ^ 63"
  shows "sint (of_int i :: int64) = i"
  using assms by (simp add: sint_sbintrunc' signed_take_bit_int_eq_self)

subsection \<open>Computations that thread a state and may panic\<close>

datatype panic =
    SendOnClosedChannel
  | CloseOfClosedChannel
  | NilDereference
  | TypeAssertion
  | MakeSliceLenOutOfRange
  | IndexOutOfRange
  | ErrorPanic string

datatype 'a outcome = Ret 'a | Panic panic

type_synonym ('w, 'a) go = "'w \<Rightarrow> 'a outcome \<times> 'w"

definition ret :: "'a \<Rightarrow> ('w, 'a) go" where
  "ret x = (\<lambda>w. (Ret x, w))"

definition panicG :: "panic \<Rightarrow> ('w, 'a) go" where
  "panicG p = (\<lambda>w. (Panic p, w))"

definition bindG :: "('w, 'a) go \<Rightarrow> ('a \<Rightarrow> ('w, 'b) go) \<Rightarrow> ('w, 'b) go" where
  "bindG m f = (\<lambda>w. case m w of (Ret x, w') \<Rightarrow> f x w' | (Panic p, w') \<Rightarrow> (Panic p, w'))"

definition thenG :: "('w, 'a) go \<Rightarrow> ('w, 'b) go \<Rightarrow> ('w, 'b) go" where
  "thenG m n = bindG m (\<lambda>_. n)"

definition getG :: "('w \<Rightarrow> 'a) \<Rightarrow> ('w, 'a) go" where
  "getG f = (\<lambda>w. (Ret (f w), w))"

definition modifyG :: "('w \<Rightarrow> 'w) \<Rightarrow> ('w, unit) go" where
  "modifyG f = (\<lambda>w. (Ret (), f w))"

text \<open>\<open>defer func() { _ = recover() }()\<close>: a panic ends the function, its effects stay.\<close>

definition recoverG :: "('w, unit) go \<Rightarrow> ('w, unit) go" where
  "recoverG m = (\<lambda>w. (Ret (), snd (m w)))"

text \<open>
  A loop over a snapshot, with the variables the loop body assigns as an accumulator; a panic of
  the body ends it. \<open>forG\<close> is the loop that assigns nothing.
\<close>

fun foldG :: "'a list \<Rightarrow> ('a \<Rightarrow> 'b \<Rightarrow> ('w, 'b) go) \<Rightarrow> 'b \<Rightarrow> ('w, 'b) go" where
  "foldG [] f b = ret b"
| "foldG (x # xs) f b = bindG (f x b) (foldG xs f)"

definition forG :: "'a list \<Rightarrow> ('a \<Rightarrow> ('w, unit) go) \<Rightarrow> ('w, unit) go" where
  "forG xs f = foldG xs (\<lambda>x _. f x) ()"

lemma ret_app [simp, go_simps]: "ret x w = (Ret x, w)"
  by (simp add: ret_def)

lemma panicG_app [simp, go_simps]: "panicG p w = (Panic p, w)"
  by (simp add: panicG_def)

lemma getG_app [simp, go_simps]: "getG f w = (Ret (f w), w)"
  by (simp add: getG_def)

lemma modifyG_app [simp, go_simps]: "modifyG f w = (Ret (), f w)"
  by (simp add: modifyG_def)

lemma recoverG_app [simp, go_simps]: "recoverG m w = (Ret (), snd (m w))"
  by (simp add: recoverG_def)

lemma bindG_app [go_simps]:
  "bindG m f w = (case m w of (Ret x, w') \<Rightarrow> f x w' | (Panic p, w') \<Rightarrow> (Panic p, w'))"
  by (simp add: bindG_def)

lemma thenG_app [go_simps]:
  "thenG m n w = (case m w of (Ret x, w') \<Rightarrow> n w' | (Panic p, w') \<Rightarrow> (Panic p, w'))"
  by (simp add: thenG_def bindG_def)

lemma bindG_Ret [simp]: "m w = (Ret x, w') \<Longrightarrow> bindG m f w = f x w'"
  by (simp add: bindG_def)

lemma bindG_Panic [simp]: "m w = (Panic p, w') \<Longrightarrow> bindG m f w = (Panic p, w')"
  by (simp add: bindG_def)

lemma thenG_Ret [simp]: "m w = (Ret x, w') \<Longrightarrow> thenG m n w = n w'"
  by (simp add: thenG_def)

lemma thenG_Panic [simp]: "m w = (Panic p, w') \<Longrightarrow> thenG m n w = (Panic p, w')"
  by (simp add: thenG_def)

text \<open>The monad laws, used to regroup the sequential code of the handlers.\<close>

lemma bindG_ret_left [simp]: "bindG (ret x) f = f x"
  by (simp add: bindG_def ret_def)

lemma bindG_assoc: "bindG (bindG m f) g = bindG m (\<lambda>x. bindG (f x) g)"
  by (auto simp: bindG_def fun_eq_iff split: prod.splits outcome.splits)

lemma bindG_getG [simp]: "bindG (getG f) k w = k (f w) w"
  by (simp add: bindG_def)

lemma thenG_modifyG [simp]: "thenG (modifyG f) n w = n (f w)"
  by (simp add: thenG_def bindG_def)

lemma bindG_preserves:
  assumes "P (snd (m w))" and "\<And>x w'. m w = (Ret x, w') \<Longrightarrow> P w' \<Longrightarrow> P (snd (f x w'))"
  shows "P (snd (bindG m f w))"
proof -
  obtain r w' where m: "m w = (r, w')" by (cases "m w")
  with assms(1) have "P w'" by simp
  then show ?thesis using m assms(2) [of _ w'] by (cases r) simp_all
qed

lemma thenG_preserves:
  assumes "P (snd (m w))" and "\<And>w'. P w' \<Longrightarrow> P (snd (n w'))"
  shows "P (snd (thenG m n w))"
  unfolding thenG_def by (rule bindG_preserves [where P = P]) (auto intro: assms)

lemma forG_Nil [simp]: "forG [] f = ret ()"
  by (simp add: forG_def)

lemma forG_Cons [simp]: "forG (x # xs) f = thenG (f x) (forG xs f)"
  by (auto simp: forG_def thenG_def bindG_def fun_eq_iff split: prod.splits outcome.splits)

text \<open>
  A loop preserves whatever its body preserves, also when the body panics, and it returns when
  no step panics: the inductions over loops that the component theories need.
\<close>

lemma foldG_preserves:
  assumes "\<And>x b w. x \<in> set xs \<Longrightarrow> P w \<Longrightarrow> P (snd (f x b w))" and "P w"
  shows "P (snd (foldG xs f b w))"
  using assms
proof (induction xs arbitrary: w b)
  case Nil
  then show ?case by simp
next
  case (Cons x xs)
  have "P (snd (bindG (f x b) (foldG xs f) w))"
  proof (rule bindG_preserves [where P = P])
    show "P (snd (f x b w))" using Cons.prems by simp
  next
    fix b' w'
    assume "P w'"
    then show "P (snd (foldG xs f b' w'))" by (intro Cons.IH) (simp_all add: Cons.prems(1))
  qed
  then show ?case by simp
qed

lemma foldG_returns:
  assumes "\<And>x b w. x \<in> set xs \<Longrightarrow> P w \<Longrightarrow> \<exists>b' w'. f x b w = (Ret b', w') \<and> P w'" and "P w"
  shows "\<exists>b' w'. foldG xs f b w = (Ret b', w') \<and> P w'"
  using assms
proof (induction xs arbitrary: w b)
  case Nil
  then show ?case by simp
next
  case (Cons x xs)
  from Cons.prems(1) [of x w b] Cons.prems(2)
  obtain b' w' where w': "f x b w = (Ret b', w')" "P w'" by auto
  have "\<exists>b'' w''. foldG xs f b' w' = (Ret b'', w'') \<and> P w''"
    by (rule Cons.IH) (auto intro: Cons.prems(1) w'(2))
  with w' show ?case by simp
qed

subsection \<open>Channels\<close>

text \<open>
  A channel with its capacity, the buffered values in order and the closed flag. Only the
  non-blocking operations occur in the modelled code.
\<close>

record 'a chan =
  ch_cap :: nat
  ch_buf :: "'a list"
  ch_closed :: bool

definition make_chan :: "nat \<Rightarrow> 'a chan" where
  "make_chan n = \<lparr>ch_cap = n, ch_buf = [], ch_closed = False\<rparr>"

datatype 'a send_result = Sent "'a chan" | SendDefault | SendPanic

text \<open>\<open>select { case ch <- x: default: }\<close>; a send on a closed channel panics.\<close>

definition select_send :: "'a chan \<Rightarrow> 'a \<Rightarrow> 'a send_result" where
  "select_send ch x =
     (if ch_closed ch then SendPanic
      else if length (ch_buf ch) < ch_cap ch then Sent (ch\<lparr>ch_buf := ch_buf ch @ [x]\<rparr>)
      else SendDefault)"

datatype 'a recv_result = Received 'a "'a chan" | RecvClosed | RecvDefault

text \<open>\<open>select { case x, ok := <-ch: default: }\<close>; a closed channel drains, then is not \<open>ok\<close>.\<close>

definition select_recv :: "'a chan \<Rightarrow> 'a recv_result" where
  "select_recv ch =
     (case ch_buf ch of
        x # xs \<Rightarrow> Received x (ch\<lparr>ch_buf := xs\<rparr>)
      | [] \<Rightarrow> if ch_closed ch then RecvClosed else RecvDefault)"

text \<open>\<open>close(ch)\<close>; closing twice panics.\<close>

definition close_chan :: "'a chan \<Rightarrow> 'a chan option" where
  "close_chan ch = (if ch_closed ch then None else Some (ch\<lparr>ch_closed := True\<rparr>))"

definition chan_ok :: "'a chan \<Rightarrow> bool" where
  "chan_ok ch \<longleftrightarrow> length (ch_buf ch) \<le> ch_cap ch"

lemma make_chan_simps [simp]:
  "ch_cap (make_chan n) = n" "ch_buf (make_chan n) = []" "\<not> ch_closed (make_chan n)"
  by (simp_all add: make_chan_def)

lemma make_chan_ok [simp, inv_rules]: "chan_ok (make_chan n)"
  by (simp add: chan_ok_def)

lemma select_send_ok [inv_rules]: "select_send ch x = Sent ch' \<Longrightarrow> chan_ok ch \<Longrightarrow> chan_ok ch'"
  by (auto simp: select_send_def chan_ok_def split: if_splits)

lemma select_recv_ok [inv_rules]: "select_recv ch = Received x ch' \<Longrightarrow> chan_ok ch \<Longrightarrow> chan_ok ch'"
  by (auto simp: select_recv_def chan_ok_def split: list.splits if_splits)

lemma close_chan_ok [inv_rules]: "close_chan ch = Some ch' \<Longrightarrow> chan_ok ch \<Longrightarrow> chan_ok ch'"
  by (auto simp: close_chan_def chan_ok_def split: if_splits)

subsection \<open>The interface of a bounded channel\<close>

text \<open>
  What a producer and a consumer rely on: sends append while there is room, receives take the
  oldest value. The client lemma says that what is received, followed by what is still
  buffered, is what was accepted, in order.
\<close>

datatype 'a chan_op = Put 'a | Take

locale bounded_channel =
  fixes put :: "'c \<Rightarrow> 'a \<Rightarrow> 'c option"
    and take_one :: "'c \<Rightarrow> ('a \<times> 'c) option"
    and contents :: "'c \<Rightarrow> 'a list"
    and capacity :: "'c \<Rightarrow> nat"
    and ok :: "'c \<Rightarrow> bool"
  assumes put_contents: "ok c \<Longrightarrow> put c x = Some c' \<Longrightarrow> contents c' = contents c @ [x]"
    and put_ok: "ok c \<Longrightarrow> put c x = Some c' \<Longrightarrow> ok c' \<and> capacity c' = capacity c"
    and put_room: "ok c \<Longrightarrow> put c x \<noteq> None \<longleftrightarrow> length (contents c) < capacity c"
    and take_contents: "ok c \<Longrightarrow> take_one c = Some (x, c') \<Longrightarrow> contents c = x # contents c'"
    and take_ok: "ok c \<Longrightarrow> take_one c = Some (x, c') \<Longrightarrow> ok c' \<and> capacity c' = capacity c"
begin

fun run_chan :: "'c \<Rightarrow> 'a chan_op list \<Rightarrow> 'c \<times> 'a list \<times> 'a list" where
  "run_chan c [] = (c, [], [])"
| "run_chan c (Put x # ops) =
     (case put c x of
        None \<Rightarrow> run_chan c ops
      | Some c' \<Rightarrow> (case run_chan c' ops of (d, acc, got) \<Rightarrow> (d, x # acc, got)))"
| "run_chan c (Take # ops) =
     (case take_one c of
        None \<Rightarrow> run_chan c ops
      | Some (x, c') \<Rightarrow> (case run_chan c' ops of (d, acc, got) \<Rightarrow> (d, acc, x # got)))"

lemma run_chan_fifo:
  assumes "ok c" and "run_chan c ops = (d, acc, got)"
  shows "contents c @ acc = got @ contents d \<and> ok d \<and> capacity d = capacity c"
  using assms
proof (induction c ops arbitrary: d acc got rule: run_chan.induct)
  case (1 c)
  then show ?case by simp
next
  case (2 c x ops)
  show ?case
  proof (cases "put c x")
    case None
    with 2 show ?thesis by simp
  next
    case (Some c')
    with "2.prems" obtain acc' where "run_chan c' ops = (d, acc', got)" "acc = x # acc'"
      by (auto split: prod.splits)
    with 2 Some put_ok [of c x c'] put_contents [of c x c'] show ?thesis by fastforce
  qed
next
  case (3 c ops)
  show ?case
  proof (cases "take_one c")
    case None
    with 3 show ?thesis by simp
  next
    case (Some xc)
    obtain x c' where xc: "xc = (x, c')" by (cases xc)
    with Some "3.prems" obtain got' where "run_chan c' ops = (d, acc, got')" "got = x # got'"
      by (auto split: prod.splits)
    with 3 Some xc take_ok [of c x c'] take_contents [of c x c'] show ?thesis by fastforce
  qed
qed

end

subsection \<open>\<open>sync.Map\<close>\<close>

text \<open>
  A \<open>sync.Map\<close> is an association list with distinct keys; the order of the list stands for
  the order in which \<open>Range\<close> visits the keys, which Go leaves open. \<open>Range\<close> loads the value
  of a key when it reaches it and skips a key deleted meanwhile.
\<close>

type_synonym ('k, 'v) syncmap = "('k \<times> 'v) list"

definition Store :: "'k \<Rightarrow> 'v \<Rightarrow> ('k, 'v) syncmap \<Rightarrow> ('k, 'v) syncmap" where
  "Store k v m = AList.update k v m"

definition Load :: "('k, 'v) syncmap \<Rightarrow> 'k \<Rightarrow> 'v option" where
  "Load m k = map_of m k"

definition Delete :: "'k \<Rightarrow> ('k, 'v) syncmap \<Rightarrow> ('k, 'v) syncmap" where
  "Delete k m = AList.delete k m"

definition syncmap_ok :: "('k, 'v) syncmap \<Rightarrow> bool" where
  "syncmap_ok m \<longleftrightarrow> distinct (map fst m)"

text \<open>The contract of a keyed store, with the facts its users need proved once.\<close>

locale keyed_store =
  fixes empty :: "'m"
    and store :: "'k \<Rightarrow> 'v \<Rightarrow> 'm \<Rightarrow> 'm"
    and load :: "'m \<Rightarrow> 'k \<Rightarrow> 'v option"
    and delete :: "'k \<Rightarrow> 'm \<Rightarrow> 'm"
    and entries :: "'m \<Rightarrow> ('k \<times> 'v) list"
    and ok :: "'m \<Rightarrow> bool"
  assumes load_empty: "load empty k = None"
    and load_store: "ok m \<Longrightarrow> load (store k v m) j = (if j = k then Some v else load m j)"
    and load_delete: "ok m \<Longrightarrow> load (delete k m) j = (if j = k then None else load m j)"
    and entries_load: "ok m \<Longrightarrow> (k, v) \<in> set (entries m) \<longleftrightarrow> load m k = Some v"
    and entries_distinct: "ok m \<Longrightarrow> distinct (map fst (entries m))"
    and ok_empty: "ok empty"
    and ok_store: "ok m \<Longrightarrow> ok (store k v m)"
    and ok_delete: "ok m \<Longrightarrow> ok (delete k m)"
begin

lemma key_load: "ok m \<Longrightarrow> k \<in> set (map fst (entries m)) \<longleftrightarrow> load m k \<noteq> None"
proof -
  assume "ok m"
  have "k \<in> set (map fst (entries m)) \<longleftrightarrow> (\<exists>v. (k, v) \<in> set (entries m))" by force
  also have "\<dots> \<longleftrightarrow> load m k \<noteq> None" using \<open>ok m\<close> by (simp add: entries_load)
  finally show ?thesis .
qed

lemma keys_empty: "set (map fst (entries empty)) = {}"
  by (rule set_eqI) (simp only: key_load [OF ok_empty] load_empty, simp)

lemma keys_store: "ok m \<Longrightarrow> set (map fst (entries (store k v m))) = insert k (set (map fst (entries m)))"
  by (rule set_eqI) (simp only: key_load ok_store load_store insert_iff, simp)

lemma keys_delete: "ok m \<Longrightarrow> set (map fst (entries (delete k m))) = set (map fst (entries m)) - {k}"
  by (rule set_eqI) (simp only: key_load ok_delete load_delete Diff_iff, simp)

lemma length_entries: "ok m \<Longrightarrow> length (entries m) = card (set (map fst (entries m)))"
  by (metis distinct_card entries_distinct length_map)

lemma size_store:
  "ok m \<Longrightarrow> length (entries (store k v m)) = (if load m k = None then Suc (length (entries m)) else length (entries m))"
  using keys_store [of m k v] key_load [of m k]
  by (auto simp: length_entries ok_store insert_absorb simp del: set_map)

lemma size_delete:
  "ok m \<Longrightarrow> length (entries (delete k m)) = (if load m k = None then length (entries m) else length (entries m) - 1)"
  using keys_delete [of m k] key_load [of m k]
  by (auto simp: length_entries ok_delete simp del: set_map)

end

lemma syncmap_keyed_store: "keyed_store [] Store Load Delete (\<lambda>m. m) syncmap_ok"
  by unfold_locales
    (auto simp: Store_def Load_def Delete_def syncmap_ok_def update_conv' delete_conv'
      distinct_update distinct_delete)

interpretation syncmap: keyed_store "[]" Store Load Delete "\<lambda>m. m" syncmap_ok
  by (rule syncmap_keyed_store)

subsection \<open>Reachable states and invariants\<close>

text \<open>
  Concurrent parts are step relations; an invariant that holds initially and is kept by every
  step holds in every reachable state.
\<close>

locale event_system =
  fixes start :: "'s \<Rightarrow> bool" and step :: "'s \<Rightarrow> 's \<Rightarrow> bool"
begin

inductive reachable :: "'s \<Rightarrow> bool" where
  reach_start: "start s \<Longrightarrow> reachable s"
| reach_step: "reachable s \<Longrightarrow> step s t \<Longrightarrow> reachable t"

lemma reachable_invariant:
  assumes "reachable s"
    and "\<And>s. start s \<Longrightarrow> I s"
    and "\<And>s t. I s \<Longrightarrow> step s t \<Longrightarrow> I t"
  shows "I s"
  using assms(1) by (induction rule: reachable.induct) (auto intro: assms)

lemma reachable_star:
  assumes "step\<^sup>*\<^sup>* s t" and "reachable s"
  shows "reachable t"
  using assms by (induction rule: rtranclp_induct) (auto intro: reach_step)

end

end
