(* ===== verification/Observe.thy ===== *)
theory Observe
  imports Go_Prelude
begin

section \<open>Metrics (internal/observe/metrics.go)\<close>

text \<open>
  The Prometheus collectors are objects of a third-party package. The model keeps the options they
  are made with and does not define what they do: it records, in order, the calls the program makes (\<open>w_metrics\<close>), which is all the
  program contributes. \<open>online\<close>, \<open>dropped\<close> and \<open>count_calls\<close> read the recorded calls the way a
  gauge (sum of the deltas) and a counter (number of increments) do.
\<close>

subsection \<open>The collectors\<close>

text \<open>Name and help text; a vector also has the names of its labels.\<close>

datatype collector = NewGauge string string | NewCounter string string | NewCounterVec string string "string list"

definition onlineUsers :: collector where
  "onlineUsers = NewGauge ''chat_online_users'' ''Number of online users''"

definition messagesTotal :: collector where
  "messagesTotal = NewCounterVec ''chat_messages_total'' ''Total chat messages by type'' [''type'']"

definition directMessagesTotal :: collector where
  "directMessagesTotal = NewCounter ''chat_direct_messages_total'' ''Total direct (private) messages''"

definition droppedMessagesTotal :: collector where
  "droppedMessagesTotal = NewCounter ''chat_dropped_messages_total'' ''Total messages dropped due to client backpressure''"

definition heartbeatsTotal :: collector where
  "heartbeatsTotal = NewCounter ''chat_heartbeats_total'' ''Total heartbeats received''"

definition commandsTotal :: collector where
  "commandsTotal = NewCounterVec ''chat_commands_total'' ''Total commands executed by name'' [''name'']"

definition commandErrorsTotal :: collector where
  "commandErrorsTotal = NewCounterVec ''chat_command_errors_total'' ''Total command errors by reason'' [''reason'']"

text \<open>\<open>init\<close>; \<open>mustRegister\<close> is the package's \<open>MustRegister\<close>.\<close>

definition observe_init :: "(collector list \<Rightarrow> 'r) \<Rightarrow> 'r" where
  "observe_init mustRegister = mustRegister [onlineUsers, messagesTotal, directMessagesTotal, droppedMessagesTotal,
     heartbeatsTotal, commandsTotal, commandErrorsTotal]"

subsection \<open>The calls\<close>

datatype metric =
    MessagesTotal string
  | DirectMessagesTotal
  | DroppedMessagesTotal
  | HeartbeatsTotal
  | OnlineUsers int
  | CommandsTotal string
  | CommandErrorsTotal string

record obs =
  w_metrics :: "metric list"

definition observe_call :: "metric \<Rightarrow> ('z obs_scheme, unit) go" where
  "observe_call m = modifyG (\<lambda>w. w\<lparr>w_metrics := w_metrics w @ [m]\<rparr>)"

definition IncMessage :: "string \<Rightarrow> ('z obs_scheme, unit) go" where
  "IncMessage kind = observe_call (MessagesTotal kind)"

definition IncDirect :: "('z obs_scheme, unit) go" where
  "IncDirect = observe_call DirectMessagesTotal"

definition IncDropped :: "('z obs_scheme, unit) go" where
  "IncDropped = observe_call DroppedMessagesTotal"

definition IncHeartbeat :: "('z obs_scheme, unit) go" where
  "IncHeartbeat = observe_call HeartbeatsTotal"

definition AddOnline :: "int \<Rightarrow> ('z obs_scheme, unit) go" where
  "AddOnline delta = observe_call (OnlineUsers delta)"

definition IncCommand :: "string \<Rightarrow> ('z obs_scheme, unit) go" where
  "IncCommand name = observe_call (CommandsTotal name)"

definition IncCommandError :: "string \<Rightarrow> ('z obs_scheme, unit) go" where
  "IncCommandError reason = observe_call (CommandErrorsTotal reason)"

lemmas observe_defs [go_simps] =
  observe_call_def IncMessage_def IncDirect_def IncDropped_def IncHeartbeat_def
  AddOnline_def IncCommand_def IncCommandError_def

text \<open>
  \<open>MustRegister\<close> panics when a name is registered twice, and \<open>WithLabelValues\<close> panics when the number of
  values is not the number of labels: neither can happen. The names are distinct, and every call is
  one on a registered collector with as many values as it has labels.
\<close>

fun collector_name :: "collector \<Rightarrow> string" where
  "collector_name (NewGauge n _) = n"
| "collector_name (NewCounter n _) = n"
| "collector_name (NewCounterVec n _ _) = n"

fun collector_labels :: "collector \<Rightarrow> string list" where
  "collector_labels (NewCounterVec _ _ ls) = ls"
| "collector_labels _ = []"

fun metric_call :: "metric \<Rightarrow> collector \<times> string list" where
  "metric_call (MessagesTotal kind) = (messagesTotal, [kind])"
| "metric_call DirectMessagesTotal = (directMessagesTotal, [])"
| "metric_call DroppedMessagesTotal = (droppedMessagesTotal, [])"
| "metric_call HeartbeatsTotal = (heartbeatsTotal, [])"
| "metric_call (OnlineUsers _) = (onlineUsers, [])"
| "metric_call (CommandsTotal name) = (commandsTotal, [name])"
| "metric_call (CommandErrorsTotal reason) = (commandErrorsTotal, [reason])"

lemmas collector_defs =
  onlineUsers_def messagesTotal_def directMessagesTotal_def droppedMessagesTotal_def heartbeatsTotal_def
  commandsTotal_def commandErrorsTotal_def

lemma collectors_distinct: "distinct (map collector_name (observe_init (\<lambda>cs. cs)))"
  by (simp add: observe_init_def collector_defs)

lemma metric_calls_fit:
  "metric_call m = (c, vs) \<Longrightarrow> c \<in> set (observe_init (\<lambda>cs. cs)) \<and> length vs = length (collector_labels c)"
  by (cases m) (auto simp: observe_init_def collector_defs)

fun online_delta :: "metric \<Rightarrow> int" where
  "online_delta (OnlineUsers d) = d"
| "online_delta _ = 0"

definition online :: "metric list \<Rightarrow> int" where
  "online ms = sum_list (map online_delta ms)"

definition count_calls :: "metric \<Rightarrow> metric list \<Rightarrow> nat" where
  "count_calls m ms = count_list ms m"

abbreviation dropped :: "metric list \<Rightarrow> nat" where
  "dropped ms \<equiv> count_calls DroppedMessagesTotal ms"

lemma online_simps [simp]:
  "online [] = 0" "online (m # ms) = online_delta m + online ms"
  "online (ms @ ns) = online ms + online ns"
  by (simp_all add: online_def)

lemma count_calls_simps [simp]:
  "count_calls m [] = 0"
  "count_calls m (n # ms) = (if m = n then Suc (count_calls m ms) else count_calls m ms)"
  "count_calls m (ms @ ns) = count_calls m ms + count_calls m ns"
  by (auto simp: count_calls_def)

end
