(* ===== verification/Chat_Client.thy ===== *)
theory Chat_Client
  imports Observe "HOL-Library.Sublist"
begin

section \<open>The client (internal/chat/client.go)\<close>

text \<open>
  A \<open>Client\<close> is a heap object: the hub, the events and the command context hold pointers to
  it (\<open>cref\<close>), so the state has an explicit heap \<open>w_heap\<close>. Its outgoing channel is bounded; a
  full channel drops the message and counts the drop, a closed channel makes \<open>Send\<close> panic.
\<close>

type_synonym cref = nat

record Client =
  cl_ID :: string
  cl_Name :: string
  cl_Meta :: "(string \<rightharpoonup> string) option" \<comment> \<open>\<open>None\<close> is the nil map\<close>
  cl_out :: "string chan"
  cl_closeOnce :: bool
  cl_closed :: "unit chan"

record mem = obs +
  w_heap :: "cref \<rightharpoonup> Client"

definition NewClientWithBuffer :: "string \<Rightarrow> int \<Rightarrow> Client" where
  "NewClientWithBuffer cid bufferSize =
     (let size = (if bufferSize \<le> 0 then 256 else bufferSize)
      in \<lparr>cl_ID = cid, cl_Name = [], cl_Meta = Some Map.empty, cl_out = make_chan (nat size),
          cl_closeOnce = False, cl_closed = make_chan 0\<rparr>)"

subsection \<open>Operations\<close>

definition withClient :: "cref \<Rightarrow> (Client \<Rightarrow> ('z mem_scheme, 'a) go) \<Rightarrow> ('z mem_scheme, 'a) go" where
  "withClient r f = (\<lambda>w. case w_heap w r of None \<Rightarrow> (Panic NilDereference, w) | Some c \<Rightarrow> f c w)"

definition setClient :: "cref \<Rightarrow> Client \<Rightarrow> ('z mem_scheme, unit) go" where
  "setClient r c = modifyG (\<lambda>w. w\<lparr>w_heap := (w_heap w)(r \<mapsto> c)\<rparr>)"

definition Client_Send :: "cref \<Rightarrow> string \<Rightarrow> ('z mem_scheme, unit) go" where
  "Client_Send r message = withClient r (\<lambda>c.
     case select_send (cl_out c) message of
       Sent ch \<Rightarrow> setClient r (c\<lparr>cl_out := ch\<rparr>)
     | SendDefault \<Rightarrow> IncDropped
     | SendPanic \<Rightarrow> panicG SendOnClosedChannel)"

text \<open>\<open>Outgoing\<close> hands out the channel; the transport receives from it.\<close>

definition Client_Outgoing :: "Client \<Rightarrow> string chan" where
  "Client_Outgoing c = cl_out c"

definition Client_Receive :: "cref \<Rightarrow> ('z mem_scheme, string option) go" where
  "Client_Receive r = withClient r (\<lambda>c.
     case select_recv (Client_Outgoing c) of
       Received m ch \<Rightarrow> thenG (setClient r (c\<lparr>cl_out := ch\<rparr>)) (ret (Some m))
     | RecvClosed \<Rightarrow> ret None
     | RecvDefault \<Rightarrow> ret None)"

text \<open>\<open>closeOnce.Do\<close> runs its body once and marks it done even when the body panics.\<close>

definition Client_Close :: "cref \<Rightarrow> ('z mem_scheme, unit) go" where
  "Client_Close r = withClient r (\<lambda>c.
     if cl_closeOnce c then ret ()
     else (let c1 = c\<lparr>cl_closeOnce := True\<rparr> in
       case close_chan (cl_closed c) of
         None \<Rightarrow> thenG (setClient r c1) (panicG CloseOfClosedChannel)
       | Some cd \<Rightarrow> (let c2 = c1\<lparr>cl_closed := cd\<rparr> in
           case close_chan (cl_out c) of
             None \<Rightarrow> thenG (setClient r c2) (panicG CloseOfClosedChannel)
           | Some co \<Rightarrow> setClient r (c2\<lparr>cl_out := co\<rparr>))))"

definition Client_IsClosed :: "cref \<Rightarrow> ('z mem_scheme, bool) go" where
  "Client_IsClosed r = withClient r (\<lambda>c.
     case select_recv (cl_closed c) of
       Received _ _ \<Rightarrow> ret True
     | RecvClosed \<Rightarrow> ret True
     | RecvDefault \<Rightarrow> ret False)"

lemmas client_op_defs [go_simps] =
  withClient_def setClient_def Client_Send_def Client_Receive_def Client_Close_def
  Client_IsClosed_def Client_Outgoing_def

lemma withClient_Some [simp]: "w_heap w r = Some c \<Longrightarrow> withClient r f w = f c w"
  by (simp add: withClient_def)

lemma withClient_None [simp]: "w_heap w r = None \<Longrightarrow> withClient r f w = (Panic NilDereference, w)"
  by (simp add: withClient_def)

subsection \<open>Well-formed clients\<close>

definition client_ok :: "Client \<Rightarrow> bool" where
  "client_ok c \<longleftrightarrow> chan_ok (cl_out c) \<and> 0 < ch_cap (cl_out c) \<and> ch_buf (cl_closed c) = [] \<and>
     cl_closeOnce c = ch_closed (cl_out c) \<and> ch_closed (cl_closed c) = ch_closed (cl_out c)"

definition heap_ok :: "(cref \<rightharpoonup> Client) \<Rightarrow> bool" where
  "heap_ok h \<longleftrightarrow> (\<forall>r c. h r = Some c \<longrightarrow> client_ok c)"

abbreviation is_open :: "Client \<Rightarrow> bool" where
  "is_open c \<equiv> \<not> ch_closed (cl_out c)"

text \<open>What \<open>Send\<close> and \<open>Close\<close> make of one client.\<close>

definition push_msg :: "string \<Rightarrow> Client \<Rightarrow> Client" where
  "push_msg m c =
     (if length (ch_buf (cl_out c)) < ch_cap (cl_out c)
      then c\<lparr>cl_out := (cl_out c)\<lparr>ch_buf := ch_buf (cl_out c) @ [m]\<rparr>\<rparr> else c)"

definition close_client :: "Client \<Rightarrow> Client" where
  "close_client c =
     c\<lparr>cl_closeOnce := True, cl_closed := (cl_closed c)\<lparr>ch_closed := True\<rparr>,
       cl_out := (cl_out c)\<lparr>ch_closed := True\<rparr>\<rparr>"

definition drop_calls :: "Client \<Rightarrow> metric list" where
  "drop_calls c = (if length (ch_buf (cl_out c)) < ch_cap (cl_out c) then [] else [DroppedMessagesTotal])"

lemma NewClient_ok [simp, inv_rules]: "client_ok (NewClientWithBuffer cid n)"
  by (simp add: client_ok_def NewClientWithBuffer_def Let_def)

lemma NewClient_simps [simp]:
  "cl_ID (NewClientWithBuffer cid n) = cid" "cl_Name (NewClientWithBuffer cid n) = []"
  "is_open (NewClientWithBuffer cid n)" "ch_buf (cl_out (NewClientWithBuffer cid n)) = []"
  by (simp_all add: NewClientWithBuffer_def Let_def)

lemma push_msg_simps [simp]:
  "cl_ID (push_msg m c) = cl_ID c" "cl_Name (push_msg m c) = cl_Name c"
  "cl_Meta (push_msg m c) = cl_Meta c" "cl_closed (push_msg m c) = cl_closed c"
  "cl_closeOnce (push_msg m c) = cl_closeOnce c"
  "ch_closed (cl_out (push_msg m c)) = ch_closed (cl_out c)"
  "ch_cap (cl_out (push_msg m c)) = ch_cap (cl_out c)"
  "ch_buf (cl_out (push_msg m c)) =
     ch_buf (cl_out c) @ (if length (ch_buf (cl_out c)) < ch_cap (cl_out c) then [m] else [])"
  by (simp_all add: push_msg_def)

lemma close_client_simps [simp]:
  "cl_ID (close_client c) = cl_ID c" "cl_Name (close_client c) = cl_Name c"
  "cl_Meta (close_client c) = cl_Meta c" "ch_closed (cl_out (close_client c))"
  "ch_buf (cl_out (close_client c)) = ch_buf (cl_out c)"
  by (simp_all add: close_client_def)

lemma push_msg_ok [inv_rules]: "client_ok c \<Longrightarrow> client_ok (push_msg m c)"
  by (auto simp: client_ok_def chan_ok_def push_msg_def)

lemma close_client_ok [inv_rules]: "client_ok c \<Longrightarrow> client_ok (close_client c)"
  by (auto simp: client_ok_def chan_ok_def close_client_def)

lemma heap_ok_upd [inv_rules]: "heap_ok h \<Longrightarrow> client_ok c \<Longrightarrow> heap_ok (h(r \<mapsto> c))"
  by (auto simp: heap_ok_def)

lemma heap_okD: "heap_ok h \<Longrightarrow> h r = Some c \<Longrightarrow> client_ok c"
  by (auto simp: heap_ok_def)

text \<open>The operations on the heap, one equation per branch.\<close>

lemma Send_open:
  assumes "w_heap w r = Some c" and "is_open c"
  shows "Client_Send r m w =
    (Ret (), w\<lparr>w_heap := (w_heap w)(r \<mapsto> push_msg m c), w_metrics := w_metrics w @ drop_calls c\<rparr>)"
  using assms by (auto simp: go_simps select_send_def push_msg_def drop_calls_def fun_upd_idem)

lemma Send_closed:
  "w_heap w r = Some c \<Longrightarrow> \<not> is_open c \<Longrightarrow> Client_Send r m w = (Panic SendOnClosedChannel, w)"
  by (simp add: go_simps select_send_def)

lemma Send_nil: "w_heap w r = None \<Longrightarrow> Client_Send r m w = (Panic NilDereference, w)"
  by (simp add: go_simps)

lemma Close_heap:
  assumes "w_heap w r = Some c" and "client_ok c"
  shows "Client_Close r w = (Ret (), w\<lparr>w_heap := (w_heap w)(r \<mapsto> close_client c)\<rparr>)"
proof (cases "is_open c")
  case True
  with assms show ?thesis
    by (simp add: go_simps client_ok_def close_chan_def close_client_def Let_def)
next
  case False
  with assms have "close_client c = c"
    by (cases c, cases "cl_out c", cases "cl_closed c")
      (simp add: client_ok_def close_client_def)
  with False assms show ?thesis
    by (simp add: go_simps client_ok_def fun_upd_idem)
qed

lemma Close_nil: "w_heap w r = None \<Longrightarrow> Client_Close r w = (Panic NilDereference, w)"
  by (simp add: go_simps)

lemma IsClosed_heap:
  "w_heap w r = Some c \<Longrightarrow> client_ok c \<Longrightarrow> Client_IsClosed r w = (Ret (\<not> is_open c), w)"
  by (auto simp: go_simps client_ok_def select_recv_def)

subsection \<open>The outgoing channel is a bounded channel\<close>

definition out_put :: "string chan \<Rightarrow> string \<Rightarrow> string chan option" where
  "out_put ch m = (case select_send ch m of Sent ch' \<Rightarrow> Some ch' | _ \<Rightarrow> None)"

definition out_take :: "string chan \<Rightarrow> (string \<times> string chan) option" where
  "out_take ch = (case select_recv ch of Received m ch' \<Rightarrow> Some (m, ch') | _ \<Rightarrow> None)"

interpretation outch: bounded_channel out_put out_take ch_buf ch_cap
  "\<lambda>ch. chan_ok ch \<and> \<not> ch_closed ch"
  by unfold_locales
    (auto simp: out_put_def out_take_def select_send_def select_recv_def chan_ok_def
      split: if_splits list.splits)

text \<open>A sequence of sends by the hub and receives by the transport on one client.\<close>

fun client_session :: "cref \<Rightarrow> string chan_op list \<Rightarrow> ('z mem_scheme, string list) go" where
  "client_session r [] = ret []"
| "client_session r (Put m # ops) = thenG (Client_Send r m) (client_session r ops)"
| "client_session r (Take # ops) = bindG (Client_Receive r) (\<lambda>x.
     case x of
       None \<Rightarrow> client_session r ops
     | Some m \<Rightarrow> bindG (client_session r ops) (\<lambda>got. ret (m # got)))"

fun puts :: "'a chan_op list \<Rightarrow> 'a list" where
  "puts [] = []"
| "puts (Put m # ops) = m # puts ops"
| "puts (Take # ops) = puts ops"

lemma run_chan_accepted:
  "outch.run_chan ch ops = (d, acc, got) \<Longrightarrow> subseq acc (puts ops)"
proof (induction ch ops arbitrary: d acc got rule: outch.run_chan.induct)
  case (2 c x ops)
  then show ?case by (cases "out_put c x") (auto split: prod.splits intro: list_emb_Cons)
next
  case (3 c ops)
  then show ?case by (cases "out_take c") (auto split: prod.splits)
qed simp

lemma run_chan_put:
  assumes "outch.run_chan (cl_out c) (Put m # ops) = (d, acc, got)" and "is_open c"
  obtains acc' where "outch.run_chan (cl_out (push_msg m c)) ops = (d, acc', got)"
    and "dropped (drop_calls c) + length acc = Suc (length acc')"
proof (cases "length (ch_buf (cl_out c)) < ch_cap (cl_out c)")
  case True
  then have "out_put (cl_out c) m = Some (cl_out (push_msg m c))"
    using assms(2) by (simp add: out_put_def select_send_def push_msg_def)
  with True assms(1) show ?thesis by (auto simp: drop_calls_def split: prod.splits intro: that)
next
  case False
  then have "out_put (cl_out c) m = None" "push_msg m c = c"
    using assms(2) by (simp_all add: out_put_def select_send_def push_msg_def)
  with False assms(1) that [of acc] show ?thesis by (simp add: drop_calls_def)
qed

lemma run_chan_take:
  assumes "w_heap w r = Some c" and "client_ok c" and "is_open c"
    and "outch.run_chan (cl_out c) (Take # ops) = (d, acc, got)"
  obtains x w' c' got' where "Client_Receive r w = (Ret x, w')" and "w_heap w' r = Some c'" and "client_ok c'" and "is_open c'"
    and "w_metrics w' = w_metrics w" and "outch.run_chan (cl_out c') ops = (d, acc, got')"
    and "got = (case x of None \<Rightarrow> got' | Some m \<Rightarrow> m # got')"
proof (cases "ch_buf (cl_out c)")
  case Nil
  then have "Client_Receive r w = (Ret None, w)" "out_take (cl_out c) = None"
    using assms(1,3) by (simp_all add: go_simps select_recv_def out_take_def)
  with that [of None w c got] assms show ?thesis by simp
next
  case (Cons x xs)
  let ?c = "c\<lparr>cl_out := (cl_out c)\<lparr>ch_buf := xs\<rparr>\<rparr>"
  let ?w = "w\<lparr>w_heap := (w_heap w)(r \<mapsto> ?c)\<rparr>"
  have "Client_Receive r w = (Ret (Some x), ?w)" and take: "out_take (cl_out c) = Some (x, cl_out ?c)"
    using assms(1) Cons by (simp_all add: go_simps select_recv_def out_take_def)
  moreover from take assms(4) obtain got' where "outch.run_chan (cl_out ?c) ops = (d, acc, got')" "got = x # got'"
    by (auto split: prod.splits)
  moreover have "client_ok ?c" "is_open ?c" using assms(2,3) Cons by (auto simp: client_ok_def chan_ok_def)
  ultimately show ?thesis by (intro that [of "Some x" ?w ?c got']) simp_all
qed

lemma client_session_run:
  assumes "w_heap w r = Some c" and "client_ok c" and "is_open c"
    and "outch.run_chan (cl_out c) ops = (d, acc, got)"
  shows "\<exists>w' c'. client_session r ops w = (Ret got, w') \<and> w_heap w' r = Some c' \<and> cl_out c' = d \<and>
     dropped (w_metrics w') + length acc = dropped (w_metrics w) + length (puts ops)"
  using assms
proof (induction ops arbitrary: w c acc got)
  case Nil
  then show ?case by auto
next
  case (Cons a ops)
  show ?case
  proof (cases a)
    case (Put m)
    obtain acc' where run: "outch.run_chan (cl_out (push_msg m c)) ops = (d, acc', got)"
      and acc: "dropped (drop_calls c) + length acc = Suc (length acc')"
      using run_chan_put Cons.prems(3,4) Put by blast
    let ?w = "w\<lparr>w_heap := (w_heap w)(r \<mapsto> push_msg m c), w_metrics := w_metrics w @ drop_calls c\<rparr>"
    have "w_heap ?w r = Some (push_msg m c)" "client_ok (push_msg m c)" "is_open (push_msg m c)"
      using Cons.prems by (auto intro: inv_rules)
    from Cons.IH [OF this run] acc Send_open [OF Cons.prems(1,3), of m] Put show ?thesis by auto
  next
    case Take
    then have "outch.run_chan (cl_out c) (Take # ops) = (d, acc, got)" using Cons.prems(4) by simp
    from run_chan_take [OF Cons.prems(1-3) this] obtain x w1 c1 got' where
      recv: "Client_Receive r w = (Ret x, w1)" "w_heap w1 r = Some c1" "client_ok c1" "is_open c1" "w_metrics w1 = w_metrics w"
        "outch.run_chan (cl_out c1) ops = (d, acc, got')" "got = (case x of None \<Rightarrow> got' | Some m \<Rightarrow> m # got')" by metis
    from Cons.IH [OF recv(2-4,6)] recv(1,5,7) Take show ?thesis by (auto split: option.split)
  qed
qed

end
