(* ===== verification/Client_Properties.thy ===== *)
theory Client_Properties
  imports Chat_Client
begin

section \<open>Properties of the client\<close>

text \<open>
  The outgoing buffer of a client is a bounded queue that loses only what does not fit and counts
  what it loses; \<open>Close\<close> is final and may be called any number of times.
\<close>

text \<open>
  C5: messages reach a client in the order they were sent. For any interleaving of \<open>Send\<close> calls
  with the transport's receives on an open client, the run returns (no panic), and what was
  received followed by what is still buffered is the old buffer followed by a subsequence of the
  messages sent: nothing is reordered, duplicated or invented. Every message sent is either in
  that sequence or counted by the dropped-messages counter.
\<close>

theorem client_fifo:
  assumes "w_heap w r = Some c" and "client_ok c" and "is_open c"
  shows "\<exists>got w' c' acc. client_session r ops w = (Ret got, w') \<and> w_heap w' r = Some c' \<and>
    got @ ch_buf (cl_out c') = ch_buf (cl_out c) @ acc \<and> subseq acc (puts ops) \<and>
    length (ch_buf (cl_out c')) \<le> ch_cap (cl_out c) \<and>
    length acc + dropped (w_metrics w') = length (puts ops) + dropped (w_metrics w)"
proof -
  obtain d acc got where run: "outch.run_chan (cl_out c) ops = (d, acc, got)"
    by (cases "outch.run_chan (cl_out c) ops")
  have "chan_ok (cl_out c) \<and> is_open c" using assms by (simp add: client_ok_def)
  note fifo = outch.run_chan_fifo [OF this run]
  obtain w' c' where w': "client_session r ops w = (Ret got, w')" "w_heap w' r = Some c'" "cl_out c' = d"
    "dropped (w_metrics w') + length acc = dropped (w_metrics w) + length (puts ops)"
    using client_session_run [OF assms run] by blast
  with fifo run_chan_accepted [OF run] show ?thesis
    by (intro exI [of _ got] exI [of _ w'] exI [of _ c'] exI [of _ acc]) (simp add: chan_ok_def)
qed

definition one_client :: mem where
  "one_client = \<lparr>w_metrics = [], w_heap = [3 \<mapsto> NewClientWithBuffer ''a'' 2]\<rparr>"

theorem client_fifo_witness:
  "\<exists>got w' c' acc. client_session 3 [Put ''x'', Put ''y'', Put ''z'', Take] one_client = (Ret got, w') \<and>
    w_heap w' 3 = Some c' \<and> got @ ch_buf (cl_out c') = acc \<and> subseq acc [''x'', ''y'', ''z''] \<and>
    length acc + dropped (w_metrics w') = 3"
proof -
  have "w_heap one_client 3 = Some (NewClientWithBuffer ''a'' 2)" by (simp add: one_client_def)
  from client_fifo [OF this NewClient_ok, of "[Put ''x'', Put ''y'', Put ''z'', Take]"]
  obtain got w' c' acc where
    "client_session 3 [Put ''x'', Put ''y'', Put ''z'', Take] one_client = (Ret got, w')"
    "w_heap w' 3 = Some c'" "got @ ch_buf (cl_out c') = acc" "subseq acc [''x'', ''y'', ''z'']"
    "length acc + dropped (w_metrics w') = 3"
    by (auto simp: one_client_def)
  then show ?thesis by blast
qed

text \<open>
  Closing is final. On a well-formed client \<open>Close\<close> returns; afterwards \<open>IsClosed\<close> answers
  true, a second \<open>Close\<close> changes nothing (no panic for closing a channel twice), every \<open>Send\<close>
  panics with a send on a closed channel, the messages buffered before can still be received in
  order, and no other client is touched.
\<close>

theorem Close_final:
  assumes "w_heap w r = Some c" and "client_ok c"
  shows "\<exists>w' c'. Client_Close r w = (Ret (), w') \<and> w_heap w' r = Some c' \<and>
    Client_IsClosed r w' = (Ret True, w') \<and> Client_Close r w' = (Ret (), w') \<and>
    (\<forall>m. Client_Send r m w' = (Panic SendOnClosedChannel, w')) \<and>
    ch_buf (Client_Outgoing c') = ch_buf (Client_Outgoing c) \<and>
    (\<forall>q. q \<noteq> r \<longrightarrow> w_heap w' q = w_heap w q) \<and> w_metrics w' = w_metrics w"
proof -
  let ?w = "w\<lparr>w_heap := (w_heap w)(r \<mapsto> close_client c)\<rparr>"
  have w: "w_heap ?w r = Some (close_client c)" by simp
  have ok: "client_ok (close_client c)" by (rule close_client_ok [OF assms(2)])
  have "close_client (close_client c) = close_client c" by (simp add: close_client_def)
  then have "Client_Close r ?w = (Ret (), ?w)" using Close_heap [OF w ok] by simp
  moreover have "Client_IsClosed r ?w = (Ret True, ?w)" using IsClosed_heap [OF w ok] by simp
  moreover have "Client_Send r m ?w = (Panic SendOnClosedChannel, ?w)" for m
    by (rule Send_closed [OF w]) simp
  ultimately show ?thesis
    by (intro exI [of _ ?w] exI [of _ "close_client c"])
      (simp add: Close_heap [OF assms] Client_Outgoing_def)
qed

theorem Close_final_witness:
  "\<exists>w' c'. Client_Close 3 one_client = (Ret (), w') \<and> w_heap w' 3 = Some c' \<and>
    Client_IsClosed 3 w' = (Ret True, w') \<and> ch_buf (Client_Outgoing c') = []"
proof -
  have "w_heap one_client 3 = Some (NewClientWithBuffer ''a'' 2)" by (simp add: one_client_def)
  from Close_final [OF this] show ?thesis by (auto simp: Client_Outgoing_def)
qed

end
