(* ===== verification/Chat_Hub.thy ===== *)
theory Chat_Hub
  imports Chat_Client
begin

section \<open>Events and the hub (internal/chat/events.go, *_event.go, hub.go)\<close>

text \<open>
  The hub keeps the connected clients (a \<open>sync.Map\<close> from client id to client), the event
  handlers by event type and the ban list. \<open>Emit\<close> starts one goroutine per handler: the state
  lists the goroutines that were started and have not run yet (\<open>w_go\<close>); the theory
  \<open>Subscribers\<close> runs them in any order. The type of handlers is a parameter \<open>'h\<close>, because the
  hub never looks inside the functions it is given.
\<close>

subsection \<open>Events\<close>

type_synonym EventType = string

definition EventUserJoined :: EventType where "EventUserJoined = ''user.joined''"
definition EventUserLeave :: EventType where "EventUserLeave = ''user.leave''"
definition EventMessageLocal :: EventType where "EventMessageLocal = ''message.local''"
definition EventMessageRemote :: EventType where "EventMessageRemote = ''message.remote''"
definition EventMessageDirect :: EventType where "EventMessageDirect = ''message.direct''"
definition EventSystemNotice :: EventType where "EventSystemNotice = ''system.notice''"
definition EventFileTransfer :: EventType where "EventFileTransfer = ''file.transfer''"
definition EventHeartbeat :: EventType where "EventHeartbeat = ''heartbeat''"

lemmas event_type_defs =
  EventUserJoined_def EventUserLeave_def EventMessageLocal_def EventMessageRemote_def
  EventMessageDirect_def EventSystemNotice_def EventFileTransfer_def EventHeartbeat_def

datatype Event =
    UserEvent (ev_When: Time) (ue_User: cref) (ue_Desc: string)
  | MessageEvent (ev_When: Time) (me_From: string) (me_Content: string) (me_Local: bool)
  | DirectMessageEvent (ev_When: Time) (de_From: string) (de_To: string) (de_Content: string)
  | SystemNoticeEvent (ev_When: Time) (se_Level: string) (se_Content: string)
  | FileTransferEvent (ev_When: Time) (fe_From: string) (fe_To: string) (fe_FileName: string)
      (fe_SizeBytes: int64) (fe_MimeType: string) (fe_StorageKey: string)
  | HeartbeatEvent (ev_When: Time) (he_FromID: string) (he_Detail: string)

text \<open>The \<open>Type\<close> method of each event struct, and the dynamic dispatch of the interface.\<close>

definition UserEvent_Type :: "string \<Rightarrow> EventType" where
  "UserEvent_Type desc = (if ''leave'' = desc then EventUserLeave else EventUserJoined)"

definition MessageEvent_Type :: "bool \<Rightarrow> EventType" where
  "MessageEvent_Type lcl = (if lcl then EventMessageLocal else EventMessageRemote)"

definition DirectMessageEvent_Type :: EventType where
  "DirectMessageEvent_Type = EventMessageDirect"

definition SystemNoticeEvent_Type :: EventType where
  "SystemNoticeEvent_Type = EventSystemNotice"

definition FileTransferEvent_Type :: EventType where
  "FileTransferEvent_Type = EventFileTransfer"

definition HeartbeatEvent_Type :: EventType where
  "HeartbeatEvent_Type = EventHeartbeat"

fun Event_Type :: "Event \<Rightarrow> EventType" where
  "Event_Type (UserEvent _ _ desc) = UserEvent_Type desc"
| "Event_Type (MessageEvent _ _ _ lcl) = MessageEvent_Type lcl"
| "Event_Type (DirectMessageEvent _ _ _ _) = DirectMessageEvent_Type"
| "Event_Type (SystemNoticeEvent _ _ _) = SystemNoticeEvent_Type"
| "Event_Type (FileTransferEvent _ _ _ _ _ _ _) = FileTransferEvent_Type"
| "Event_Type (HeartbeatEvent _ _ _) = HeartbeatEvent_Type"

lemmas event_Type_methods [simp] =
  UserEvent_Type_def MessageEvent_Type_def DirectMessageEvent_Type_def SystemNoticeEvent_Type_def
  FileTransferEvent_Type_def HeartbeatEvent_Type_def

definition Event_Time :: "Event \<Rightarrow> Time" where
  "Event_Time e = ev_When e"

subsection \<open>The hub's state\<close>

record 'h handlerEntry =
  he_id :: uint64
  he_fn :: 'h

record 'h Hub =
  hub_clients :: "(string, cref) syncmap"
  hub_handlers :: "EventType \<rightharpoonup> 'h handlerEntry list"
  hub_nextHID :: uint64
  hub_banned :: "string \<rightharpoonup> Time"

record 'h world = mem +
  w_hub :: "'h Hub"
  w_go :: "('h \<times> Event) list"

definition NewHub :: "'h Hub" where
  "NewHub = \<lparr>hub_clients = [], hub_handlers = Map.empty, hub_nextHID = 0, hub_banned = Map.empty\<rparr>"

definition modifyHub :: "('h Hub \<Rightarrow> 'h Hub) \<Rightarrow> (('h, 'z) world_scheme, unit) go" where
  "modifyHub f = modifyG (\<lambda>w. w\<lparr>w_hub := f (w_hub w)\<rparr>)"

subsection \<open>Handlers\<close>

definition Hub_SubscribeCancelable :: "EventType \<Rightarrow> 'h \<Rightarrow> (('h, 'z) world_scheme, uint64) go" where
  "Hub_SubscribeCancelable t fn =
     thenG (modifyHub (\<lambda>h. h\<lparr>hub_nextHID := hub_nextHID h + 1\<rparr>))
       (bindG (getG (\<lambda>w. hub_nextHID (w_hub w))) (\<lambda>hid.
         thenG (modifyHub (\<lambda>h. h\<lparr>hub_handlers := (hub_handlers h)(t \<mapsto>
             (case hub_handlers h t of None \<Rightarrow> [] | Some es \<Rightarrow> es) @ [\<lparr>he_id = hid, he_fn = fn\<rparr>])\<rparr>))
           (ret hid)))"

definition Hub_Subscribe :: "EventType \<Rightarrow> 'h \<Rightarrow> (('h, 'z) world_scheme, unit) go" where
  "Hub_Subscribe t fn = bindG (Hub_SubscribeCancelable t fn) (\<lambda>_. ret ())"

text \<open>The function \<open>SubscribeCancelable\<close> returns; it is determined by the type and the id.\<close>

definition Hub_cancel :: "EventType \<Rightarrow> uint64 \<Rightarrow> (('h, 'z) world_scheme, unit) go" where
  "Hub_cancel t hid = modifyHub (\<lambda>h.
     case hub_handlers h t of
       None \<Rightarrow> h
     | Some es \<Rightarrow>
         if 0 < length es then
           (let filtered = filter (\<lambda>e. he_id e \<noteq> hid) es
            in if filtered = [] then h\<lparr>hub_handlers := (hub_handlers h)(t := None)\<rparr>
               else h\<lparr>hub_handlers := (hub_handlers h)(t \<mapsto> filtered)\<rparr>)
         else h)"

definition go_stmt :: "'h \<Rightarrow> Event \<Rightarrow> (('h, 'z) world_scheme, unit) go" where
  "go_stmt f e = modifyG (\<lambda>w. w\<lparr>w_go := w_go w @ [(f, e)]\<rparr>)"

definition Hub_Emit :: "Event \<Rightarrow> (('h, 'z) world_scheme, unit) go" where
  "Hub_Emit e =
     bindG (getG (\<lambda>w. hub_handlers (w_hub w) (Event_Type e))) (\<lambda>entries.
       let copied = (case entries of None \<Rightarrow> [] | Some es \<Rightarrow> if 0 < length es then es else [])
       in if copied = [] then ret () else forG copied (\<lambda>entry. go_stmt (he_fn entry) e))"

subsection \<open>Clients\<close>

definition Hub_RegisterClient :: "Time \<Rightarrow> cref \<Rightarrow> (('h, 'z) world_scheme, unit) go" where
  "Hub_RegisterClient now r = withClient r (\<lambda>c.
     thenG (modifyHub (\<lambda>h. h\<lparr>hub_clients := Store (cl_ID c) r (hub_clients h)\<rparr>))
       (thenG (Hub_Emit (UserEvent now r ''joined'')) (AddOnline 1)))"

definition Hub_UnregisterClient :: "Time \<Rightarrow> cref \<Rightarrow> (('h, 'z) world_scheme, unit) go" where
  "Hub_UnregisterClient now r = withClient r (\<lambda>c.
     bindG (getG (\<lambda>w. Load (hub_clients (w_hub w)) (cl_ID c))) (\<lambda>loaded.
       case loaded of
         Some _ \<Rightarrow>
           thenG (modifyHub (\<lambda>h. h\<lparr>hub_clients := Delete (cl_ID c) (hub_clients h)\<rparr>))
             (thenG (Client_Close r)
               (thenG (Hub_Emit (UserEvent now r ''leave'')) (AddOnline (-1))))
       | None \<Rightarrow> Client_Close r))"

text \<open>
  \<open>clients.Range\<close>: the keys of a snapshot, in some order, each loaded when it is reached.
  \<open>RangeOver\<close> takes the order as an argument, so that a result can be shown for every order.
\<close>

definition Hub_RangeOver ::
  "string list \<Rightarrow> (cref \<Rightarrow> 'b \<Rightarrow> (('h, 'z) world_scheme, 'b) go) \<Rightarrow> 'b \<Rightarrow> (('h, 'z) world_scheme, 'b) go" where
  "Hub_RangeOver ks f = foldG ks (\<lambda>k b.
     bindG (getG (\<lambda>w. Load (hub_clients (w_hub w)) k)) (\<lambda>v.
       case v of None \<Rightarrow> ret b | Some r \<Rightarrow> f r b))"

definition range_order :: "('h, 'z) world_scheme \<Rightarrow> string list" where
  "range_order w = map fst (hub_clients (w_hub w))"

definition Hub_Range ::
  "(cref \<Rightarrow> 'b \<Rightarrow> (('h, 'z) world_scheme, 'b) go) \<Rightarrow> 'b \<Rightarrow> (('h, 'z) world_scheme, 'b) go" where
  "Hub_Range f b = bindG (getG range_order) (\<lambda>ks. Hub_RangeOver ks f b)"

definition kick_body :: "Time \<Rightarrow> string \<Rightarrow> cref \<Rightarrow> bool \<Rightarrow> (('h, 'z) world_scheme, bool) go" where
  "kick_body now name r found = withClient r (\<lambda>c.
     if cl_Name c = name then thenG (Hub_UnregisterClient now r) (ret True) else ret found)"

definition Hub_KickByName :: "Time \<Rightarrow> string \<Rightarrow> (('h, 'z) world_scheme, bool) go" where
  "Hub_KickByName now name = Hub_Range (kick_body now name) False"

definition list_body :: "cref \<Rightarrow> string list \<Rightarrow> (('h, 'z) world_scheme, string list) go" where
  "list_body r out = withClient r (\<lambda>c. ret (out @ [cl_Name c]))"

definition Hub_ListNames :: "(('h, 'z) world_scheme, string list) go" where
  "Hub_ListNames = Hub_Range list_body []"

definition send_all_body :: "string \<Rightarrow> cref \<Rightarrow> unit \<Rightarrow> (('h, 'z) world_scheme, unit) go" where
  "send_all_body msg r _ = Client_Send r msg"

definition Hub_SendToAll :: "string \<Rightarrow> (('h, 'z) world_scheme, unit) go" where
  "Hub_SendToAll msg = Hub_Range (send_all_body msg) ()"

definition send_user_body :: "string \<Rightarrow> string \<Rightarrow> cref \<Rightarrow> bool \<Rightarrow> (('h, 'z) world_scheme, bool) go" where
  "send_user_body userName msg r found = withClient r (\<lambda>c.
     if cl_Name c = userName then thenG (Client_Send r msg) (ret True) else ret found)"

definition Hub_SendToUser :: "string \<Rightarrow> string \<Rightarrow> (('h, 'z) world_scheme, bool) go" where
  "Hub_SendToUser userName msg = Hub_Range (send_user_body userName msg) False"

definition Hub_BroadcastLocal :: "Time \<Rightarrow> string \<Rightarrow> string \<Rightarrow> (('h, 'z) world_scheme, unit) go" where
  "Hub_BroadcastLocal now from content = Hub_Emit (MessageEvent now from content True)"

definition Hub_BroadcastRemote :: "string \<Rightarrow> string \<Rightarrow> Time \<Rightarrow> (('h, 'z) world_scheme, unit) go" where
  "Hub_BroadcastRemote from content t = Hub_Emit (MessageEvent t from content False)"

subsection \<open>The ban list\<close>

definition Hub_BanFor :: "Time \<Rightarrow> string \<Rightarrow> Duration \<Rightarrow> (('h, 'z) world_scheme, unit) go" where
  "Hub_BanFor now name d = modifyHub (\<lambda>h.
     h\<lparr>hub_banned := (hub_banned h)(name \<mapsto> (if sint d \<le> 0 then 0 else Time_Add now d))\<rparr>)"

text \<open>
  \<open>IsBanned\<close> reads the list under the read lock, and cleans an expired entry later under the
  write lock: two critical sections, between which other goroutines run.
\<close>

datatype ban_answer = Answer bool | Expired

definition IsBanned_read :: "Time \<Rightarrow> string \<Rightarrow> (('h, 'z) world_scheme, ban_answer) go" where
  "IsBanned_read now name = bindG (getG (\<lambda>w. hub_banned (w_hub w) name)) (\<lambda>until.
     ret (case until of
            None \<Rightarrow> Answer False
          | Some u \<Rightarrow> if Time_IsZero u then Answer True
                      else if Time_Before now u then Answer True
                      else Expired))"

definition IsBanned_clean :: "string \<Rightarrow> (('h, 'z) world_scheme, bool) go" where
  "IsBanned_clean name =
     thenG (modifyHub (\<lambda>h. h\<lparr>hub_banned := (hub_banned h)(name := None)\<rparr>)) (ret False)"

definition Hub_IsBanned :: "Time \<Rightarrow> string \<Rightarrow> (('h, 'z) world_scheme, bool) go" where
  "Hub_IsBanned now name = bindG (IsBanned_read now name) (\<lambda>a.
     case a of Answer b \<Rightarrow> ret b | Expired \<Rightarrow> IsBanned_clean name)"

lemmas hub_op_defs =
  modifyHub_def Hub_SubscribeCancelable_def Hub_Subscribe_def Hub_cancel_def go_stmt_def
  Hub_BanFor_def IsBanned_read_def IsBanned_clean_def Hub_IsBanned_def

end
