(* ===== verification/Hub_Invariants.thy ===== *)
theory Hub_Invariants
  imports Chat_Hub
begin

section \<open>What the hub guarantees\<close>

text \<open>
  The invariant \<open>hub_ok\<close>: the client map has one entry per id, every entry points to a client
  of that id whose channel is open. From it follow the behaviour of the broadcasts, of kicking
  and of the online gauge. Each operation first gets an equation that says what it makes of the
  state; the properties are consequences of these equations.
\<close>

definition hub_ok :: "('h, 'z) world_scheme \<Rightarrow> bool" where
  "hub_ok w \<longleftrightarrow> syncmap_ok (hub_clients (w_hub w)) \<and> heap_ok (w_heap w) \<and>
     (\<forall>k r. Load (hub_clients (w_hub w)) k = Some r \<longrightarrow>
        (\<exists>c. w_heap w r = Some c \<and> cl_ID c = k \<and> is_open c))"

definition registered :: "('h, 'z) world_scheme \<Rightarrow> cref \<Rightarrow> bool" where
  "registered w r \<longleftrightarrow> (\<exists>k. Load (hub_clients (w_hub w)) k = Some r)"

lemma hub_okD:
  assumes "hub_ok w"
  shows "syncmap_ok (hub_clients (w_hub w))" "heap_ok (w_heap w)"
    "Load (hub_clients (w_hub w)) k = Some r \<Longrightarrow> \<exists>c. w_heap w r = Some c \<and> cl_ID c = k \<and> is_open c"
  using assms by (auto simp: hub_ok_def)

lemma hub_okI:
  assumes "syncmap_ok (hub_clients (w_hub w))" and "heap_ok (w_heap w)"
    and "\<And>k r. Load (hub_clients (w_hub w)) k = Some r \<Longrightarrow>
      \<exists>c. w_heap w r = Some c \<and> cl_ID c = k \<and> is_open c"
  shows "hub_ok w"
  using assms by (simp add: hub_ok_def)

lemma hub_ok_entry:
  assumes "hub_ok w" and "(k, r) \<in> set (hub_clients (w_hub w))"
  obtains c where "w_heap w r = Some c" "cl_ID c = k" "is_open c" "client_ok c"
proof -
  from assms have "Load (hub_clients (w_hub w)) k = Some r"
    by (simp add: syncmap.entries_load hub_okD(1))
  from hub_okD(3) [OF assms(1) this] hub_okD(2) [OF assms(1)] that show thesis
    by (auto dest: heap_okD)
qed

text \<open>Different entries point to different clients, because a client has one id.\<close>

lemma hub_ok_distinct_refs:
  assumes "hub_ok w"
  shows "distinct (map snd (hub_clients (w_hub w)))"
proof -
  let ?m = "hub_clients (w_hub w)"
  have inj: "inj_on snd (set ?m)"
    by (rule inj_onI) (metis assms hub_ok_entry option.inject prod.collapse)
  have "distinct ?m" using hub_okD(1) [OF assms] by (auto simp: syncmap_ok_def distinct_map)
  with inj show ?thesis by (simp add: distinct_map)
qed

lemma registered_entry:
  "hub_ok w \<Longrightarrow> registered w r \<longleftrightarrow> r \<in> snd ` set (hub_clients (w_hub w))"
  using syncmap.entries_load [OF hub_okD(1)] by (force simp: registered_def)

lemma hub_ok_one_key:
  "hub_ok w \<Longrightarrow> Load (hub_clients (w_hub w)) j = Some r \<Longrightarrow> Load (hub_clients (w_hub w)) k = Some r \<Longrightarrow> j = k"
  using hub_okD(3) [of w j r] hub_okD(3) [of w k r] by auto

lemma registered_delete:
  assumes "hub_ok w" and "Load (hub_clients (w_hub w)) k = Some r" and "hub_clients (w_hub v) = Delete k (hub_clients (w_hub w))"
  shows "registered v q \<longleftrightarrow> registered w q \<and> q \<noteq> r"
proof -
  have "registered v q \<longleftrightarrow> (\<exists>j. j \<noteq> k \<and> Load (hub_clients (w_hub w)) j = Some q)"
    unfolding registered_def assms(3) syncmap.load_delete [OF hub_okD(1) [OF assms(1)]] by auto
  also have "\<dots> \<longleftrightarrow> registered w q \<and> q \<noteq> r"
    unfolding registered_def using hub_ok_one_key [OF assms(1)] assms(2) by (metis option.inject)
  finally show ?thesis .
qed

subsection \<open>The operations as equations\<close>

definition spawns :: "Event \<Rightarrow> ('h, 'z) world_scheme \<Rightarrow> ('h \<times> Event) list" where
  "spawns e w = map (\<lambda>en. (he_fn en, e))
     (case hub_handlers (w_hub w) (Event_Type e) of None \<Rightarrow> [] | Some es \<Rightarrow> es)"

lemma forG_go_stmt:
  "forG es (\<lambda>en. go_stmt (he_fn en) e) w =
     (Ret (), w\<lparr>w_go := w_go w @ map (\<lambda>en. (he_fn en, e)) es\<rparr>)"
  by (induction es arbitrary: w) (simp_all add: go_stmt_def)

lemma Emit_eq: "Hub_Emit e w = (Ret (), w\<lparr>w_go := w_go w @ spawns e w\<rparr>)"
  by (simp add: Hub_Emit_def Let_def forG_go_stmt spawns_def split: option.splits)

lemma spawns_cong:
  "hub_handlers (w_hub v) = hub_handlers (w_hub w) \<Longrightarrow> spawns e v = spawns e w"
  by (simp add: spawns_def)

lemma Register_eq:
  assumes "w_heap w r = Some c"
  shows "Hub_RegisterClient now r w = (Ret (), w\<lparr>
     w_hub := (w_hub w)\<lparr>hub_clients := Store (cl_ID c) r (hub_clients (w_hub w))\<rparr>,
     w_go := w_go w @ spawns (UserEvent now r ''joined'') w,
     w_metrics := w_metrics w @ [OnlineUsers 1]\<rparr>)"
  using assms
  by (simp add: Hub_RegisterClient_def modifyHub_def thenG_app Emit_eq
      AddOnline_def observe_call_def spawns_def)

lemma Unregister_absent:
  assumes "w_heap w r = Some c" and "client_ok c" and "Load (hub_clients (w_hub w)) (cl_ID c) = None"
  shows "Hub_UnregisterClient now r w = (Ret (), w\<lparr>w_heap := (w_heap w)(r \<mapsto> close_client c)\<rparr>)"
  using assms by (simp add: Hub_UnregisterClient_def Close_heap)

lemma Unregister_present:
  assumes "w_heap w r = Some c" and "client_ok c" and "Load (hub_clients (w_hub w)) (cl_ID c) = Some q"
  shows "Hub_UnregisterClient now r w = (Ret (), w\<lparr>
     w_hub := (w_hub w)\<lparr>hub_clients := Delete (cl_ID c) (hub_clients (w_hub w))\<rparr>,
     w_heap := (w_heap w)(r \<mapsto> close_client c),
     w_go := w_go w @ spawns (UserEvent now r ''leave'') w,
     w_metrics := w_metrics w @ [OnlineUsers (-1)]\<rparr>)"
proof -
  let ?w1 = "w\<lparr>w_hub := (w_hub w)\<lparr>hub_clients := Delete (cl_ID c) (hub_clients (w_hub w))\<rparr>\<rparr>"
  have "w_heap ?w1 r = Some c" by (simp add: assms)
  note close = Close_heap [OF this assms(2)]
  show ?thesis using assms
    by (simp add: Hub_UnregisterClient_def modifyHub_def
        thenG_app close Emit_eq AddOnline_def observe_call_def spawns_def)
qed

subsection \<open>Preservation of the invariant\<close>

lemma hub_ok_Register [inv_rules]:
  assumes "hub_ok w" and "w_heap w r = Some c" and "is_open c"
  shows "hub_ok (snd (Hub_RegisterClient now r w))"
proof -
  note ok = hub_okD(1) [OF assms(1)]
  show ?thesis unfolding Register_eq [OF assms(2)]
    by (rule hub_okI)
      (use assms hub_okD [OF assms(1)] in \<open>simp_all add: syncmap.ok_store ok syncmap.load_store [OF ok] split: if_splits\<close>)
qed

lemma hub_ok_Unregister [inv_rules]:
  assumes "hub_ok w"
  shows "hub_ok (snd (Hub_UnregisterClient now r w))"
proof (cases "w_heap w r")
  case None
  then show ?thesis using assms by (simp add: Hub_UnregisterClient_def)
next
  case (Some c)
  then have ok: "client_ok c" using assms hub_okD(2) heap_okD by blast
  have heap: "heap_ok ((w_heap w)(r \<mapsto> close_client c))"
    using assms ok by (intro inv_rules) (auto dest: hub_okD)
  show ?thesis
  proof (cases "Load (hub_clients (w_hub w)) (cl_ID c)")
    case None
    have "\<exists>c'. w_heap w q = Some c' \<and> cl_ID c' = k \<and> is_open c' \<and> q \<noteq> r"
      if "Load (hub_clients (w_hub w)) k = Some q" for k q
      using hub_okD(3) [OF assms that] None that Some by auto
    then show ?thesis unfolding Unregister_absent [OF Some ok None]
      by (intro hub_okI) (use hub_okD(1) [OF assms] heap in auto)
  next
    case q: (Some q)
    note mok = hub_okD(1) [OF assms]
    have "\<exists>c'. w_heap w q = Some c' \<and> cl_ID c' = k \<and> is_open c' \<and> q \<noteq> r"
      if "Load (hub_clients (w_hub w)) k = Some q" "k \<noteq> cl_ID c" for k q
      using hub_okD(3) [OF assms that(1)] that Some by auto
    then show ?thesis unfolding Unregister_present [OF Some ok q]
      by (intro hub_okI) (use mok heap in \<open>auto simp: syncmap.ok_delete syncmap.load_delete split: if_splits\<close>)
  qed
qed

lemma hub_ok_heap_only:
  assumes "hub_ok w" and "heap_ok (w_heap v)" and "hub_clients (w_hub v) = hub_clients (w_hub w)"
    and "\<And>r c. w_heap w r = Some c \<Longrightarrow> is_open c \<Longrightarrow>
      \<exists>c'. w_heap v r = Some c' \<and> cl_ID c' = cl_ID c \<and> is_open c'"
  shows "hub_ok v"
proof (rule hub_okI)
  show "syncmap_ok (hub_clients (w_hub v))" using hub_okD(1) [OF assms(1)] assms(3) by simp
  show "heap_ok (w_heap v)" by (rule assms(2))
  show "\<exists>c. w_heap v r = Some c \<and> cl_ID c = k \<and> is_open c"
    if "Load (hub_clients (w_hub v)) k = Some r" for k r
    using hub_okD(3) [OF assms(1), of k r] that assms(3,4) by fastforce
qed

lemma hub_ok_Send [inv_rules]:
  assumes "hub_ok w"
  shows "hub_ok (snd (Client_Send r m w))"
proof (cases "w_heap w r")
  case None
  with assms show ?thesis by (simp add: Send_nil)
next
  case (Some c)
  show ?thesis
  proof (cases "is_open c")
    case False
    with Some assms show ?thesis by (simp add: Send_closed)
  next
    case True
    from Some assms have "client_ok c" using hub_okD(2) heap_okD by blast
    then have "heap_ok ((w_heap w)(r \<mapsto> push_msg m c))"
      using assms by (intro inv_rules) (auto dest: hub_okD)
    then show ?thesis unfolding Send_open [OF Some True]
      by (intro hub_ok_heap_only [OF assms]) (use Some in auto)
  qed
qed

lemma hub_ok_Emit [inv_rules]: "hub_ok w \<Longrightarrow> hub_ok (snd (Hub_Emit e w))"
  by (simp add: Emit_eq hub_ok_def)

subsection \<open>Broadcasts\<close>

definition deliver :: "string \<Rightarrow> cref set \<Rightarrow> (cref \<rightharpoonup> Client) \<Rightarrow> (cref \<rightharpoonup> Client)" where
  "deliver m R h = (\<lambda>r. if r \<in> R then map_option (push_msg m) (h r) else h r)"

definition is_full :: "Client \<Rightarrow> bool" where
  "is_full c \<longleftrightarrow> \<not> length (ch_buf (cl_out c)) < ch_cap (cl_out c)"

definition selects :: "(Client \<Rightarrow> bool) \<Rightarrow> (cref \<rightharpoonup> Client) \<Rightarrow> cref \<Rightarrow> bool" where
  "selects P h r \<longleftrightarrow> (\<exists>c. h r = Some c \<and> P c)"

lemma selects_Some [simp]: "h r = Some c \<Longrightarrow> selects P h r \<longleftrightarrow> P c"
  by (simp add: selects_def)

lemma drop_calls_full: "drop_calls c = replicate (if is_full c then 1 else 0) DroppedMessagesTotal"
  by (simp add: drop_calls_def is_full_def)

lemma deliver_insert:
  "h r = Some c \<Longrightarrow> r \<notin> R \<Longrightarrow> deliver m (insert r R) h = deliver m R (h(r \<mapsto> push_msg m c))"
  by (auto simp: deliver_def fun_eq_iff)

lemma deliver_empty [simp]: "deliver m {} h = h"
  by (simp add: deliver_def)

text \<open>
  A loop that sends to the clients satisfying \<open>P\<close> among distinct open clients: each of them
  gets the message once, the others are untouched, every full buffer is counted once.
\<close>

lemma foldG_send:
  fixes body :: "cref \<Rightarrow> 'b \<Rightarrow> (('h, 'z) world_scheme, 'b) go"
  assumes body: "\<And>r c b w. w_heap w r = Some c \<Longrightarrow> is_open c \<Longrightarrow>
      body r b w = (if P c then (Ret d, snd (Client_Send r m w)) else (Ret b, w))"
    and "distinct rs" and "\<forall>r\<in>set rs. selects is_open (w_heap w) r"
  shows "foldG rs body b w =
    (Ret (if \<exists>r\<in>set rs. selects P (w_heap w) r then d else b),
     w\<lparr>w_heap := deliver m {r \<in> set rs. selects P (w_heap w) r} (w_heap w),
       w_metrics := w_metrics w @
         replicate (length (filter (selects (\<lambda>c. P c \<and> is_full c) (w_heap w)) rs)) DroppedMessagesTotal\<rparr>)"
  using assms(2,3)
proof (induction rs arbitrary: b w)
  case Nil
  then show ?case by simp
next
  case (Cons r rs)
  from Cons.prems obtain c where c: "w_heap w r = Some c" "is_open c"
    by (auto simp: selects_def)
  show ?case
  proof (cases "P c")
    case False
    then have "{q \<in> set (r # rs). selects P (w_heap w) q} = {q \<in> set rs. selects P (w_heap w) q}"
      using c by auto
    with False c Cons show ?thesis by (simp add: body)
  next
    case True
    let ?w = "w\<lparr>w_heap := (w_heap w)(r \<mapsto> push_msg m c), w_metrics := w_metrics w @ drop_calls c\<rparr>"
    have same: "selects Q (w_heap ?w) q = selects Q (w_heap w) q" if "q \<in> set rs" for q Q
      using that Cons.prems(1) by (auto simp: selects_def)
    have op: "\<forall>q\<in>set rs. selects is_open (w_heap ?w) q"
      using Cons.prems same by simp
    have sets: "{q \<in> set rs. selects P (w_heap ?w) q} = {q \<in> set rs. selects P (w_heap w) q}"
      "{q \<in> set (r # rs). selects P (w_heap w) q} = insert r {q \<in> set rs. selects P (w_heap w) q}"
      using same c True by auto
    have filters: "filter (selects (\<lambda>c. P c \<and> is_full c) (w_heap ?w)) rs =
        filter (selects (\<lambda>c. P c \<and> is_full c) (w_heap w)) rs"
      by (rule filter_cong [OF refl]) (rule same)
    have dist: "distinct rs" using Cons.prems by simp
    note IH = Cons.IH [OF dist op, of d, unfolded sets(1) filters]
    have "body r b w = (Ret d, ?w)" using body [OF c] True by (simp add: Send_open [OF c])
    then have "foldG (r # rs) body b w = foldG rs body d ?w" by simp
    also have "\<dots> = (Ret d, ?w\<lparr>w_heap := deliver m {q \<in> set rs. selects P (w_heap w) q} (w_heap ?w),
        w_metrics := w_metrics ?w @ replicate (length (filter (selects (\<lambda>c. P c \<and> is_full c)
          (w_heap w)) rs)) DroppedMessagesTotal\<rparr>)"
      using IH by (simp add: fun_upd_def)
    finally show ?thesis
      unfolding sets(2) using c True Cons.prems(1) by (simp add: deliver_insert drop_calls_full)
  qed
qed

lemma RangeOver_refs:
  assumes "\<And>r b w. hub_clients (w_hub (snd (body r b w))) = hub_clients (w_hub w)"
    and "\<forall>k\<in>set ks. Load (hub_clients (w_hub w)) k = Some (f k)"
  shows "Hub_RangeOver ks body b w = foldG (map f ks) body b w"
  using assms(2)
proof (induction ks arbitrary: b w)
  case Nil
  then show ?case by (simp add: Hub_RangeOver_def)
next
  case (Cons k ks)
  obtain x w' where bd: "body (f k) b w = (x, w')" by (cases "body (f k) b w")
  with assms(1) [of "f k" b w] Cons.prems
  have "\<forall>k\<in>set ks. Load (hub_clients (w_hub w')) k = Some (f k)" by simp
  note IH = Cons.IH [OF this]
  show ?case using bd Cons.prems IH by (cases x) (simp_all add: Hub_RangeOver_def bindG_app)
qed

lemma send_keeps_hub: "w_hub (snd (Client_Send r m w)) = w_hub w"
  by (auto simp: go_simps split: option.splits send_result.splits)

text \<open>The broadcast over the keys of the client map in any order.\<close>

lemma RangeOver_send:
  assumes ok: "hub_ok w" and perm: "mset ks = mset (range_order w)"
    and body: "\<And>r c b w. w_heap w r = Some c \<Longrightarrow> is_open c \<Longrightarrow>
      body r b w = (if P c then (Ret d, snd (Client_Send r m w)) else (Ret b, w))"
    and hub: "\<And>r b w. hub_clients (w_hub (snd (body r b w))) = hub_clients (w_hub w)"
  shows "Hub_RangeOver ks body b w =
    (Ret (if \<exists>r. registered w r \<and> selects P (w_heap w) r then d else b),
     w\<lparr>w_heap := deliver m {r. registered w r \<and> selects P (w_heap w) r} (w_heap w),
       w_metrics := w_metrics w @
         replicate (card {r. registered w r \<and> selects (\<lambda>c. P c \<and> is_full c) (w_heap w) r}) DroppedMessagesTotal\<rparr>)"
proof -
  let ?m = "hub_clients (w_hub w)"
  let ?f = "\<lambda>k. the (Load ?m k)" and ?rs = "map (\<lambda>k. the (Load (hub_clients (w_hub w)) k)) ks"
  have keys: "set ks = fst ` set ?m" using perm by (metis mset_eq_setD range_order_def set_map)
  have load: "(k, r) \<in> set ?m \<longleftrightarrow> Load ?m k = Some r" for k r
    by (rule syncmap.entries_load [OF hub_okD(1) [OF ok]])
  have loads: "\<forall>k\<in>set ks. Load ?m k = Some (?f k)" using keys load by fastforce
  have "mset ?rs = mset (map ?f (map fst ?m))" using perm by (metis mset_map range_order_def)
  also have "map ?f (map fst ?m) = map snd ?m" using load by fastforce
  finally have rs: "mset ?rs = mset (map snd ?m)" .
  then have dist: "distinct ?rs" using hub_ok_distinct_refs [OF ok] by (metis mset_eq_imp_distinct_iff)
  have reg: "set ?rs = {r. registered w r}"
    using rs registered_entry [OF ok] by (metis (no_types, lifting) Collect_cong Collect_mem_eq mset_eq_setD set_map)
  have op: "\<forall>r\<in>set ?rs. selects is_open (w_heap w) r"
    unfolding reg selects_def registered_def using hub_okD(3) [OF ok] by blast
  have card: "length (filter (selects Q (w_heap w)) ?rs) = card {r. registered w r \<and> selects Q (w_heap w) r}" for Q
  proof -
    have "set (filter (selects Q (w_heap w)) ?rs) = {r. registered w r \<and> selects Q (w_heap w) r}"
      using reg by auto
    then show ?thesis using distinct_card [OF distinct_filter [OF dist]] by metis
  qed
  have "Hub_RangeOver ks body b w = foldG ?rs body b w"
    by (rule RangeOver_refs [OF hub loads])
  also note foldG_send [where P = P and d = d and m = m, OF body dist op]
  finally show ?thesis unfolding card reg by simp
qed

lemma Range_order: "Hub_Range body b w = Hub_RangeOver (range_order w) body b w"
  by (simp add: Hub_Range_def)

lemma send_all_body_eq:
  "w_heap w r = Some c \<Longrightarrow> is_open c \<Longrightarrow>
     send_all_body m r b w = (if True then (Ret (), snd (Client_Send r m w)) else (Ret b, w))"
  by (simp add: send_all_body_def Send_open)

lemma send_user_body_eq:
  "w_heap w r = Some c \<Longrightarrow> is_open c \<Longrightarrow>
     send_user_body u m r b w =
       (if cl_Name c = u then (Ret True, snd (Client_Send r m w)) else (Ret b, w))"
  by (simp add: send_user_body_def thenG_app Send_open)

lemma send_bodies_keep_hub:
  "w_hub (snd (send_all_body m r b w)) = w_hub w"
  "w_hub (snd (send_user_body u m r b' w)) = w_hub w"
  by (auto simp: send_all_body_def send_keeps_hub send_user_body_def go_simps
      split: option.splits send_result.splits)

text \<open>The two broadcasts in the order of the map, as equations for their callers.\<close>

lemma SendToAll_eq:
  assumes "hub_ok w"
  shows "Hub_SendToAll m w = (Ret (), w\<lparr>w_heap := deliver m {r. registered w r} (w_heap w),
     w_metrics := w_metrics w @
       replicate (card {r. registered w r \<and> selects is_full (w_heap w) r}) DroppedMessagesTotal\<rparr>)"
proof -
  have "{r. registered w r \<and> selects (\<lambda>_. True) (w_heap w) r} = {r. registered w r}"
    using hub_okD(3) [OF assms] by (fastforce simp: registered_def selects_def)
  then show ?thesis unfolding Hub_SendToAll_def Range_order
    using RangeOver_send [where P = "\<lambda>_. True" and body = "send_all_body m" and m = m,
        OF assms refl send_all_body_eq] by (simp add: send_bodies_keep_hub)
qed

lemma SendToUser_eq:
  assumes "hub_ok w"
  shows "Hub_SendToUser u m w = (Ret (\<exists>r. registered w r \<and> selects (\<lambda>c. cl_Name c = u) (w_heap w) r),
     w\<lparr>w_heap := deliver m {r. registered w r \<and> selects (\<lambda>c. cl_Name c = u) (w_heap w) r} (w_heap w),
       w_metrics := w_metrics w @
         replicate (card {r. registered w r \<and> selects (\<lambda>c. cl_Name c = u \<and> is_full c) (w_heap w) r})
           DroppedMessagesTotal\<rparr>)"
  unfolding Hub_SendToUser_def Range_order
  using RangeOver_send [where P = "\<lambda>c. cl_Name c = u" and body = "send_user_body u m" and m = m
      and b = False, OF assms refl send_user_body_eq] by (simp add: send_bodies_keep_hub)

lemma deliver_ok:
  assumes "hub_ok w"
  shows "hub_ok (w\<lparr>w_heap := deliver m R (w_heap w), w_metrics := ms\<rparr>)"
proof (rule hub_ok_heap_only [OF assms])
  show "heap_ok (w_heap (w\<lparr>w_heap := deliver m R (w_heap w), w_metrics := ms\<rparr>))"
    using hub_okD(2) [OF assms] by (auto simp: heap_ok_def deliver_def intro: push_msg_ok split: if_splits)
qed (auto simp: deliver_def)

subsection \<open>The online gauge\<close>

definition gauge_ok :: "('h, 'z) world_scheme \<Rightarrow> bool" where
  "gauge_ok w \<longleftrightarrow> online (w_metrics w) = int (length (hub_clients (w_hub w)))"

definition sys_inv :: "('h, 'z) world_scheme \<Rightarrow> bool" where
  "sys_inv w \<longleftrightarrow> hub_ok w \<and> gauge_ok w"

lemma sys_invD: "sys_inv w \<Longrightarrow> hub_ok w" "sys_inv w \<Longrightarrow> gauge_ok w"
  by (simp_all add: sys_inv_def)

lemma sys_inv_Register [inv_rules]:
  assumes "sys_inv w" and c: "w_heap w r = Some c" "is_open c"
    and "Load (hub_clients (w_hub w)) (cl_ID c) = None"
  shows "sys_inv (snd (Hub_RegisterClient now r w))"
proof -
  have ok: "hub_ok w" and g: "gauge_ok w" using assms(1) by (simp_all add: sys_inv_def)
  have "gauge_ok (snd (Hub_RegisterClient now r w))"
    using g assms(4) syncmap.size_store [OF hub_okD(1) [OF ok], of "cl_ID c" r]
    by (simp add: Register_eq [OF c(1)] gauge_ok_def)
  with hub_ok_Register [OF ok c] show ?thesis by (simp add: sys_inv_def)
qed

lemma sys_inv_Unregister [inv_rules]:
  assumes "sys_inv w"
  shows "sys_inv (snd (Hub_UnregisterClient now r w))"
proof -
  have ok: "hub_ok w" and g: "gauge_ok w" using assms by (simp_all add: sys_inv_def)
  have "gauge_ok (snd (Hub_UnregisterClient now r w))"
  proof (cases "w_heap w r")
    case None
    then show ?thesis using g by (simp add: Hub_UnregisterClient_def)
  next
    case c: (Some c)
    then have cok: "client_ok c" using ok hub_okD(2) heap_okD by blast
    show ?thesis
    proof (cases "Load (hub_clients (w_hub w)) (cl_ID c)")
      case None
      then show ?thesis using g by (simp add: Unregister_absent [OF c cok] gauge_ok_def)
    next
      case q: (Some q)
      then have "hub_clients (w_hub w) \<noteq> []" by (auto simp: Load_def)
      then have "1 \<le> length (hub_clients (w_hub w))" by (cases "hub_clients (w_hub w)") auto
      then show ?thesis
        using g q syncmap.size_delete [OF hub_okD(1) [OF ok], of "cl_ID c"]
        by (simp add: Unregister_present [OF c cok q] gauge_ok_def)
    qed
  qed
  with hub_ok_Unregister [OF ok] show ?thesis by (simp add: sys_inv_def)
qed

lemma sys_inv_frame:
  assumes "sys_inv w" and "hub_clients (w_hub v) = hub_clients (w_hub w)"
    and "online (w_metrics v) = online (w_metrics w)" and "hub_ok v"
  shows "sys_inv v"
  using assms by (simp add: sys_inv_def gauge_ok_def)

lemma send_keeps_online: "online (w_metrics (snd (Client_Send r m w))) = online (w_metrics w)"
  by (auto simp: go_simps split: option.splits send_result.splits)

lemma sys_inv_Send [inv_rules]: "sys_inv w \<Longrightarrow> sys_inv (snd (Client_Send r m w))"
  by (rule sys_inv_frame [where w = w]) (auto simp: send_keeps_hub send_keeps_online sys_inv_def intro: inv_rules)

lemma sys_inv_Emit [inv_rules]: "sys_inv w \<Longrightarrow> sys_inv (snd (Hub_Emit e w))"
  by (rule sys_inv_frame [where w = w]) (auto simp: Emit_eq sys_inv_def hub_ok_def)

lemma sys_inv_withClient [inv_rules]:
  assumes "\<And>c. w_heap w r = Some c \<Longrightarrow> sys_inv (snd (f c w))" and "sys_inv w"
  shows "sys_inv (snd (withClient r f w))"
  using assms by (cases "w_heap w r") auto

text \<open>Every \<open>Range\<close> whose body keeps the invariant keeps it, whatever the order.\<close>

lemma sys_inv_RangeOver [inv_rules]:
  assumes "\<And>r b w. sys_inv w \<Longrightarrow> sys_inv (snd (f r b w))" and "sys_inv w"
  shows "sys_inv (snd (Hub_RangeOver ks f b w))"
  unfolding Hub_RangeOver_def
  by (rule foldG_preserves [where P = sys_inv])
    (auto simp: bindG_app assms split: option.splits)

lemma sys_inv_Range [inv_rules]:
  assumes "\<And>r b w. sys_inv w \<Longrightarrow> sys_inv (snd (f r b w))" and "sys_inv w"
  shows "sys_inv (snd (Hub_Range f b w))"
  unfolding Range_order by (rule sys_inv_RangeOver [OF assms])

lemma sys_inv_then_ret [inv_rules]:
  "sys_inv (snd (m w)) \<Longrightarrow> sys_inv (snd (thenG m (ret x) w))"
  by (auto simp: thenG_app split: prod.splits outcome.splits)

lemma sys_inv_SendToAll [inv_rules]: "sys_inv w \<Longrightarrow> sys_inv (snd (Hub_SendToAll m w))"
  unfolding Hub_SendToAll_def send_all_body_def by (rule sys_inv_Range [OF sys_inv_Send])

lemma sys_inv_SendToUser [inv_rules]: "sys_inv w \<Longrightarrow> sys_inv (snd (Hub_SendToUser u m w))"
  unfolding Hub_SendToUser_def
proof (rule sys_inv_Range)
  show "sys_inv (snd (send_user_body u m r b w))" if "sys_inv w" for r b w
    unfolding send_user_body_def
    by (rule sys_inv_withClient) (auto intro: that sys_inv_then_ret sys_inv_Send)
qed

lemma sys_inv_kick_body [inv_rules]: "sys_inv w \<Longrightarrow> sys_inv (snd (kick_body now name r b w))"
  unfolding kick_body_def
  by (rule sys_inv_withClient) (auto intro: sys_inv_then_ret sys_inv_Unregister)

lemma sys_inv_KickByName [inv_rules]: "sys_inv w \<Longrightarrow> sys_inv (snd (Hub_KickByName now name w))"
  unfolding Hub_KickByName_def by (rule sys_inv_Range [OF sys_inv_kick_body])

lemma sys_inv_modifyHub:
  assumes "sys_inv w" and "\<And>h. hub_clients (f h) = hub_clients h"
  shows "sys_inv (snd (modifyHub f w))"
  by (rule sys_inv_frame [OF assms(1)])
    (use assms in \<open>auto simp: modifyHub_def sys_inv_def hub_ok_def\<close>)

lemma sys_inv_Subscribe [inv_rules]: "sys_inv w \<Longrightarrow> sys_inv (snd (Hub_Subscribe t f w))"
  by (rule sys_inv_frame [where w = w]) (auto simp: hub_op_defs thenG_app bindG_app sys_inv_def hub_ok_def)

lemma sys_inv_cancel [inv_rules]: "sys_inv w \<Longrightarrow> sys_inv (snd (Hub_cancel t hid w))"
  unfolding Hub_cancel_def
  by (rule sys_inv_modifyHub) (auto simp: Let_def split: option.splits)

lemma sys_inv_BanFor [inv_rules]: "sys_inv w \<Longrightarrow> sys_inv (snd (Hub_BanFor now name d w))"
  unfolding Hub_BanFor_def by (rule sys_inv_modifyHub) auto

lemma sys_inv_IsBanned [inv_rules]: "sys_inv w \<Longrightarrow> sys_inv (snd (Hub_IsBanned now name w))"
  by (rule sys_inv_frame [where w = w])
    (auto simp: hub_op_defs thenG_app bindG_app sys_inv_def hub_ok_def split: ban_answer.splits)

end
