(* ===== verification/Hub_Properties.thy ===== *)
theory Hub_Properties
  imports Hub_Invariants
begin

section \<open>Properties of the hub\<close>

text \<open>
  The broadcasts for every iteration order of the client map, kicking, the subscription
  life-cycle, and the ban list with its race.
\<close>

subsection \<open>Example states\<close>

definition empty_world :: "'h world" where
  "empty_world = \<lparr>w_metrics = [], w_heap = Map.empty, w_hub = NewHub, w_go = []\<rparr>"

definition demo_client :: "string \<Rightarrow> string \<Rightarrow> int \<Rightarrow> Client" where
  "demo_client cid name n = (NewClientWithBuffer cid n)\<lparr>cl_Name := name\<rparr>"

definition demo_heap :: "cref \<rightharpoonup> Client" where
  "demo_heap = [2 \<mapsto> demo_client ''a'' ''alice'' 1, 3 \<mapsto> demo_client ''b'' ''bob'' 1]"

definition demo_world :: "'h world" where
  "demo_world = snd (thenG (Hub_RegisterClient 1 2) (Hub_RegisterClient 2 3)
     (empty_world\<lparr>w_heap := demo_heap\<rparr>))"

lemma sys_inv_empty [simp]: "sys_inv empty_world"
  by (simp add: sys_inv_def hub_ok_def gauge_ok_def empty_world_def NewHub_def syncmap_ok_def
      heap_ok_def Load_def)

lemma demo_client_simps [simp]:
  "client_ok (demo_client cid name n)" "is_open (demo_client cid name n)"
  "cl_ID (demo_client cid name n) = cid" "cl_Name (demo_client cid name n) = name"
  "ch_buf (cl_out (demo_client cid name n)) = []"
  using NewClient_ok [of cid n] NewClient_simps [of cid n]
  by (simp_all add: demo_client_def client_ok_def)

lemma demo_heap_ok: "heap_ok demo_heap"
  by (simp add: heap_ok_def demo_heap_def)

lemma demo_world_eq:
  "demo_world = \<lparr>w_metrics = [OnlineUsers 1, OnlineUsers 1], w_heap = demo_heap,
     w_hub = NewHub\<lparr>hub_clients := [(''a'', 2), (''b'', 3)]\<rparr>, w_go = []\<rparr>"
  by (simp add: demo_world_def thenG_app Register_eq [where c = "demo_client ''a'' ''alice'' 1"]
      Register_eq [where c = "demo_client ''b'' ''bob'' 1"] demo_heap_def spawns_def
      empty_world_def NewHub_def Store_def)

lemma demo_world_inv: "sys_inv demo_world"
  using demo_heap_ok
  by (auto simp: demo_world_eq sys_inv_def hub_ok_def gauge_ok_def NewHub_def syncmap_ok_def Load_def
      demo_heap_def)

lemma demo_world_ok: "hub_ok demo_world"
  by (rule sys_invD(1) [OF demo_world_inv])

lemma demo_registered [simp]: "registered demo_world r \<longleftrightarrow> r = 2 \<or> r = 3"
  unfolding registered_entry [OF demo_world_ok] by (auto simp: demo_world_eq NewHub_def)

lemma demo_names [simp]:
  "w_heap demo_world 2 = Some (demo_client ''a'' ''alice'' 1)"
  "w_heap demo_world 3 = Some (demo_client ''b'' ''bob'' 1)"
  by (simp_all add: demo_world_eq demo_heap_def)

lemma demo_order: "range_order demo_world = [''a'', ''b'']"
  by (simp add: range_order_def demo_world_eq NewHub_def)

subsection \<open>Broadcasts\<close>

text \<open>
  C6: \<open>SendToAll\<close> delivers. In every state that satisfies the hub's invariant, and for every
  order in which \<open>Range\<close> may visit the clients, the broadcast returns without a panic, puts the
  message once at the end of the buffer of every registered client that has room, changes no
  other client, starts no goroutine, and counts exactly one dropped message for every registered
  client whose buffer is full.
\<close>

theorem SendToAll_every_order:
  assumes "hub_ok w" and "mset ks = mset (range_order w)"
  shows "Hub_RangeOver ks (send_all_body m) () w =
    (Ret (), w\<lparr>w_heap := deliver m {r. registered w r} (w_heap w),
       w_metrics := w_metrics w @
         replicate (card {r. registered w r \<and> selects is_full (w_heap w) r}) DroppedMessagesTotal\<rparr>)"
proof -
  have "registered w r \<Longrightarrow> selects (\<lambda>_. True) (w_heap w) r" for r
    using hub_okD(3) [OF assms(1)] by (auto simp: registered_def selects_def)
  then have "{r. registered w r \<and> selects (\<lambda>_. True) (w_heap w) r} = {r. registered w r}" by auto
  then show ?thesis
    using RangeOver_send [where P = "\<lambda>_. True" and body = "send_all_body m" and m = m, OF assms send_all_body_eq]
    by (simp add: send_bodies_keep_hub)
qed

theorem SendToAll_every_order_witness:
  "hub_ok (demo_world :: nat world) \<and> mset [''b'', ''a''] = mset (range_order (demo_world :: nat world)) \<and>
   fst (Hub_RangeOver [''b'', ''a''] (send_all_body ''hi'') () (demo_world :: nat world)) = Ret ()"
proof -
  have perm: "mset [''b'', ''a''] = mset (range_order (demo_world :: nat world))"
    by (simp add: demo_order)
  show ?thesis
    using SendToAll_every_order [OF demo_world_ok perm] demo_world_ok perm by simp
qed

text \<open>
  \<open>SendToUser\<close> reaches exactly the clients of that name. For every iteration order the
  result is whether some registered client has the name, every registered client of that name
  gets the message once, and nobody else does.
\<close>

theorem SendToUser_every_order:
  assumes "hub_ok w" and "mset ks = mset (range_order w)"
  shows "Hub_RangeOver ks (send_user_body u m) False w =
    (Ret (\<exists>r. registered w r \<and> selects (\<lambda>c. cl_Name c = u) (w_heap w) r),
     w\<lparr>w_heap := deliver m {r. registered w r \<and> selects (\<lambda>c. cl_Name c = u) (w_heap w) r} (w_heap w),
       w_metrics := w_metrics w @
         replicate (card {r. registered w r \<and> selects (\<lambda>c. cl_Name c = u \<and> is_full c) (w_heap w) r})
           DroppedMessagesTotal\<rparr>)"
  using RangeOver_send [where P = "\<lambda>c. cl_Name c = u" and body = "send_user_body u m" and m = m
      and b = False, OF assms send_user_body_eq]
  by (simp add: send_bodies_keep_hub)

theorem SendToUser_every_order_witness:
  "hub_ok (demo_world :: nat world) \<and> mset [''b'', ''a''] = mset (range_order (demo_world :: nat world)) \<and>
   fst (Hub_RangeOver [''b'', ''a''] (send_user_body ''bob'' ''hi'') False (demo_world :: nat world)) = Ret True"
proof -
  have perm: "mset [''b'', ''a''] = mset (range_order (demo_world :: nat world))"
    by (simp add: demo_order)
  have "\<exists>r. registered (demo_world :: nat world) r \<and> selects (\<lambda>c. cl_Name c = ''bob'') (w_heap (demo_world :: nat world)) r"
    by (rule exI [of _ 3]) simp
  then show ?thesis
    using SendToUser_every_order [OF demo_world_ok perm, of "''bob''" "''hi''"] demo_world_ok perm by simp
qed

subsection \<open>Kicking\<close>

definition close_all :: "cref set \<Rightarrow> (cref \<rightharpoonup> Client) \<Rightarrow> (cref \<rightharpoonup> Client)" where
  "close_all R h = (\<lambda>r. if r \<in> R then map_option close_client (h r) else h r)"

definition kick_set :: "string set \<Rightarrow> string \<Rightarrow> ('h, 'z) world_scheme \<Rightarrow> cref set" where
  "kick_set K name w =
     {r. \<exists>k\<in>K. Load (hub_clients (w_hub w)) k = Some r \<and> selects (\<lambda>c. cl_Name c = name) (w_heap w) r}"

lemma kick_body_eq:
  "w_heap w r = Some c \<Longrightarrow> cl_Name c \<noteq> name \<Longrightarrow> kick_body now name r b w = (Ret b, w)"
  "w_heap w r = Some c \<Longrightarrow> cl_Name c = name \<Longrightarrow>
     kick_body now name r b w = thenG (Hub_UnregisterClient now r) (ret True) w"
  by (simp_all add: kick_body_def)

lemma kick_one:
  fixes w :: "('h, 'z) world_scheme"
  assumes "hub_ok w" and "Load (hub_clients (w_hub w)) k = Some r" and "w_heap w r = Some c" and "cl_Name c = name" and "k \<notin> K"
  obtains w' where "kick_body now name r b w = (Ret True, w')" and "hub_ok w'"
    and "w_heap w' = (w_heap w)(r \<mapsto> close_client c)"
    and "\<forall>j. Load (hub_clients (w_hub w')) j = (if j = k then None else Load (hub_clients (w_hub w)) j)"
    and "\<forall>q. registered w' q \<longleftrightarrow> registered w q \<and> q \<noteq> r"
    and "kick_set K name w' = kick_set K name w" and "kick_set (insert k K) name w = insert r (kick_set K name w)"
    and "r \<notin> kick_set K name w"
proof -
  note ok = hub_okD [OF assms(1)]
  have c: "cl_ID c = k" "client_ok c" using ok(3) [OF assms(2)] heap_okD [OF ok(2) assms(3)] assms(3) by auto
  have only: "q = r \<Longrightarrow> j = k" if "Load (hub_clients (w_hub w)) j = Some q" for j q
    using hub_ok_one_key [OF assms(1), of j r k] that assms(2) by simp
  obtain w1 where w1: "Hub_UnregisterClient now r w = (Ret (), w1)"
    and heap1: "w_heap w1 = (w_heap w)(r \<mapsto> close_client c)"
    and clients1: "hub_clients (w_hub w1) = Delete k (hub_clients (w_hub w))"
    using Unregister_present [OF assms(3) c(2)] assms(2) c(1) by fastforce
  have load1: "Load (hub_clients (w_hub w1)) j = (if j = k then None else Load (hub_clients (w_hub w)) j)" for j
    unfolding clients1 by (rule syncmap.load_delete [OF ok(1)])
  have "Load (hub_clients (w_hub w1)) j = Some q \<and> selects P (w_heap w1) q \<longleftrightarrow>
      Load (hub_clients (w_hub w)) j = Some q \<and> selects P (w_heap w) q" if "j \<in> K" for j q P
    using that assms(5) only [of j q] by (auto simp: load1 heap1 selects_def)
  then have "kick_set K name w1 = kick_set K name w" by (simp add: kick_set_def cong: bex_cong)
  moreover have "hub_ok w1" using hub_ok_Unregister [OF assms(1), of now r] w1 by simp
  moreover have "kick_set (insert k K) name w = insert r (kick_set K name w)"
    using assms(2-4) by (auto simp: kick_set_def selects_def)
  moreover have "r \<notin> kick_set K name w" using only assms(5) by (auto simp: kick_set_def)
  moreover have "kick_body now name r b w = (Ret True, w1)"
    using w1 by (simp add: thenG_app kick_body_eq(2) [OF assms(3,4)])
  ultimately show thesis using that [of w1] heap1 load1 registered_delete [OF assms(1,2) clients1] by blast
qed

lemma RangeOver_kick:
  assumes "hub_ok w" and "distinct ks" and "\<forall>k\<in>set ks. Load (hub_clients (w_hub w)) k \<noteq> None"
  shows "\<exists>w'. Hub_RangeOver ks (kick_body now name) b w = (Ret (b \<or> kick_set (set ks) name w \<noteq> {}), w') \<and>
    hub_ok w' \<and> w_heap w' = close_all (kick_set (set ks) name w) (w_heap w) \<and>
    (\<forall>r. registered w' r \<longleftrightarrow> registered w r \<and> r \<notin> kick_set (set ks) name w)"
  using assms
proof (induction ks arbitrary: w b)
  case Nil
  then show ?case by (simp add: Hub_RangeOver_def kick_set_def close_all_def)
next
  case (Cons k ks)
  have dist: "k \<notin> set ks" "distinct ks" using Cons.prems(2) by simp_all
  from Cons.prems obtain r where r: "Load (hub_clients (w_hub w)) k = Some r" by auto
  with hub_okD(3) [OF Cons.prems(1)] obtain c where c: "w_heap w r = Some c" by blast
  have unfold: "Hub_RangeOver (k # ks) (kick_body now name) b w =
      bindG (kick_body now name r b) (Hub_RangeOver ks (kick_body now name)) w"
    by (simp add: Hub_RangeOver_def bindG_app r)
  show ?case
  proof (cases "cl_Name c = name")
    case False
    have "kick_set (set (k # ks)) name w = kick_set (set ks) name w"
      using False r c by (auto simp: kick_set_def selects_def)
    with False c unfold Cons.IH [OF Cons.prems(1), of b] Cons.prems show ?thesis
      by (simp add: kick_body_eq)
  next
    case True
    obtain w1 where w1: "kick_body now name r b w = (Ret True, w1)" "hub_ok w1" "w_heap w1 = (w_heap w)(r \<mapsto> close_client c)"
        "\<forall>j. Load (hub_clients (w_hub w1)) j = (if j = k then None else Load (hub_clients (w_hub w)) j)"
        "\<forall>q. registered w1 q \<longleftrightarrow> registered w q \<and> q \<noteq> r"
      and sets: "kick_set (set ks) name w1 = kick_set (set ks) name w"
        "kick_set (insert k (set ks)) name w = insert r (kick_set (set ks) name w)" "r \<notin> kick_set (set ks) name w"
      by (rule kick_one [OF Cons.prems(1) r c True dist(1), of now b]) (erule that; assumption)
    have "\<forall>j\<in>set ks. Load (hub_clients (w_hub w1)) j \<noteq> None" using Cons.prems by (auto simp: w1(4))
    from Cons.IH [OF w1(2) dist(2) this, of True, unfolded sets(1)] obtain w' where
      w': "Hub_RangeOver ks (kick_body now name) True w1 = (Ret (True \<or> kick_set (set ks) name w \<noteq> {}), w')" "hub_ok w'"
      "w_heap w' = close_all (kick_set (set ks) name w) (w_heap w1)"
      "\<forall>q. registered w' q \<longleftrightarrow> registered w1 q \<and> q \<notin> kick_set (set ks) name w" by (elim exE conjE)
    have "w_heap w' = close_all (kick_set (set (k # ks)) name w) (w_heap w)"
      using sets(2,3) c by (auto simp: w'(3) w1(3) close_all_def fun_eq_iff)
    with w' sets(2) w1(1,5) unfold show ?thesis by (auto simp: bindG_app)
  qed
qed

text \<open>The key set of any iteration order, and what kicking over all of it does.\<close>

lemma RangeOver_kick_all:
  assumes "sys_inv w" and "mset ks = mset (range_order w)"
  shows "\<exists>w'. Hub_RangeOver ks (kick_body now name) False w =
      (Ret (\<exists>r. registered w r \<and> selects (\<lambda>c. cl_Name c = name) (w_heap w) r), w') \<and>
    (\<forall>r. registered w' r \<longleftrightarrow> registered w r \<and> \<not> selects (\<lambda>c. cl_Name c = name) (w_heap w) r) \<and>
    w_heap w' = close_all {r. registered w r \<and> selects (\<lambda>c. cl_Name c = name) (w_heap w) r} (w_heap w) \<and>
    sys_inv w'"
proof -
  have ok: "hub_ok w" using assms(1) by (simp add: sys_inv_def)
  note m = hub_okD(1) [OF ok]
  have keys: "set ks = set (map fst (hub_clients (w_hub w)))" and dist: "distinct ks"
    using assms(2) m by (metis mset_eq_setD range_order_def, metis mset_eq_imp_distinct_iff range_order_def syncmap_ok_def)
  have "\<forall>k\<in>set ks. Load (hub_clients (w_hub w)) k \<noteq> None"
    unfolding keys using syncmap.key_load [OF m] by blast
  moreover have "kick_set (set ks) name w =
      {r. registered w r \<and> selects (\<lambda>c. cl_Name c = name) (w_heap w) r}"
    unfolding keys kick_set_def registered_def using syncmap.key_load [OF m] by fastforce
  ultimately obtain w' where "Hub_RangeOver ks (kick_body now name) False w =
        (Ret (\<exists>r. registered w r \<and> selects (\<lambda>c. cl_Name c = name) (w_heap w) r), w')"
      "w_heap w' = close_all {r. registered w r \<and> selects (\<lambda>c. cl_Name c = name) (w_heap w) r} (w_heap w)"
      "\<forall>r. registered w' r \<longleftrightarrow> registered w r \<and> \<not> selects (\<lambda>c. cl_Name c = name) (w_heap w) r"
    using RangeOver_kick [OF ok dist, of now name False] by auto
  moreover from this(1) have "sys_inv w'"
    using sys_inv_RangeOver [where f = "kick_body now name" and b = False and ks = ks,
        OF sys_inv_kick_body assms(1)] by simp
  ultimately show ?thesis by blast
qed

text \<open>
  \<open>KickByName\<close> removes everybody of that name. For every iteration order the call returns
  whether a registered client has the name; afterwards exactly the other clients are registered,
  every client of that name has been closed, all other clients are unchanged, and the invariant
  (with the online gauge equal to the number of registered clients) still holds.
\<close>

theorem KickByName_every_order:
  assumes "sys_inv w" and "mset ks = mset (range_order w)"
  shows "\<exists>w'. Hub_RangeOver ks (kick_body now name) False w =
      (Ret (\<exists>r. registered w r \<and> selects (\<lambda>c. cl_Name c = name) (w_heap w) r), w') \<and>
    (\<forall>r. registered w' r \<longleftrightarrow> registered w r \<and> \<not> selects (\<lambda>c. cl_Name c = name) (w_heap w) r) \<and>
    w_heap w' = close_all {r. registered w r \<and> selects (\<lambda>c. cl_Name c = name) (w_heap w) r} (w_heap w) \<and>
    sys_inv w'"
  by (rule RangeOver_kick_all [OF assms])

theorem KickByName_every_order_witness:
  "sys_inv (demo_world :: nat world) \<and> mset [''b'', ''a''] = mset (range_order (demo_world :: nat world)) \<and>
   (\<exists>w'. Hub_RangeOver [''b'', ''a''] (kick_body 9 ''bob'') False (demo_world :: nat world) = (Ret True, w') \<and>
      \<not> registered w' 3 \<and> registered w' 2)"
proof -
  have perm: "mset [''b'', ''a''] = mset (range_order (demo_world :: nat world))"
    by (simp add: demo_order)
  have names: "selects (\<lambda>c. cl_Name c = ''bob'') (w_heap (demo_world :: nat world)) 3"
    "\<not> selects (\<lambda>c. cl_Name c = ''bob'') (w_heap (demo_world :: nat world)) 2"
    "registered (demo_world :: nat world) 3" "registered (demo_world :: nat world) 2"
    by simp_all
  have ex: "\<exists>r. registered (demo_world :: nat world) r \<and> selects (\<lambda>c. cl_Name c = ''bob'') (w_heap (demo_world :: nat world)) r"
    by (rule exI [of _ 3]) simp
  obtain w' where w': "Hub_RangeOver [''b'', ''a''] (kick_body 9 ''bob'') False (demo_world :: nat world) =
      (Ret (\<exists>r. registered (demo_world :: nat world) r \<and>
        selects (\<lambda>c. cl_Name c = ''bob'') (w_heap (demo_world :: nat world)) r), w')"
    "\<forall>r. registered w' r \<longleftrightarrow> registered (demo_world :: nat world) r \<and>
      \<not> selects (\<lambda>c. cl_Name c = ''bob'') (w_heap (demo_world :: nat world)) r"
    using KickByName_every_order [OF demo_world_inv perm, of 9 "''bob''"] by (elim exE conjE)
  have "\<not> registered w' 3" "registered w' 2" unfolding w'(2) [rule_format] using names by auto
  with w'(1) ex show ?thesis by (intro conjI demo_world_inv perm exI [of _ w']) simp_all
qed

subsection \<open>Subscriptions\<close>

definition handlers_ok :: "'h Hub \<Rightarrow> bool" where
  "handlers_ok h \<longleftrightarrow> (\<forall>t es. hub_handlers h t = Some es \<longrightarrow>
     es \<noteq> [] \<and> (\<forall>e\<in>set es. unat (he_id e) \<le> unat (hub_nextHID h)))"

lemma unat_Suc_hid: "unat (n :: uint64) < 2 ^ 64 - 1 \<Longrightarrow> unat (n + 1) = Suc (unat n)"
  by (simp add: unat_word_ariths)

lemma handlers_ok_NewHub: "handlers_ok NewHub"
  by (simp add: handlers_ok_def NewHub_def)

lemma handlers_ok_Subscribe:
  assumes "handlers_ok (w_hub w)" and "unat (hub_nextHID (w_hub w)) < 2 ^ 64 - 1"
  shows "handlers_ok (w_hub (snd (Hub_Subscribe t f w)))"
proof -
  let ?h = "w_hub w" and ?h' = "w_hub (snd (Hub_Subscribe t f w))"
  let ?old = "case hub_handlers (w_hub w) t of None \<Rightarrow> [] | Some es \<Rightarrow> es"
  have h': "hub_nextHID ?h' = hub_nextHID ?h + 1"
    "hub_handlers ?h' = (hub_handlers ?h)(t \<mapsto> ?old @ [\<lparr>he_id = hub_nextHID ?h + 1, he_fn = f\<rparr>])"
    by (simp_all add: hub_op_defs thenG_app bindG_app)
  have old: "unat (he_id e) \<le> unat (hub_nextHID ?h)" if "hub_handlers ?h q = Some es" "e \<in> set es" for q es e
    using assms(1) that by (auto simp: handlers_ok_def)
  have "unat (he_id e) \<le> Suc (unat (hub_nextHID ?h))" if "hub_handlers ?h q = Some es" "e \<in> set es" for q es e
    using old [OF that] by simp
  then show ?thesis
    using assms(1) unat_Suc_hid [OF assms(2)]
    by (auto simp: handlers_ok_def h' split: if_splits option.splits) metis
qed

lemma fresh_id:
  assumes "handlers_ok h" and "unat (hub_nextHID h) < 2 ^ 64 - 1" and "hub_handlers h t = Some es"
  shows "filter (\<lambda>e. he_id e \<noteq> hub_nextHID h + 1) es = es"
proof -
  have "he_id e \<noteq> hub_nextHID h + 1" if "e \<in> set es" for e
    using assms that unat_Suc_hid [OF assms(2)] by (fastforce simp: handlers_ok_def)
  then show ?thesis by simp
qed

text \<open>
  C27: cancelling undoes subscribing. As long as fewer than \<open>2^64 - 1\<close> handlers have been
  subscribed, calling the function that \<open>SubscribeCancelable\<close> returned restores the handler
  table exactly, for every event type; only the id counter has moved.
\<close>

theorem subscribe_cancel_roundtrip:
  assumes "handlers_ok (w_hub w)" and "unat (hub_nextHID (w_hub w)) < 2 ^ 64 - 1"
  shows "bindG (Hub_SubscribeCancelable t f) (Hub_cancel t) w =
    (Ret (), w\<lparr>w_hub := (w_hub w)\<lparr>hub_nextHID := hub_nextHID (w_hub w) + 1\<rparr>\<rparr>)"
proof (cases "hub_handlers (w_hub w) t")
  case None
  then have "(hub_handlers (w_hub w))(t := None) = hub_handlers (w_hub w)" by (simp add: fun_upd_idem)
  with None show ?thesis by (simp add: hub_op_defs thenG_app bindG_app Let_def)
next
  case (Some es)
  then have ne: "es \<noteq> []" using assms(1) by (auto simp: handlers_ok_def)
  have "(hub_handlers (w_hub w))(t \<mapsto> es) = hub_handlers (w_hub w)"
    using Some by (simp add: fun_upd_idem)
  with Some ne fresh_id [OF assms Some] show ?thesis
    by (simp add: hub_op_defs thenG_app bindG_app Let_def)
qed

theorem subscribe_cancel_roundtrip_witness:
  "handlers_ok (w_hub (demo_world :: nat world)) \<and> unat (hub_nextHID (w_hub (demo_world :: nat world))) < 2 ^ 64 - 1 \<and>
   hub_handlers (w_hub (snd (bindG (Hub_SubscribeCancelable EventHeartbeat 7) (Hub_cancel EventHeartbeat)
     (demo_world :: nat world)))) = Map.empty"
proof -
  have h: "handlers_ok (w_hub (demo_world :: nat world))" "unat (hub_nextHID (w_hub (demo_world :: nat world))) < 2 ^ 64 - 1"
    by (simp_all add: handlers_ok_def demo_world_eq NewHub_def)
  show ?thesis
    using h subscribe_cancel_roundtrip [OF h, of EventHeartbeat 7] by (simp add: demo_world_eq NewHub_def)
qed

text \<open>
  \<open>Emit\<close> starts every handler once, in subscription order. After a further subscription
  of \<open>f\<close> for type \<open>t\<close>, emitting an event starts the goroutines it started before the
  subscription, followed by one for \<open>f\<close> exactly when the event has type \<open>t\<close>; nothing else of
  the state changes and \<open>Emit\<close> never panics.
\<close>

theorem Subscribe_Emit:
  "Hub_Emit e (snd (Hub_Subscribe t f w)) =
     (Ret (), (snd (Hub_Subscribe t f w))\<lparr>w_go := w_go w @ spawns e w @
        (if Event_Type e = t then [(f, e)] else [])\<rparr>)"
  unfolding Emit_eq by (simp add: spawns_def hub_op_defs thenG_app bindG_app split: option.splits)

subsection \<open>Bans\<close>

text \<open>What the ban list means: an entry bans until its time, the zero time bans for ever.\<close>

definition ban_active :: "Time option \<Rightarrow> Time \<Rightarrow> bool" where
  "ban_active b now = (case b of None \<Rightarrow> False | Some u \<Rightarrow> u = 0 \<or> now < u)"

lemma IsBanned_eq:
  "Hub_IsBanned now name w =
     (Ret (ban_active (hub_banned (w_hub w) name) now),
      if hub_banned (w_hub w) name \<noteq> None \<and> \<not> ban_active (hub_banned (w_hub w) name) now
      then w\<lparr>w_hub := (w_hub w)\<lparr>hub_banned := (hub_banned (w_hub w))(name := None)\<rparr>\<rparr> else w)"
  by (auto simp: hub_op_defs ban_active_def thenG_app bindG_app Time_IsZero_def Time_Before_def
      split: option.splits)

text \<open>
  C26: \<open>IsBanned\<close> implements the abstract ban list. It answers whether the entry bans the user
  now; it removes the user's entry exactly when that does not ban the user now, that is when it has expired, and
  leaves every other entry; the removal is invisible: every later question about every user has the
  same answer before and after the call, and nothing but the ban list changes.
\<close>

theorem IsBanned_refines:
  assumes "now \<le> t"
  shows "\<exists>w'. Hub_IsBanned now name w = (Ret (ban_active (hub_banned (w_hub w) name) now), w') \<and>
    (\<forall>other. hub_banned (w_hub w') other =
       (if other = name \<and> \<not> ban_active (hub_banned (w_hub w) name) now then None else hub_banned (w_hub w) other)) \<and>
    (\<forall>other. ban_active (hub_banned (w_hub w') other) t = ban_active (hub_banned (w_hub w) other) t) \<and>
    w' = w\<lparr>w_hub := (w_hub w)\<lparr>hub_banned := hub_banned (w_hub w')\<rparr>\<rparr>"
  using assms unfolding IsBanned_eq by (auto simp: ban_active_def split: option.splits)

definition expired_world :: "nat world" where
  "expired_world = empty_world\<lparr>w_hub := NewHub\<lparr>hub_banned := [''eve'' \<mapsto> 3, ''bob'' \<mapsto> 0]\<rparr>\<rparr>"

theorem IsBanned_refines_witness:
  "hub_banned (w_hub expired_world) ''eve'' = Some 3 \<and>
   (\<exists>w'. Hub_IsBanned 5 ''eve'' expired_world = (Ret False, w') \<and>
      hub_banned (w_hub w') ''eve'' = None \<and> hub_banned (w_hub w') ''bob'' = Some 0)"
  using IsBanned_refines [of 5 9 "''eve''" expired_world] by (auto simp: expired_world_def ban_active_def)

text \<open>
  \<open>BanFor\<close> bans for the given time. After banning \<open>name\<close> for \<open>d\<close> at time \<open>now\<close> (a clock
  past the zero time), \<open>IsBanned\<close> answers yes for \<open>name\<close> at time \<open>t\<close> exactly when \<open>d\<close>, read as
  a signed 64-bit number, is not positive or \<open>t\<close> is before \<open>now + d\<close>; other users' bans are
  unaffected.
\<close>

theorem BanFor_window:
  assumes "0 < now"
  shows "fst (thenG (Hub_BanFor now name d) (Hub_IsBanned t other) w) =
    Ret (if other = name then sint d \<le> 0 \<or> t < now + sint d
         else ban_active (hub_banned (w_hub w) other) t)"
  using assms by (simp add: thenG_app Hub_BanFor_def modifyHub_def IsBanned_eq ban_active_def Time_Add_def)

theorem BanFor_window_witness:
  "(0::int) < 100 \<and>
   fst (thenG (Hub_BanFor 100 ''eve'' 60) (Hub_IsBanned 159 ''eve'') (demo_world :: nat world)) = Ret True \<and>
   fst (thenG (Hub_BanFor 100 ''eve'' 60) (Hub_IsBanned 160 ''eve'') (demo_world :: nat world)) = Ret False"
proof -
  have h: "(0::int) < 100" by simp
  show ?thesis
    using BanFor_window [OF h, of "''eve''" 60 159 "''eve''" "demo_world :: nat world"]
      BanFor_window [OF h, of "''eve''" 60 160 "''eve''" "demo_world :: nat world"] by simp
qed

text \<open>
  A ban can be lost. \<open>IsBanned\<close> checks the entry in one critical section and deletes it in
  another. When the entry has expired and another goroutine bans the user again between the two,
  the deletion removes the new ban: afterwards the user is not banned, at any time and however
  long the new ban was meant to last.
\<close>

theorem IsBanned_BanFor_race:
  assumes "hub_banned (w_hub w) name = Some u" and "u \<noteq> 0" and "u \<le> now"
  shows "IsBanned_read now name w = (Ret Expired, w) \<and>
    fst (thenG (Hub_BanFor now name d) (bindG (IsBanned_clean name) (\<lambda>_. Hub_IsBanned t name)) w) = Ret False"
  using assms
  by (simp add: hub_op_defs IsBanned_eq [unfolded hub_op_defs] ban_active_def thenG_app bindG_app
      Time_IsZero_def Time_Before_def)

theorem IsBanned_BanFor_race_witness:
  "hub_banned (w_hub (snd (Hub_BanFor 100 ''eve'' 60 (demo_world :: nat world)))) ''eve'' = Some 160 \<and>
   fst (thenG (Hub_BanFor 200 ''eve'' 0) (bindG (IsBanned_clean ''eve'') (\<lambda>_. Hub_IsBanned 201 ''eve''))
     (snd (Hub_BanFor 100 ''eve'' 60 (demo_world :: nat world)))) = Ret False"
proof -
  have h: "hub_banned (w_hub (snd (Hub_BanFor 100 ''eve'' 60 (demo_world :: nat world)))) ''eve'' = Some 160"
    by (simp add: Hub_BanFor_def modifyHub_def Time_Add_def)
  show ?thesis using h IsBanned_BanFor_race [OF h, of 200 0 201] by simp
qed

end
