(* ===== verification/Go_Strings.thy ===== *)
theory Go_Strings
  imports Go_Prelude "HOL-Library.Sublist"
begin

section \<open>Strings, runes and numbers of the Go standard library\<close>

text \<open>
  A Go string is a sequence of bytes, a \<open>string\<close> here. The functions of the packages
  \<open>strings\<close>, \<open>unicode/utf8\<close>, \<open>strconv\<close> and \<open>fmt\<close> that the program calls are written out on
  bytes: UTF-8 decoding with its error rune, trimming and splitting at Unicode white space,
  lower-casing, decimal output, \<open>strconv.Atoi\<close> and the integer case of \<open>fmt.Sscan\<close>.
  The lower-case table of runes beyond ASCII is a parameter \<open>ulower\<close> (\<open>unicode.ToLower\<close>).
\<close>

subsection \<open>Bytes\<close>

definition utf8 :: "int list \<Rightarrow> string" where
  "utf8 bs = map char_of bs"

abbreviation byte_of :: "char \<Rightarrow> int" where
  "byte_of c \<equiv> of_char c"

lemma byte_of_bounds: "0 \<le> byte_of c" "byte_of c < 256"
proof -
  have "byte_of c = byte_of c mod 256" by simp
  also have "0 \<le> byte_of c mod 256 \<and> byte_of c mod 256 < 256" by (simp only: pos_mod_sign pos_mod_bound zero_less_numeral simp_thms)
  finally show "0 \<le> byte_of c" "byte_of c < 256" by simp_all
qed

definition is_ascii :: "string \<Rightarrow> bool" where
  "is_ascii s \<longleftrightarrow> list_all (\<lambda>c. byte_of c < 128) s"

subsection \<open>UTF-8\<close>

type_synonym rune = int

definition rune_error :: rune where
  "rune_error = 65533"

definition cont_byte :: "int \<Rightarrow> int \<Rightarrow> int \<Rightarrow> bool" where
  "cont_byte lo hi b \<longleftrightarrow> lo \<le> b \<and> b \<le> hi"

text \<open>
  \<open>utf8.DecodeRuneInString\<close>: the rune and its width; anything that is not the shortest valid
  encoding of a code point gives the error rune with width 1.
\<close>

definition decode_rune :: "string \<Rightarrow> rune \<times> nat" where
  "decode_rune s = (case map byte_of (take 4 s) of
     [] \<Rightarrow> (rune_error, 0)
   | b0 # bs \<Rightarrow>
      if b0 < 128 then (b0, 1)
      else if 194 \<le> b0 \<and> b0 \<le> 223 then
        (case bs of
           b1 # _ \<Rightarrow> if cont_byte 128 191 b1 then ((b0 mod 32) * 64 + b1 mod 64, 2) else (rune_error, 1)
         | [] \<Rightarrow> (rune_error, 1))
      else if 224 \<le> b0 \<and> b0 \<le> 239 then
        (case bs of
           b1 # b2 # _ \<Rightarrow>
             if cont_byte (if b0 = 224 then 160 else 128) (if b0 = 237 then 159 else 191) b1 \<and> cont_byte 128 191 b2
             then ((b0 mod 16) * 4096 + (b1 mod 64) * 64 + b2 mod 64, 3) else (rune_error, 1)
         | _ \<Rightarrow> (rune_error, 1))
      else if 240 \<le> b0 \<and> b0 \<le> 244 then
        (case bs of
           b1 # b2 # b3 # _ \<Rightarrow>
             if cont_byte (if b0 = 240 then 144 else 128) (if b0 = 244 then 143 else 191) b1 \<and>
                cont_byte 128 191 b2 \<and> cont_byte 128 191 b3
             then ((b0 mod 8) * 262144 + (b1 mod 64) * 4096 + (b2 mod 64) * 64 + b3 mod 64, 4)
             else (rune_error, 1)
         | _ \<Rightarrow> (rune_error, 1))
      else (rune_error, 1))"

text \<open>The runes of a string, each with the bytes it was read from.\<close>

function (sequential) runes :: "string \<Rightarrow> (rune \<times> string) list" where
  "runes [] = []"
| "runes (c # cs) =
     (let (r, n) = decode_rune (c # cs) in (r, take n (c # cs)) # runes (drop (n - 1) cs))"
  by pat_completeness auto
termination
  by (relation "measure length") auto

lemma decode_rune_width: "s \<noteq> [] \<Longrightarrow> 1 \<le> snd (decode_rune s) \<and> snd (decode_rune s) \<le> length s"
  by (cases s rule: list.exhaust; cases "tl s"; cases "tl (tl s)"; cases "tl (tl (tl s))")
    (auto simp: decode_rune_def)

lemma runes_concat: "concat (map snd (runes s)) = s"
proof (induction s rule: runes.induct)
  case 1
  then show ?case by simp
next
  case (2 c cs)
  obtain r n where rn: "decode_rune (c # cs) = (r, n)" by (cases "decode_rune (c # cs)")
  with decode_rune_width [of "c # cs"] obtain k where k: "n = Suc k" by (cases n) auto
  have "concat (map snd (runes (drop (n - 1) cs))) = drop (n - 1) cs"
    using "2.IH" rn by metis
  with rn k show ?case by simp
qed

lemma decode_rune_ascii: "byte_of c < 128 \<Longrightarrow> decode_rune (c # cs) = (byte_of c, 1)"
  by (simp add: decode_rune_def)

lemma runes_ascii: "is_ascii s \<Longrightarrow> runes s = map (\<lambda>c. (byte_of c, [c])) s"
  by (induction s) (simp_all add: is_ascii_def decode_rune_ascii)

declare runes.simps [simp del]

text \<open>\<open>utf8.AppendRune\<close>: invalid runes are written as the error rune.\<close>

definition encode_rune :: "rune \<Rightarrow> string" where
  "encode_rune r =
     (let e = (if 1114111 < r \<or> (55296 \<le> r \<and> r \<le> 57343) then rune_error else r) in
      utf8 (if e < 128 then [e]
            else if e < 2048 then [192 + e div 64, 128 + e mod 64]
            else if e < 65536 then [224 + e div 4096, 128 + e div 64 mod 64, 128 + e mod 64]
            else [240 + e div 262144, 128 + e div 4096 mod 64, 128 + e div 64 mod 64, 128 + e mod 64]))"

subsection \<open>Package strings\<close>

text \<open>\<open>unicode.IsSpace\<close>.\<close>

definition is_space :: "rune \<Rightarrow> bool" where
  "is_space r \<longleftrightarrow> (9 \<le> r \<and> r \<le> 13) \<or> r = 32 \<or> r = 133 \<or> r = 160 \<or> r = 5760 \<or>
     (8192 \<le> r \<and> r \<le> 8202) \<or> r = 8232 \<or> r = 8233 \<or> r = 8239 \<or> r = 8287 \<or> r = 12288"

definition strings_TrimSpace :: "string \<Rightarrow> string" where
  "strings_TrimSpace s =
     concat (map snd (rev (dropWhile (\<lambda>(r, _). is_space r)
       (rev (dropWhile (\<lambda>(r, _). is_space r) (runes s))))))"

fun fields_of :: "string \<Rightarrow> (rune \<times> string) list \<Rightarrow> string list" where
  "fields_of cur [] = (if cur = [] then [] else [cur])"
| "fields_of cur ((r, bs) # rs) =
     (if is_space r then (if cur = [] then fields_of [] rs else cur # fields_of [] rs)
      else fields_of (cur @ bs) rs)"

definition strings_Fields :: "string \<Rightarrow> string list" where
  "strings_Fields s = fields_of [] (runes s)"

definition ascii_lower :: "char \<Rightarrow> char" where
  "ascii_lower c = (if 65 \<le> byte_of c \<and> byte_of c \<le> 90 then char_of (byte_of c + 32) else c)"

definition lower_rune :: "(rune \<Rightarrow> rune) \<Rightarrow> rune \<Rightarrow> rune" where
  "lower_rune ulower r =
     (if r < 128 then (if 65 \<le> r \<and> r \<le> 90 then r + 32 else r) else ulower r)"

text \<open>\<open>strings.ToLower\<close>: the ASCII path byte by byte, otherwise rune by rune.\<close>

definition strings_ToLower :: "(rune \<Rightarrow> rune) \<Rightarrow> string \<Rightarrow> string" where
  "strings_ToLower ulower s =
     (if is_ascii s then map ascii_lower s
      else concat (map (\<lambda>(r, _). encode_rune (lower_rune ulower r)) (runes s)))"

definition strings_HasPrefix :: "string \<Rightarrow> string \<Rightarrow> bool" where
  "strings_HasPrefix s p \<longleftrightarrow> take (length p) s = p"

definition strings_TrimPrefix :: "string \<Rightarrow> string \<Rightarrow> string" where
  "strings_TrimPrefix s p = (if strings_HasPrefix s p then drop (length p) s else s)"

definition strings_Contains :: "string \<Rightarrow> string \<Rightarrow> bool" where
  "strings_Contains s sub \<longleftrightarrow> list_ex (\<lambda>i. take (length sub) (drop i s) = sub) [0..<Suc (length s)]"

fun strings_Join :: "string list \<Rightarrow> string \<Rightarrow> string" where
  "strings_Join [] sep = []"
| "strings_Join [x] sep = x"
| "strings_Join (x # y # xs) sep = x @ sep @ strings_Join (y # xs) sep"

lemma Contains_singleton: "strings_Contains s [c] \<longleftrightarrow> c \<in> set s"
proof -
  have "(\<exists>i\<le>length s. take 1 (drop i s) = [c]) \<longleftrightarrow> (\<exists>i<length s. s ! i = c)"
  proof
    assume "\<exists>i\<le>length s. take 1 (drop i s) = [c]"
    then obtain i where i: "i \<le> length s" "take 1 (drop i s) = [c]" by blast
    then have "i < length s" by (cases "i < length s") auto
    with i show "\<exists>i<length s. s ! i = c" by (auto simp: take_Suc hd_drop_conv_nth)
  next
    assume "\<exists>i<length s. s ! i = c"
    then show "\<exists>i\<le>length s. take 1 (drop i s) = [c]"
      by (auto simp: take_Suc hd_drop_conv_nth intro: less_imp_le)
  qed
  then show ?thesis
    by (simp add: strings_Contains_def list_ex_iff in_set_conv_nth less_Suc_eq_le Bex_def del: upt_Suc)
qed

subsection \<open>Decimal output\<close>

definition digit_char :: "int \<Rightarrow> char" where
  "digit_char d = char_of (48 + d)"

function int_digits :: "int \<Rightarrow> string" where
  "int_digits n = (if n < 10 then [digit_char n] else int_digits (n div 10) @ [digit_char (n mod 10)])"
  by pat_completeness auto
termination
  by (relation "measure nat") auto

declare int_digits.simps [simp del]

text \<open>\<open>strconv.Itoa\<close> and the verb \<open>%d\<close>.\<close>

definition strconv_Itoa :: "int \<Rightarrow> string" where
  "strconv_Itoa i = (if i < 0 then CHR ''-'' # int_digits (- i) else int_digits i)"

subsection \<open>Integer input\<close>

datatype num_err = ErrSyntax | ErrRange

fun digit_val :: "char \<Rightarrow> int option" where
  "digit_val c =
     (let b = byte_of c in
      if 48 \<le> b \<and> b \<le> 57 then Some (b - 48)
      else if 97 \<le> b \<and> b \<le> 122 then Some (b - 87)
      else if 65 \<le> b \<and> b \<le> 90 then Some (b - 55)
      else None)"

text \<open>
  The digit loop of \<open>strconv.ParseUint\<close> for 64 bits: the first bad digit or the first overflow
  ends it. \<open>us\<close> says that underscores are skipped (base argument 0).
\<close>

fun uint_loop :: "int \<Rightarrow> bool \<Rightarrow> int \<Rightarrow> string \<Rightarrow> num_err + int" where
  "uint_loop base us n [] = Inr n"
| "uint_loop base us n (c # cs) =
     (if us \<and> c = CHR ''_'' then uint_loop base us n cs
      else case digit_val c of
        None \<Rightarrow> Inl ErrSyntax
      | Some d \<Rightarrow> if base \<le> d then Inl ErrSyntax
                  else if 2 ^ 64 \<le> n * base + d then Inl ErrRange
                  else uint_loop base us (n * base + d) cs)"

text \<open>The sign and the bounds of \<open>strconv.ParseInt\<close>; on a range error the value is clamped.\<close>

definition signed_result :: "bool \<Rightarrow> num_err + int \<Rightarrow> int \<times> num_err option" where
  "signed_result neg r = (case r of
     Inl ErrSyntax \<Rightarrow> (0, Some ErrSyntax)
   | Inl ErrRange \<Rightarrow> (if neg then - (2 ^ 63) else 2 ^ 63 - 1, Some ErrRange)
   | Inr n \<Rightarrow>
       if \<not> neg \<and> 2 ^ 63 \<le> n then (2 ^ 63 - 1, Some ErrRange)
       else if neg \<and> 2 ^ 63 < n then (- (2 ^ 63), Some ErrRange)
       else (if neg then - n else n, None))"

definition split_sign :: "string \<Rightarrow> bool \<times> string" where
  "split_sign s = (case s of
     c # cs \<Rightarrow> if c = CHR ''+'' then (False, cs) else if c = CHR ''-'' then (True, cs) else (False, s)
   | [] \<Rightarrow> (False, s))"

definition strconv_Atoi :: "string \<Rightarrow> int \<times> num_err option" where
  "strconv_Atoi s =
     (case split_sign s of (neg, ds) \<Rightarrow>
        if ds = [] then (0, Some ErrSyntax) else signed_result neg (uint_loop 10 False 0 ds))"

text \<open>\<open>underscoreOK\<close>: underscores only between digits, a base prefix counting as a digit.\<close>

datatype saw = SawStart | SawDigit | SawUnder | SawOther

fun underscore_scan :: "bool \<Rightarrow> saw \<Rightarrow> string \<Rightarrow> bool" where
  "underscore_scan hex s [] = (s \<noteq> SawUnder)"
| "underscore_scan hex s (c # cs) =
     (if (48 \<le> byte_of c \<and> byte_of c \<le> 57) \<or>
         (hex \<and> ((97 \<le> byte_of c \<and> byte_of c \<le> 102) \<or> (65 \<le> byte_of c \<and> byte_of c \<le> 70)))
      then underscore_scan hex SawDigit cs
      else if c = CHR ''_'' then (if s \<noteq> SawDigit then False else underscore_scan hex SawUnder cs)
      else if s = SawUnder then False
      else underscore_scan hex SawOther cs)"

definition base_letter :: "char \<Rightarrow> int option" where
  "base_letter c =
     (if ascii_lower c = CHR ''b'' then Some 2 else if ascii_lower c = CHR ''o'' then Some 8
      else if ascii_lower c = CHR ''x'' then Some 16 else None)"

definition underscore_ok :: "string \<Rightarrow> bool" where
  "underscore_ok s = (case s of
     a # b # rest \<Rightarrow>
       if a = CHR ''0'' \<and> base_letter b \<noteq> None
       then underscore_scan (base_letter b = Some 16) SawDigit rest
       else underscore_scan False SawStart s
   | _ \<Rightarrow> underscore_scan False SawStart s)"

text \<open>\<open>strconv.ParseInt(s, 0, 64)\<close>.\<close>

definition parse_int0 :: "string \<Rightarrow> int \<times> num_err option" where
  "parse_int0 s =
     (case split_sign s of (neg, ds) \<Rightarrow>
        if ds = [] then (0, Some ErrSyntax)
        else
          let (base, body) =
            (case ds of
               a # rest \<Rightarrow>
                 if a = CHR ''0'' then
                   (case rest of
                      b # rest' \<Rightarrow>
                        if 3 \<le> length ds \<and> base_letter b \<noteq> None then (the (base_letter b), rest')
                        else (8, rest)
                    | [] \<Rightarrow> (8, rest))
                 else (10, ds)
             | [] \<Rightarrow> (10, ds));
            r = uint_loop base True 0 body
          in case r of
               Inr n \<Rightarrow> if CHR ''_'' \<in> set body \<and> \<not> underscore_ok ds then (0, Some ErrSyntax)
                        else signed_result neg r
             | Inl _ \<Rightarrow> signed_result neg r)"

subsection \<open>fmt.Sscan into an integer\<close>

datatype scan_err = UnexpectedEnd | ExpectedInteger | ScanNum num_err

definition in_digits :: "string \<Rightarrow> char \<Rightarrow> bool" where
  "in_digits ds c \<longleftrightarrow> c \<in> set ds"

definition scan_digits :: "int \<Rightarrow> string" where
  "scan_digits base =
     (if base = 2 then ''01_'' else if base = 8 then ''01234567_''
      else if base = 16 then ''0123456789aAbBcCdDeEfF_'' else ''0123456789_'')"

text \<open>
  Leading white space is skipped, then an optional sign, then an optional base prefix, then as
  many digits of that base as there are; what follows the token is not looked at.
\<close>

definition skip_space :: "string \<Rightarrow> string" where
  "skip_space s = concat (map snd (dropWhile (\<lambda>(r, _). is_space r) (runes s)))"

definition scan_token :: "string \<Rightarrow> scan_err + string" where
  "scan_token s =
     (case s of [] \<Rightarrow> Inl UnexpectedEnd
      | c # cs \<Rightarrow>
        let (sgn, rest) = (if c = CHR ''+'' \<or> c = CHR ''-'' then ([c], cs) else ([], s)) in
        (case rest of
           [] \<Rightarrow> Inl UnexpectedEnd
         | a # rest1 \<Rightarrow>
             if a = CHR ''0'' then
               (case rest1 of
                  b # rest2 \<Rightarrow>
                    (case base_letter b of
                       Some base \<Rightarrow> Inr (sgn @ [a, b] @ takeWhile (in_digits (scan_digits base)) rest2)
                     | None \<Rightarrow> Inr (sgn @ [a] @ takeWhile (in_digits (scan_digits 8)) rest1))
                | [] \<Rightarrow> Inr (sgn @ [a]))
             else if in_digits (scan_digits 10) a
                  then Inr (sgn @ takeWhile (in_digits (scan_digits 10)) rest)
                  else Inl ExpectedInteger))"

definition fmt_Sscan_int :: "string \<Rightarrow> scan_err + int" where
  "fmt_Sscan_int s = (case scan_token (skip_space s) of
     Inl e \<Rightarrow> Inl e
   | Inr tok \<Rightarrow> (case parse_int0 tok of
        (v, None) \<Rightarrow> Inr v
      | (_, Some e) \<Rightarrow> Inl (ScanNum e)))"

end
