(* ===== verification/Go_Time.thy ===== *)
theory Go_Time
  imports Go_Strings
begin

section \<open>Formatting instants (\<open>time.Time.Format\<close>)\<close>

text \<open>
  The program formats instants with the layout \<open>2006-01-02 15:04:05\<close>. The civil date is computed
  from the day number in the proleptic Gregorian calendar; the offset of the process's time zone
  at an instant, in seconds east of UTC, is a parameter \<open>tz\<close>.
\<close>

text \<open>Year, month and day of a day number; day 0 is 1 January of year 1.\<close>

definition civil_date :: "int \<Rightarrow> int \<times> int \<times> int" where
  "civil_date days =
     (let z = days + 306; era = z div 146097; doe = z mod 146097;
          yoe = (doe - doe div 1460 + doe div 36524 - doe div 146096) div 365;
          doy = doe - (365 * yoe + yoe div 4 - yoe div 100);
          mp = (5 * doy + 2) div 153;
          d = doy - (153 * mp + 2) div 5 + 1;
          m = (if mp < 10 then mp + 3 else mp - 9)
      in (yoe + era * 400 + (if m \<le> 2 then 1 else 0), m, d))"

definition pad_int :: "nat \<Rightarrow> int \<Rightarrow> string" where
  "pad_int n i = (let ds = int_digits (abs i)
     in (if i < 0 then ''-'' else '''') @ replicate (n - length ds) CHR ''0'' @ ds)"

definition Time_Format :: "(Time \<Rightarrow> int) \<Rightarrow> Time \<Rightarrow> string" where
  "Time_Format tz t =
     (let secs = t div 1000000000 + tz t; day = secs div 86400; sod = secs mod 86400
      in case civil_date day of (y, m, d) \<Rightarrow>
        pad_int 4 y @ ''-'' @ pad_int 2 m @ ''-'' @ pad_int 2 d @ '' '' @
        pad_int 2 (sod div 3600) @ '':'' @ pad_int 2 (sod div 60 mod 60) @ '':'' @ pad_int 2 (sod mod 60))"

subsection \<open>\<open>Duration.Minutes\<close>\<close>

text \<open>
  A finite \<open>float64\<close> is the rational number it denotes. Every result of an operation is rounded
  to 53 significant bits, ties to even; the values here stay far from the subnormal and the
  infinite range (between 1/60000000000 and 2^28 in absolute value, or zero).
\<close>

fun bits :: "nat \<Rightarrow> int \<Rightarrow> int" where
  "bits 0 n = 0"
| "bits (Suc k) n = (if n \<le> 0 then 0 else 1 + bits k (n div 2))"

text \<open>The binary exponent of \<open>p/q\<close> for positive \<open>p\<close> and \<open>q\<close> below \<open>2^128\<close>.\<close>

definition ilog2 :: "int \<Rightarrow> int \<Rightarrow> int" where
  "ilog2 p q = (let a = bits 128 p - bits 128 q in
     if (if 0 \<le> a then q * 2 ^ nat a \<le> p else q \<le> p * 2 ^ nat (- a)) then a else a - 1)"

definition round_even :: "int \<Rightarrow> int \<Rightarrow> int" where
  "round_even p q =
     (let n = p div q; r = p mod q in
      if 2 * r < q \<or> (2 * r = q \<and> even n) then n else n + 1)"

text \<open>The 53-bit rounding of \<open>p/q\<close> with \<open>q > 0\<close>, as a fraction.\<close>

definition f64_round :: "int \<times> int \<Rightarrow> int \<times> int" where
  "f64_round pq = (case pq of (p, q) \<Rightarrow>
     if p = 0 then (0, 1)
     else let s = 52 - ilog2 (abs p) q;
              m = (if 0 \<le> s then round_even (abs p * 2 ^ nat s) q else round_even (abs p) (q * 2 ^ nat (- s)))
          in if 0 \<le> s then (sgn p * m, 2 ^ nat s) else (sgn p * m * 2 ^ nat (- s), 1))"

definition f64_add :: "int \<times> int \<Rightarrow> int \<times> int \<Rightarrow> int \<times> int" where
  "f64_add x y = (case x of (a, b) \<Rightarrow> case y of (c, d) \<Rightarrow> f64_round (a * d + c * b, b * d))"

text \<open>\<open>d / Minute\<close> and \<open>d % Minute\<close> truncate towards zero.\<close>

definition go_quot :: "int \<Rightarrow> int \<Rightarrow> int" where
  "go_quot a b = sgn a * (abs a div b)"

definition go_rem :: "int \<Rightarrow> int \<Rightarrow> int" where
  "go_rem a b = a - b * go_quot a b"

definition Duration_Minutes :: "Duration \<Rightarrow> int \<times> int" where
  "Duration_Minutes d =
     (let m = go_quot (sint d) 60000000000; nsec = go_rem (sint d) 60000000000
      in f64_add (m, 1) (f64_round (nsec, 60000000000)))"

text \<open>\<open>int(f)\<close> of a float.\<close>

definition f64_int :: "int \<times> int \<Rightarrow> int" where
  "f64_int f = (case f of (p, q) \<Rightarrow> go_quot p q)"

lemma bits_nonneg: "0 \<le> bits k n"
  by (induction k n rule: bits.induct) simp_all

lemma bits_upper: "0 \<le> n \<Longrightarrow> n < 2 ^ k \<Longrightarrow> bits k n \<le> int j \<longleftrightarrow> n < 2 ^ j"
proof (induction k arbitrary: n j)
  case 0
  then show ?case by (simp add: order_less_le_trans)
next
  case (Suc k)
  show ?case
  proof (cases "n = 0")
    case False
    then have "bits (Suc k) n = 1 + bits k (n div 2)" using Suc.prems by simp
    moreover have "n div 2 < 2 ^ k" using Suc.prems by simp
    ultimately show ?thesis
      using Suc.IH [of "n div 2" "j - 1"] Suc.prems False bits_nonneg [of k "n div 2"] by (cases j) auto
  qed simp
qed


lemma ilog2_bounds:
  assumes "0 < k" and "k < 2 ^ 53"
  shows "ilog2 k 1 \<le> 52"
proof -
  have "bits 128 k \<le> int 53" using assms bits_upper [of k 128 53] by simp
  moreover have "bits 128 1 = 1" by code_simp
  ultimately show ?thesis by (simp add: ilog2_def Let_def)
qed

lemma f64_round_int:
  assumes "0 \<le> k" and "k < 2 ^ 53"
  shows "f64_int (f64_round (k, 1)) = k"
proof (cases "k = 0")
  case True
  then show ?thesis by (simp add: f64_round_def f64_int_def go_quot_def)
next
  case False
  define s where "s = nat (52 - ilog2 k 1)"
  have "0 \<le> 52 - ilog2 k 1" using ilog2_bounds [of k] assms False by simp
  then have "f64_round (k, 1) = (k * 2 ^ s, 2 ^ s)"
    using assms False by (simp add: f64_round_def round_even_def Let_def s_def)
  then show ?thesis using assms False by (simp add: f64_int_def go_quot_def sgn_mult abs_mult)
qed

lemma sint_minutes:
  assumes "0 \<le> k" and "k \<le> 153722867"
  shows "sint (of_int k * time_Minute) = k * 60000000000"
proof -
  have "of_int k * time_Minute = (of_int (k * 60000000000) :: 64 word)"
    by (simp add: time_Minute_def)
  moreover have "sint (of_int (k * 60000000000) :: 64 word) = k * 60000000000"
    using assms by (intro sint64_of_int) auto
  ultimately show ?thesis by simp
qed

lemma Minutes_exact:
  assumes "0 \<le> k" and "k \<le> 153722867"
  shows "f64_int (Duration_Minutes (of_int k * time_Minute)) = k"
proof -
  have "go_quot (k * 60000000000) 60000000000 = k"
    using assms by (cases "k = 0") (simp_all add: go_quot_def abs_mult sgn_mult)
  then show ?thesis
    using assms f64_round_int [of k]
    by (simp add: Duration_Minutes_def sint_minutes go_rem_def f64_add_def f64_round_def [of "(0, 60000000000)"])
qed

end
