(* ===== verification/Subscribers.thy ===== *)
theory Subscribers
  imports Hub_Properties Go_Time
begin

section \<open>The built-in subscribers and the goroutines (internal/subscriber/subscriber.go)\<close>

text \<open>
  \<open>RegisterAll\<close> subscribes one handler per event type. A handler is a value of \<open>sub_handler\<close>,
  its body is \<open>sub_run\<close>; \<open>emb\<close> embeds these handlers into the handler type of the hub, so that
  other code can subscribe further handlers. The literals are the program's UTF-8 texts.

  The goroutines started by \<open>Emit\<close> run in any order and interleave with every other operation:
  \<open>sys_step\<close> is the step relation of the whole chat service.
\<close>

datatype sub_handler =
    OnMessageLocal | OnMessageRemote | OnUserJoined | OnUserLeave | OnSystemNotice
  | OnFileTransfer | OnHeartbeat | OnMessageDirect

definition txt_system :: string where "txt_system = ''['' @ utf8 [0xE7, 0xB3, 0xBB, 0xE7, 0xBB, 0x9F] @ ''] ''"
definition txt_joined :: string where "txt_joined = '' '' @ utf8 [0xE5, 0x8A, 0xA0, 0xE5, 0x85, 0xA5]"
definition txt_left :: string where "txt_left = '' '' @ utf8 [0xE7, 0xA6, 0xBB, 0xE5, 0xBC, 0x80]"
definition txt_notice :: string where "txt_notice = ''['' @ utf8 [0xE7, 0xB3, 0xBB, 0xE7, 0xBB, 0x9F, 0xE9, 0x80, 0x9A, 0xE7, 0x9F, 0xA5] @ ''][''"
definition txt_file :: string where "txt_file = ''['' @ utf8 [0xE6, 0x96, 0x87, 0xE4, 0xBB, 0xB6] @ ''] ''"
definition txt_to_all :: string where "txt_to_all = '' -> '' @ utf8 [0xE6, 0x89, 0x80, 0xE6, 0x9C, 0x89, 0xE4, 0xBA, 0xBA] @ '': ''"
definition txt_direct :: string where "txt_direct = ''['' @ utf8 [0xE7, 0xA7, 0x81, 0xE4, 0xBF, 0xA1] @ ''] ''"
definition txt_offline :: string where "txt_offline = ''['' @ utf8 [0xE7, 0xB3, 0xBB, 0xE7, 0xBB, 0x9F] @ ''] '' @ utf8 [0xE7, 0x94, 0xA8, 0xE6, 0x88, 0xB7, 0xE4, 0xB8, 0x8D, 0xE5, 0x9C, 0xA8, 0xE7, 0xBA, 0xBF, 0xE6, 0x88, 0x96, 0xE4, 0xB8, 0x8D, 0xE5, 0xAD, 0x98, 0xE5, 0x9C, 0xA8] @ '': ''"

definition local_line :: "(Time \<Rightarrow> int) \<Rightarrow> Time \<Rightarrow> string \<Rightarrow> string \<Rightarrow> string" where
  "local_line tz when from content = ''['' @ Time_Format tz when @ ''] '' @ from @ '': '' @ content"

definition file_line :: "string \<Rightarrow> string \<Rightarrow> string \<Rightarrow> string" where
  "file_line from target name =
     (if target = [] \<or> target = ''*'' then txt_file @ from @ txt_to_all @ name
      else txt_file @ from @ '' -> '' @ target @ '': '' @ name)"

text \<open>The handler bodies; the type assertion \<open>e.(*T)\<close> panics on any other event.\<close>

definition sub_run :: "(Time \<Rightarrow> int) \<Rightarrow> sub_handler \<Rightarrow> Event \<Rightarrow> (('h, 'z) world_scheme, unit) go" where
  "sub_run tz hdl e = (case hdl of
     OnMessageLocal \<Rightarrow> (case e of
         MessageEvent when from content _ \<Rightarrow>
           thenG (Hub_SendToAll (local_line tz when from content)) (IncMessage ''local'')
       | _ \<Rightarrow> panicG TypeAssertion)
   | OnMessageRemote \<Rightarrow> IncMessage ''remote''
   | OnUserJoined \<Rightarrow> (case e of
         UserEvent _ user _ \<Rightarrow> withClient user (\<lambda>c. Hub_SendToAll (txt_system @ cl_Name c @ txt_joined))
       | _ \<Rightarrow> panicG TypeAssertion)
   | OnUserLeave \<Rightarrow> (case e of
         UserEvent _ user _ \<Rightarrow> withClient user (\<lambda>c. Hub_SendToAll (txt_system @ cl_Name c @ txt_left))
       | _ \<Rightarrow> panicG TypeAssertion)
   | OnSystemNotice \<Rightarrow> (case e of
         SystemNoticeEvent _ level content \<Rightarrow> Hub_SendToAll (txt_notice @ level @ ''] '' @ content)
       | _ \<Rightarrow> panicG TypeAssertion)
   | OnFileTransfer \<Rightarrow> (case e of
         FileTransferEvent _ from target name _ _ _ \<Rightarrow> Hub_SendToAll (file_line from target name)
       | _ \<Rightarrow> panicG TypeAssertion)
   | OnHeartbeat \<Rightarrow> IncHeartbeat
   | OnMessageDirect \<Rightarrow> (case e of
         DirectMessageEvent _ from dest content \<Rightarrow>
           bindG (Hub_SendToUser dest (txt_direct @ from @ '': '' @ content)) (\<lambda>sent.
             thenG (if \<not> sent then bindG (Hub_SendToUser from (txt_offline @ dest)) (\<lambda>_. ret ()) else ret ())
               IncDirect)
       | _ \<Rightarrow> panicG TypeAssertion))"

definition registerMessage :: "(sub_handler \<Rightarrow> 'h) \<Rightarrow> (('h, 'z) world_scheme, unit) go" where
  "registerMessage emb = thenG (Hub_Subscribe EventMessageLocal (emb OnMessageLocal))
     (Hub_Subscribe EventMessageRemote (emb OnMessageRemote))"

definition registerUserLifecycle :: "(sub_handler \<Rightarrow> 'h) \<Rightarrow> (('h, 'z) world_scheme, unit) go" where
  "registerUserLifecycle emb = thenG (Hub_Subscribe EventUserJoined (emb OnUserJoined))
     (Hub_Subscribe EventUserLeave (emb OnUserLeave))"

definition registerSystem :: "(sub_handler \<Rightarrow> 'h) \<Rightarrow> (('h, 'z) world_scheme, unit) go" where
  "registerSystem emb = Hub_Subscribe EventSystemNotice (emb OnSystemNotice)"

definition registerFile :: "(sub_handler \<Rightarrow> 'h) \<Rightarrow> (('h, 'z) world_scheme, unit) go" where
  "registerFile emb = Hub_Subscribe EventFileTransfer (emb OnFileTransfer)"

definition registerHeartbeat :: "(sub_handler \<Rightarrow> 'h) \<Rightarrow> (('h, 'z) world_scheme, unit) go" where
  "registerHeartbeat emb = Hub_Subscribe EventHeartbeat (emb OnHeartbeat)"

definition registerDirect :: "(sub_handler \<Rightarrow> 'h) \<Rightarrow> (('h, 'z) world_scheme, unit) go" where
  "registerDirect emb = Hub_Subscribe EventMessageDirect (emb OnMessageDirect)"

definition RegisterAll :: "(sub_handler \<Rightarrow> 'h) \<Rightarrow> (('h, 'z) world_scheme, unit) go" where
  "RegisterAll emb = thenG (registerMessage emb) (thenG (registerUserLifecycle emb)
     (thenG (registerSystem emb) (thenG (registerFile emb)
       (thenG (registerHeartbeat emb) (registerDirect emb)))))"

subsection \<open>The chat service as a step relation\<close>

definition run_goroutine ::
  "('h \<Rightarrow> Event \<Rightarrow> (('h, 'z) world_scheme, unit) go) \<Rightarrow> nat \<Rightarrow> ('h, 'z) world_scheme \<Rightarrow> ('h, 'z) world_scheme" where
  "run_goroutine run i w =
     (if i < length (w_go w) then
        (case w_go w ! i of (f, e) \<Rightarrow>
           snd (recoverG (run f e) (w\<lparr>w_go := take i (w_go w) @ drop (Suc i) (w_go w)\<rparr>)))
      else w)"

text \<open>
  The steps of the service. A client is registered while it is open and under an id that no registered
  client has: \<open>RegisterClient\<close> checks neither, and its callers, which make a client with a new id and
  register it once, are relied on for it.
\<close>

inductive sys_step ::
  "('h \<Rightarrow> Event \<Rightarrow> (('h, 'z) world_scheme, unit) go) \<Rightarrow> ('h, 'z) world_scheme \<Rightarrow> ('h, 'z) world_scheme \<Rightarrow> bool"
  for run where
  goroutine: "i < length (w_go w) \<Longrightarrow> sys_step run w (run_goroutine run i w)"
| connect: "w_heap w r = None \<Longrightarrow>
     sys_step run w (w\<lparr>w_heap := (w_heap w)(r \<mapsto> NewClientWithBuffer cid n)\<rparr>)"
| rename: "w_heap w r = Some c \<Longrightarrow>
     sys_step run w (w\<lparr>w_heap := (w_heap w)(r \<mapsto> c\<lparr>cl_Name := nm\<rparr>)\<rparr>)"
| register: "w_heap w r = Some c \<Longrightarrow> is_open c \<Longrightarrow> Load (hub_clients (w_hub w)) (cl_ID c) = None \<Longrightarrow>
     sys_step run w (snd (Hub_RegisterClient now r w))"
| unregister: "sys_step run w (snd (Hub_UnregisterClient now r w))"
| kick: "sys_step run w (snd (Hub_KickByName now name w))"
| send: "sys_step run w (snd (Client_Send r m w))"
| receive: "sys_step run w (snd (Client_Receive r w))"
| emit: "sys_step run w (snd (Hub_Emit e w))"
| broadcast_local: "sys_step run w (snd (Hub_BroadcastLocal now from content w))"
| broadcast_remote: "sys_step run w (snd (Hub_BroadcastRemote from content t w))"
| ban: "sys_step run w (snd (Hub_BanFor now name d w))"
| is_banned_read: "sys_step run w (snd (IsBanned_read now name w))"
| is_banned_clean: "sys_step run w (snd (IsBanned_clean name w))"
| subscribe: "sys_step run w (snd (Hub_Subscribe t f w))"
| cancel: "sys_step run w (snd (Hub_cancel t hid w))"

inductive_cases sys_step_elim: "sys_step run w w'"

subsection \<open>Handlers keep the invariant\<close>

lemma sys_inv_thenG [inv_rules]:
  assumes "sys_inv (snd (m w))" and "\<And>w'. sys_inv w' \<Longrightarrow> sys_inv (snd (n w'))"
  shows "sys_inv (snd (thenG m n w))"
  by (rule thenG_preserves [where P = sys_inv and m = m and n = n and w = w, OF assms])

lemma sys_inv_bindG [inv_rules]:
  assumes "sys_inv (snd (m w))" and "\<And>x w'. sys_inv w' \<Longrightarrow> sys_inv (snd (f x w'))"
  shows "sys_inv (snd (bindG m f w))"
  by (rule bindG_preserves [where P = sys_inv and m = m and f = f and w = w, OF assms(1)]) (rule assms(2))

lemma sys_inv_observe [inv_rules]:
  "sys_inv w \<Longrightarrow> online_delta mt = 0 \<Longrightarrow> sys_inv (snd (observe_call mt w))"
  by (rule sys_inv_frame [where w = w]) (auto simp: observe_call_def sys_inv_def hub_ok_def)

lemma hub_ok_Receive [inv_rules]:
  assumes "hub_ok w"
  shows "hub_ok (snd (Client_Receive r w))"
proof (cases "w_heap w r")
  case None
  then show ?thesis using assms by (simp add: Client_Receive_def)
next
  case (Some c)
  have c: "client_ok c" using assms Some hub_okD(2) heap_okD by blast
  show ?thesis
  proof (cases "ch_buf (cl_out c)")
    case Nil
    then show ?thesis using assms Some by (simp add: go_simps select_recv_def)
  next
    case (Cons m ms)
    let ?c = "c\<lparr>cl_out := (cl_out c)\<lparr>ch_buf := ms\<rparr>\<rparr>"
    have "client_ok ?c" using c Cons by (simp add: client_ok_def chan_ok_def)
    then have "hub_ok (w\<lparr>w_heap := (w_heap w)(r \<mapsto> ?c)\<rparr>)"
      using Some hub_okD(2) [OF assms] by (intro hub_ok_heap_only [OF assms]) (auto simp: heap_ok_upd)
    then show ?thesis using Some Cons by (simp add: go_simps select_recv_def)
  qed
qed

lemma receive_keeps:
  "w_hub (snd (Client_Receive r w)) = w_hub w" "w_metrics (snd (Client_Receive r w)) = w_metrics w"
  by (simp_all add: go_simps select_recv_def split: option.split list.split)

lemma sys_inv_Receive [inv_rules]: "sys_inv w \<Longrightarrow> sys_inv (snd (Client_Receive r w))"
  by (rule sys_inv_frame [where w = w]) (simp_all add: receive_keeps hub_ok_Receive sys_invD)

lemma sys_inv_rename [inv_rules]:
  assumes "sys_inv w" and "w_heap w r = Some c"
  shows "sys_inv (w\<lparr>w_heap := (w_heap w)(r \<mapsto> c\<lparr>cl_Name := nm\<rparr>)\<rparr>)"
proof -
  have ok: "hub_ok w" using assms(1) by (rule sys_invD)
  have "client_ok (c\<lparr>cl_Name := nm\<rparr>)" using heap_okD [OF hub_okD(2) [OF ok] assms(2)] by (simp add: client_ok_def)
  then have "hub_ok (w\<lparr>w_heap := (w_heap w)(r \<mapsto> c\<lparr>cl_Name := nm\<rparr>)\<rparr>)"
    using hub_okD(2) [OF ok] assms(2) by (intro hub_ok_heap_only [OF ok]) (auto intro: heap_ok_upd)
  with assms(1) show ?thesis by (simp add: sys_inv_def gauge_ok_def)
qed

lemma sub_run_inv: "sys_inv w \<Longrightarrow> sys_inv (snd (sub_run tz f e w))"
  unfolding sub_run_def IncMessage_def IncHeartbeat_def IncDirect_def
  by (cases f; cases e)
    (auto intro!: sys_inv_thenG sys_inv_bindG sys_inv_SendToAll sys_inv_SendToUser sys_inv_withClient sys_inv_observe)

text \<open>
  The contract of a handler table: running a handler keeps the invariant, and the service starts
  in it. Whatever the handlers are, the whole service then keeps it in every interleaving.
\<close>

locale handler_runtime =
  fixes run :: "'h \<Rightarrow> Event \<Rightarrow> (('h, 'z) world_scheme, unit) go"
    and start :: "('h, 'z) world_scheme \<Rightarrow> bool"
  assumes run_keeps: "sys_inv w \<Longrightarrow> sys_inv (snd (run f e w))"
    and start_ok: "start w \<Longrightarrow> sys_inv w"
begin

lemma run_goroutine_inv: "sys_inv w \<Longrightarrow> sys_inv (run_goroutine run i w)"
proof -
  assume inv: "sys_inv w"
  have "sys_inv (w\<lparr>w_go := g\<rparr>)" for g
    using inv by (simp add: sys_inv_def hub_ok_def gauge_ok_def)
  then show ?thesis using inv
    by (simp add: run_goroutine_def run_keeps split: prod.splits)
qed

lemma sys_step_inv: "sys_step run w w' \<Longrightarrow> sys_inv w \<Longrightarrow> sys_inv w'"
proof (induction rule: sys_step.induct)
  case (connect w r cid n)
  then show ?case
    by (auto simp: sys_inv_def gauge_ok_def intro!: hub_ok_heap_only [where w = w] heap_ok_upd dest: hub_okD)
next
  case (rename w r c nm)
  then show ?case by (intro sys_inv_rename)
next
  case (is_banned_read w now name)
  then show ?case by (simp add: IsBanned_read_def bindG_app)
next
  case (is_banned_clean w name)
  then show ?case
    unfolding IsBanned_clean_def by (intro sys_inv_then_ret sys_inv_modifyHub) auto
qed (auto simp: Hub_BroadcastLocal_def Hub_BroadcastRemote_def intro: run_goroutine_inv sys_inv_Register
    sys_inv_Unregister sys_inv_KickByName sys_inv_Send sys_inv_Receive sys_inv_Emit sys_inv_BanFor
    sys_inv_Subscribe sys_inv_cancel)

end

sublocale handler_runtime \<subseteq> service: event_system start "sys_step run" .

context handler_runtime
begin

lemma reachable_inv: "service.reachable w \<Longrightarrow> sys_inv w"
  by (erule service.reachable_invariant) (auto intro: sys_step_inv start_ok)

end

interpretation subs: handler_runtime "sub_run tz" "\<lambda>w. w = empty_world" for tz
  by unfold_locales (rule sub_run_inv, simp_all)

definition chat_reachable :: "(Time \<Rightarrow> int) \<Rightarrow> sub_handler world \<Rightarrow> bool" where
  "chat_reachable tz = event_system.reachable (\<lambda>w. w = empty_world) (sys_step (sub_run tz))"

subsection \<open>Handlers start no goroutines\<close>

lemma foldG_keeps:
  assumes "\<And>x b w. g (snd (f x b w)) = g w"
  shows "g (snd (foldG xs f b w)) = g w"
  by (rule foldG_preserves [where P = "\<lambda>w'. g w' = g w" and f = f and b = b and w = w and xs = xs])
    (simp_all add: assms)

lemma Range_keeps:
  assumes "\<And>r b w. g (snd (f r b w)) = g w"
  shows "g (snd (Hub_Range f b w)) = g w"
  unfolding Range_order Hub_RangeOver_def
  by (rule foldG_keeps [where g = g]) (simp add: bindG_app assms split: option.splits)

lemma send_keeps_go: "w_go (snd (Client_Send r m w)) = w_go w"
  by (auto simp: go_simps split: option.splits send_result.splits)

lemma SendToAll_keeps_go: "w_go (snd (Hub_SendToAll m w)) = w_go w"
  unfolding Hub_SendToAll_def by (rule Range_keeps [where g = w_go]) (simp add: send_all_body_def send_keeps_go)

lemma SendToUser_keeps_go: "w_go (snd (Hub_SendToUser u m w)) = w_go w"
  unfolding Hub_SendToUser_def
  by (rule Range_keeps [where g = w_go])
    (auto simp: send_user_body_def go_simps split: option.splits send_result.splits)

lemma thenG_keeps_go:
  assumes "w_go (snd (m w)) = w_go w" and "\<And>w'. w_go (snd (n w')) = w_go w'"
  shows "w_go (snd (thenG m n w)) = w_go w"
  by (rule thenG_preserves [where P = "\<lambda>w'. w_go w' = w_go w" and m = m and n = n and w = w])
    (simp_all add: assms)

lemma bindG_keeps_go:
  assumes "w_go (snd (m w)) = w_go w" and "\<And>x w'. w_go (snd (f x w')) = w_go w'"
  shows "w_go (snd (bindG m f w)) = w_go w"
  by (rule bindG_preserves [where P = "\<lambda>w'. w_go w' = w_go w" and m = m and f = f and w = w])
    (simp_all add: assms)

lemma withClient_keeps_go:
  assumes "\<And>c. w_go (snd (f c w)) = w_go w"
  shows "w_go (snd (withClient r f w)) = w_go w"
  by (cases "w_heap w r") (simp_all add: assms)

lemma sub_run_keeps_go: "w_go (snd (sub_run tz f e w)) = w_go w"
  unfolding sub_run_def
  by (cases f; cases e)
    (auto simp: observe_defs SendToAll_keeps_go SendToUser_keeps_go
      intro!: thenG_keeps_go bindG_keeps_go withClient_keeps_go)

fun run_schedule :: "(Time \<Rightarrow> int) \<Rightarrow> nat list \<Rightarrow> sub_handler world \<Rightarrow> sub_handler world" where
  "run_schedule tz [] w = w"
| "run_schedule tz (i # is) w = run_schedule tz is (run_goroutine (sub_run tz) (i mod length (w_go w)) w)"

lemma run_goroutine_go:
  "i < length (w_go w) \<Longrightarrow>
     w_go (run_goroutine (sub_run tz) i w) = take i (w_go w) @ drop (Suc i) (w_go w)"
  by (cases "w_go w ! i") (simp add: run_goroutine_def sub_run_keeps_go)

end
