(* ===== verification/Subscriber_Properties.thy ===== *)
theory Subscriber_Properties
  imports Subscribers
begin

section \<open>Properties of the chat service\<close>

text \<open>
  The invariant of every interleaving, that the goroutines drain, that the subscriptions cover
  every event, and what a broadcast and a direct message deliver end to end.
\<close>

subsection \<open>The invariant of every interleaving\<close>

lemma chat_reachable_inv: "chat_reachable tz w \<Longrightarrow> sys_inv w"
  unfolding chat_reachable_def by (rule subs.reachable_inv)

lemma chat_reachable_start: "chat_reachable tz empty_world"
  unfolding chat_reachable_def by (rule event_system.reach_start) simp

lemma chat_reachable_step: "chat_reachable tz w \<Longrightarrow> sys_step (sub_run tz) w w' \<Longrightarrow> chat_reachable tz w'"
  unfolding chat_reachable_def by (rule event_system.reach_step)

text \<open>The invariant in terms of the state.\<close>

lemma sys_inv_meaning:
  assumes inv: "sys_inv w"
  shows "online (w_metrics w) = int (length (hub_clients (w_hub w))) \<and>
    distinct (map fst (hub_clients (w_hub w))) \<and>
    (\<forall>(k, r) \<in> set (hub_clients (w_hub w)). \<exists>c. w_heap w r = Some c \<and> cl_ID c = k \<and> is_open c) \<and>
    (\<forall>r c. w_heap w r = Some c \<longrightarrow> length (ch_buf (cl_out c)) \<le> ch_cap (cl_out c))"
proof -
  note ok = sys_invD(1) [OF inv]
  have "\<exists>c. w_heap w r = Some c \<and> cl_ID c = k \<and> is_open c" if "(k, r) \<in> set (hub_clients (w_hub w))" for k r
    using hub_ok_entry [OF ok that] by metis
  moreover have "length (ch_buf (cl_out c)) \<le> ch_cap (cl_out c)" if "w_heap w r = Some c" for r c
    using heap_okD [OF hub_okD(2) [OF ok] that] by (simp add: client_ok_def chan_ok_def)
  ultimately show ?thesis
    using sys_invD(2) [OF inv] hub_okD(1) [OF ok] by (auto simp: gauge_ok_def syncmap_ok_def)
qed

text \<open>
  The chat service keeps its invariant in every interleaving. Starting from an empty
  service, after any sequence of steps (connecting, renaming, registering open clients with fresh
  ids, unregistering, kicking, sending, receiving, emitting, banning, subscribing, cancelling and
  running pending goroutines in any order) the online gauge equals the number of registered
  clients, every registered id belongs to exactly one client, that client exists, has that id and
  is not closed, and no client's buffer exceeds its capacity.
\<close>

theorem chat_service_invariant:
  assumes "chat_reachable tz w"
  shows "online (w_metrics w) = int (length (hub_clients (w_hub w))) \<and>
    distinct (map fst (hub_clients (w_hub w))) \<and>
    (\<forall>(k, r) \<in> set (hub_clients (w_hub w)). \<exists>c. w_heap w r = Some c \<and> cl_ID c = k \<and> is_open c) \<and>
    (\<forall>r c. w_heap w r = Some c \<longrightarrow> length (ch_buf (cl_out c)) \<le> ch_cap (cl_out c))"
  by (rule sys_inv_meaning [OF chat_reachable_inv [OF assms]])

definition joined_world :: "sub_handler world" where
  "joined_world = snd (Hub_RegisterClient 5 3
     (empty_world\<lparr>w_heap := [3 \<mapsto> NewClientWithBuffer ''a'' 2]\<rparr>))"

lemma joined_world_eq:
  "joined_world = \<lparr>w_metrics = [OnlineUsers 1], w_heap = [3 \<mapsto> NewClientWithBuffer ''a'' 2],
     w_hub = NewHub\<lparr>hub_clients := [(''a'', 3)]\<rparr>, w_go = []\<rparr>"
  by (simp add: joined_world_def Register_eq [where c = "NewClientWithBuffer ''a'' 2"] spawns_def
      empty_world_def NewHub_def Store_def)

lemma joined_world_reachable: "chat_reachable tz joined_world"
proof -
  let ?w = "(empty_world :: sub_handler world)\<lparr>w_heap := [3 \<mapsto> NewClientWithBuffer ''a'' 2]\<rparr>"
  have "sys_step (sub_run tz) empty_world ?w"
    using sys_step.connect [of "empty_world :: sub_handler world" 3 "sub_run tz" "''a''" 2]
    by (simp add: empty_world_def)
  with chat_reachable_start have w: "chat_reachable tz ?w" by (rule chat_reachable_step)
  have "sys_step (sub_run tz) ?w joined_world" unfolding joined_world_def
    by (rule sys_step.register [where c = "NewClientWithBuffer ''a'' 2"])
      (simp_all add: empty_world_def NewHub_def Load_def)
  with w show ?thesis by (rule chat_reachable_step)
qed

theorem chat_service_invariant_witness:
  "chat_reachable (\<lambda>_. 0) joined_world \<and> online (w_metrics joined_world) = 1"
  using chat_service_invariant [OF joined_world_reachable [of "\<lambda>_. 0"]] joined_world_reachable
  by (simp add: joined_world_eq NewHub_def)

subsection \<open>Draining\<close>

text \<open>
  The goroutines drain. Running a goroutine removes it and starts none, so every schedule
  with as many steps as there are pending goroutines, whatever goroutine it picks at each step,
  ends with none pending: every handler started by \<open>Emit\<close> runs exactly once.
\<close>

theorem goroutines_drain:
  assumes "length sched = length (w_go w)"
  shows "w_go (run_schedule tz sched w) = []"
  using assms
proof (induction sched arbitrary: w)
  case Nil
  then show ?case by simp
next
  case (Cons i sched)
  let ?j = "i mod length (w_go w)"
  have j: "?j < length (w_go w)" using Cons.prems by (intro mod_less_divisor) (cases "w_go w"; simp)
  then have "length (w_go (run_goroutine (sub_run tz) ?j w)) = length sched"
    using Cons.prems run_goroutine_go [OF j] by simp
  with Cons.IH show ?case by simp
qed

theorem goroutines_drain_witness:
  "length [4] = length (w_go (joined_world\<lparr>w_go := [(OnHeartbeat, HeartbeatEvent 1 ''a'' [])]\<rparr>)) \<and>
   w_go (run_schedule (\<lambda>_. 0) [4] (joined_world\<lparr>w_go := [(OnHeartbeat, HeartbeatEvent 1 ''a'' [])]\<rparr>)) = []"
proof -
  have h: "length [4::nat] = length (w_go (joined_world\<lparr>w_go := [(OnHeartbeat, HeartbeatEvent 1 ''a'' [])]\<rparr>))"
    by simp
  show ?thesis using h goroutines_drain [OF h] by simp
qed

subsection \<open>Coverage of the subscriptions\<close>

fun handler_for :: "Event \<Rightarrow> sub_handler" where
  "handler_for (UserEvent _ _ desc) = (if ''leave'' = desc then OnUserLeave else OnUserJoined)"
| "handler_for (MessageEvent _ _ _ lcl) = (if lcl then OnMessageLocal else OnMessageRemote)"
| "handler_for (DirectMessageEvent _ _ _ _) = OnMessageDirect"
| "handler_for (SystemNoticeEvent _ _ _) = OnSystemNotice"
| "handler_for (FileTransferEvent _ _ _ _ _ _ _) = OnFileTransfer"
| "handler_for (HeartbeatEvent _ _ _) = OnHeartbeat"

lemma spawns_Subscribe:
  "spawns e (snd (Hub_Subscribe t f w)) = spawns e w @ (if Event_Type e = t then [(f, e)] else [])"
  by (simp add: spawns_def hub_op_defs thenG_app bindG_app split: option.splits)

lemma Subscribe_returns: "Hub_Subscribe t f w = (Ret (), snd (Hub_Subscribe t f w))"
  by (simp add: hub_op_defs thenG_app bindG_app)

lemma snd_then_Subscribe: "snd (thenG (Hub_Subscribe t f) n w) = snd (n (snd (Hub_Subscribe t f w)))"
  by (subst thenG_app, subst Subscribe_returns) simp

lemma RegisterAll_spawns:
  "spawns e (snd (RegisterAll emb w)) = spawns e w @ [(emb (handler_for e), e)]"
  by (cases e)
    (simp_all add: RegisterAll_def registerMessage_def registerUserLifecycle_def registerSystem_def
      registerFile_def registerHeartbeat_def registerDirect_def thenG_def bindG_assoc
      snd_then_Subscribe [unfolded thenG_def] spawns_Subscribe event_type_defs)

text \<open>
  The subscriptions cover every event. After \<open>RegisterAll\<close> on a hub, every event starts,
  besides what was subscribed before, exactly one goroutine, and it runs the handler of the
  event's own type: its type assertion succeeds, so the handler returns without a panic in every
  state that satisfies the hub's invariant and holds the event's user.
\<close>

theorem RegisterAll_covers:
  assumes ok: "hub_ok v" and user: "\<forall>t r d. e = UserEvent t r d \<longrightarrow> w_heap v r \<noteq> None"
  shows "spawns e (snd (RegisterAll emb w)) = spawns e w @ [(emb (handler_for e), e)] \<and>
    fst (sub_run tz (handler_for e) e v) = Ret ()"
proof (intro conjI RegisterAll_spawns)
  show "fst (sub_run tz (handler_for e) e v) = Ret ()"
  proof (cases e)
    case (UserEvent t r d)
    with user obtain c where "w_heap v r = Some c" by auto
    with UserEvent show ?thesis by (simp add: sub_run_def SendToAll_eq [OF ok])
  qed (simp_all add: sub_run_def SendToAll_eq [OF ok] SendToUser_eq [OF ok] thenG_app bindG_app
      SendToUser_eq [OF deliver_ok [OF ok]] observe_defs)
qed

theorem RegisterAll_covers_witness:
  "hub_ok joined_world \<and> w_heap joined_world 3 \<noteq> None \<and>
   spawns (UserEvent 1 3 ''leave'') (snd (RegisterAll (\<lambda>x. x) joined_world)) = [(OnUserLeave, UserEvent 1 3 ''leave'')] \<and>
   fst (sub_run (\<lambda>_. 0) OnUserLeave (UserEvent 1 3 ''leave'') joined_world) = Ret ()"
proof -
  have ok: "hub_ok joined_world" by (rule sys_invD(1) [OF chat_reachable_inv [OF joined_world_reachable]])
  have user: "\<forall>t r d. UserEvent 1 3 ''leave'' = UserEvent t r d \<longrightarrow> w_heap joined_world r \<noteq> None"
    by (simp add: joined_world_eq)
  have none: "spawns e joined_world = []" for e by (simp add: spawns_def joined_world_eq NewHub_def)
  show ?thesis
    using ok user RegisterAll_covers [OF ok user, of "\<lambda>x. x" joined_world "\<lambda>_. 0"] none by simp
qed

subsection \<open>Messages end to end\<close>

lemma set_go_same: "w_go w = g \<Longrightarrow> w\<lparr>w_go := g\<rparr> = w"
  by (cases w) simp

definition subscribed :: "sub_handler world \<Rightarrow> bool" where
  "subscribed w \<longleftrightarrow> (\<forall>e. spawns e w = [(handler_for e, e)])"

definition chat_world :: "sub_handler world" where
  "chat_world = snd (RegisterAll (\<lambda>x. x) joined_world)"

lemma subscribed_chat: "subscribed chat_world"
  unfolding subscribed_def chat_world_def RegisterAll_spawns
  by (simp add: spawns_def joined_world_eq NewHub_def)

lemma Subscribe_frame:
  "w_go (snd (Hub_Subscribe t f w)) = w_go w" "w_heap (snd (Hub_Subscribe t f w)) = w_heap w"
  "hub_clients (w_hub (snd (Hub_Subscribe t f w))) = hub_clients (w_hub w)"
  by (simp_all add: hub_op_defs thenG_app bindG_app)

lemma RegisterAll_frame:
  "w_go (snd (RegisterAll emb w)) = w_go w" "w_heap (snd (RegisterAll emb w)) = w_heap w"
  "hub_clients (w_hub (snd (RegisterAll emb w))) = hub_clients (w_hub w)"
  by (simp_all add: RegisterAll_def registerMessage_def registerUserLifecycle_def registerSystem_def
      registerFile_def registerHeartbeat_def registerDirect_def thenG_def bindG_assoc
      snd_then_Subscribe [unfolded thenG_def] Subscribe_frame)

definition same_handlers :: "'h world \<Rightarrow> 'h world \<Rightarrow> bool" where
  "same_handlers v w \<longleftrightarrow> hub_handlers (w_hub v) = hub_handlers (w_hub w) \<and> hub_nextHID (w_hub v) = hub_nextHID (w_hub w)"

lemma Subscribe_handlers: "same_handlers v w \<Longrightarrow> same_handlers (snd (Hub_Subscribe t f v)) (snd (Hub_Subscribe t f w))"
  by (simp add: same_handlers_def hub_op_defs thenG_app bindG_app)

lemma RegisterAll_handlers: "same_handlers v w \<Longrightarrow> same_handlers (snd (RegisterAll emb v)) (snd (RegisterAll emb w))"
  unfolding RegisterAll_def registerMessage_def registerUserLifecycle_def registerSystem_def
    registerFile_def registerHeartbeat_def registerDirect_def thenG_def bindG_assoc
    snd_then_Subscribe [unfolded thenG_def] by (intro Subscribe_handlers)

lemma hub_ok_chat: "hub_ok chat_world" and idle_chat: "w_go chat_world = []"
proof -
  have "hub_ok joined_world" by (rule sys_invD(1) [OF chat_reachable_inv [OF joined_world_reachable]])
  then show "hub_ok chat_world" by (simp add: chat_world_def hub_ok_def RegisterAll_frame)
  show "w_go chat_world = []" by (simp add: chat_world_def RegisterAll_frame joined_world_eq)
qed

text \<open>The handler table that \<open>RegisterAll\<close> leaves on a new hub.\<close>

abbreviation registered_handlers :: "string \<Rightarrow> sub_handler handlerEntry list option" where
  "registered_handlers \<equiv> hub_handlers (w_hub (snd (RegisterAll (\<lambda>h. h) (empty_world :: sub_handler world))))"

text \<open>
  C7: a local chat message reaches everybody. On a hub whose handler table is the one that
  \<open>RegisterAll\<close> makes on a new hub, whoever has joined since, and with no goroutine pending,
  \<open>BroadcastLocal\<close> returns and starts exactly one goroutine, the handler of local messages with
  the message's event; when it has run, every registered
  client has the line \<open>[time] from: content\<close> once more at the end of its buffer (or one more drop
  is counted if it was full), the message is counted as local, and nothing else has changed.
\<close>

theorem local_message_end_to_end:
  assumes "hub_ok w" and "hub_handlers (w_hub w) = registered_handlers" and "w_go w = []"
  shows "Hub_BroadcastLocal now from content w = (Ret (), w\<lparr>w_go := [(OnMessageLocal, MessageEvent now from content True)]\<rparr>) \<and>
    run_goroutine (sub_run tz) 0 (snd (Hub_BroadcastLocal now from content w)) =
    w\<lparr>w_heap := deliver (local_line tz now from content) {r. registered w r} (w_heap w),
      w_metrics := w_metrics w @
        replicate (card {r. registered w r \<and> selects is_full (w_heap w) r}) DroppedMessagesTotal @
        [MessagesTotal ''local'']\<rparr>"
proof -
  let ?e = "MessageEvent now from content True"
  have "spawns ?e w = spawns ?e (snd (RegisterAll (\<lambda>h. h) (empty_world :: sub_handler world)))"
    using assms(2) by (simp add: spawns_def)
  then have "spawns ?e w = [(OnMessageLocal, ?e)]"
    unfolding RegisterAll_spawns by (simp add: spawns_def empty_world_def NewHub_def)
  with assms(1,3) show ?thesis
    by (simp add: Hub_BroadcastLocal_def Emit_eq run_goroutine_def sub_run_def thenG_app
        SendToAll_eq set_go_same observe_defs)
qed

theorem local_message_end_to_end_witness:
  "hub_ok chat_world \<and> hub_handlers (w_hub chat_world) = registered_handlers \<and> w_go chat_world = [] \<and>
   w_go (snd (Hub_BroadcastLocal 0 ''bob'' ''hi'' chat_world)) = [(OnMessageLocal, MessageEvent 0 ''bob'' ''hi'' True)] \<and>
   w_heap (run_goroutine (sub_run (\<lambda>_. 0)) 0 (snd (Hub_BroadcastLocal 0 ''bob'' ''hi'' chat_world))) =
     deliver (local_line (\<lambda>_. 0) 0 ''bob'' ''hi'') {r. registered chat_world r} (w_heap chat_world)"
proof -
  have "hub_handlers (w_hub chat_world) = registered_handlers"
    using RegisterAll_handlers [of joined_world empty_world "\<lambda>h. h"]
    by (simp add: same_handlers_def chat_world_def joined_world_eq empty_world_def)
  note h = this and r = local_message_end_to_end [OF hub_ok_chat this idle_chat, of 0 "''bob''" "''hi''" "\<lambda>_. 0"]
  show ?thesis using hub_ok_chat h idle_chat conjunct1 [OF r] conjunct2 [OF r] by simp
qed

text \<open>
  C8: a direct message reaches its addressee or is reported. When the goroutine of a direct
  message has run, every registered client named \<open>dest\<close> has got the message once; if there is no
  such client, every registered client with the sender's name has got the notice that the user is
  not online. No other client is touched and the direct message is counted.
\<close>

theorem direct_message_end_to_end:
  assumes "hub_ok w" and "subscribed w" and "w_go w = []"
    and "w' = run_goroutine (sub_run tz) 0 (snd (Hub_Emit (DirectMessageEvent t from dest content) w))"
    and "to = {r. registered w r \<and> selects (\<lambda>c. cl_Name c = dest) (w_heap w) r}"
  shows "w_heap w' =
      (if to \<noteq> {} then deliver (txt_direct @ from @ '': '' @ content) to (w_heap w)
       else deliver (txt_offline @ dest) {r. registered w r \<and> selects (\<lambda>c. cl_Name c = from) (w_heap w) r} (w_heap w)) \<and>
    w_hub w' = w_hub w \<and> w_go w' = [] \<and>
    count_calls DirectMessagesTotal (w_metrics w') = Suc (count_calls DirectMessagesTotal (w_metrics w))"
proof -
  have counts: "count_calls DirectMessagesTotal (replicate n DroppedMessagesTotal) = 0" for n
    by (induction n) simp_all
  have emit: "w' = snd (sub_run tz OnMessageDirect (DirectMessageEvent t from dest content) w)"
    using assms(2,3) unfolding assms(4) by (simp add: Emit_eq subscribed_def run_goroutine_def set_go_same)
  show ?thesis
  proof (cases "to = {}")
    case True
    then have none: "\<not> (\<exists>r. registered w r \<and> selects (\<lambda>c. cl_Name c = dest) (w_heap w) r)"
      unfolding assms(5) by blast
    let ?n = "card {r. registered w r \<and> selects (\<lambda>c. cl_Name c = dest \<and> is_full c) (w_heap w) r}"
    let ?v = "w\<lparr>w_heap := w_heap w, w_metrics := w_metrics w @ replicate ?n DroppedMessagesTotal\<rparr>"
    have first: "Hub_SendToUser dest (txt_direct @ from @ '': '' @ content) w = (Ret False, ?v)"
      unfolding SendToUser_eq [OF assms(1)] True [unfolded assms(5)] using none by simp
    have "hub_ok ?v" using deliver_ok [OF assms(1), where R = "{}"] by simp
    note second = SendToUser_eq [OF this, of "from" "txt_offline @ dest"]
    have "registered ?v = registered w" by (simp add: registered_def fun_eq_iff)
    with first second show ?thesis
      unfolding emit using True assms(3) by (simp add: sub_run_def bindG_app thenG_app observe_defs counts)
  next
    case False
    then have some: "\<exists>r. registered w r \<and> selects (\<lambda>c. cl_Name c = dest) (w_heap w) r"
      unfolding assms(5) by blast
    with False SendToUser_eq [OF assms(1), of dest "txt_direct @ from @ '': '' @ content"] show ?thesis
      unfolding emit using assms(3) by (simp add: sub_run_def bindG_app thenG_app observe_defs counts assms(5))
  qed
qed

theorem direct_message_end_to_end_witness:
  "hub_ok chat_world \<and> subscribed chat_world \<and> w_go chat_world = [] \<and>
   w_go (run_goroutine (sub_run (\<lambda>_. 0)) 0 (snd (Hub_Emit (DirectMessageEvent 1 ''bob'' ''eve'' ''hi'') chat_world))) = []"
  using hub_ok_chat subscribed_chat idle_chat
    direct_message_end_to_end [OF hub_ok_chat subscribed_chat idle_chat refl refl, of "\<lambda>_. 0" 1 "''bob''" "''eve''" "''hi''"]
  by simp

end
