(* ===== verification/Command_Registry.thy ===== *)
theory Command_Registry
  imports Hub_Invariants Go_Strings
begin

section \<open>The command registry (internal/command/registry.go)\<close>

text \<open>
  Commands are looked up by name or alias after normalisation (white space, one leading slash,
  case). A command's handler is a Go function; the registry only stores and calls it, so its type
  is a parameter \<open>'c\<close> and \<open>Registry_Execute\<close> gets the way to call it (\<open>run\<close>). A Go \<open>error\<close> is a
  \<open>string option\<close>: the text of the error, or \<open>None\<close> for nil. \<open>ulower\<close> is the lower-case table of
  runes beyond ASCII.
\<close>

type_synonym Level = int

definition levelUser :: Level where "levelUser = 0"
definition levelAdmin :: Level where "levelAdmin = 1"

record Context =
  ctx_Client :: "cref option" \<comment> \<open>\<open>None\<close> is nil\<close>
  ctx_Args :: "string list"
  ctx_Raw :: string

record 'c Command =
  cmd_Name :: string
  cmd_Aliases :: "string list"
  cmd_Help :: string
  cmd_MinLevel :: Level
  cmd_Handler :: 'c

record 'c Registry =
  reg_byName :: "string \<rightharpoonup> 'c Command"
  reg_list :: "'c Command list"

definition NewRegistry :: "'c Registry" where
  "NewRegistry = \<lparr>reg_byName = Map.empty, reg_list = []\<rparr>"

definition reg_put :: "string \<Rightarrow> 'c Command \<Rightarrow> 'c Registry \<Rightarrow> 'c Registry" where
  "reg_put k cmd r = r\<lparr>reg_byName := (reg_byName r)(k \<mapsto> cmd)\<rparr>"

subsection \<open>Registering\<close>

definition norm_name :: "(rune \<Rightarrow> rune) \<Rightarrow> string \<Rightarrow> string" where
  "norm_name ulower s = strings_ToLower ulower (strings_TrimSpace s)"

text \<open>The alias loop: it stops at the first alias that is taken.\<close>

fun register_aliases ::
  "(rune \<Rightarrow> rune) \<Rightarrow> 'c Command \<Rightarrow> string list \<Rightarrow> 'c Registry \<Rightarrow> string option \<times> 'c Registry" where
  "register_aliases ulower cmd [] r = (None, r)"
| "register_aliases ulower cmd (item # items) r =
     (let alias = norm_name ulower item in
      if alias = [] then register_aliases ulower cmd items r
      else if reg_byName r alias \<noteq> None
           then (Some (''command alias '' @ alias @ '' already registered''), r)
      else register_aliases ulower cmd items (reg_put alias cmd r))"

definition Registry_Register ::
  "(rune \<Rightarrow> rune) \<Rightarrow> 'c Command option \<Rightarrow> 'c Registry \<Rightarrow> string option \<times> 'c Registry" where
  "Registry_Register ulower c r = (case c of
     None \<Rightarrow> (Some ''command is nil'', r)
   | Some cmd \<Rightarrow>
      let name = norm_name ulower (cmd_Name cmd) in
      if name = [] then (Some ''command name is empty'', r)
      else if strings_Contains name ''/''
           then (Some (''command name must not contain '' @ [CHR 0x27] @ ''/'' @ [CHR 0x27] @ '':'' @ name), r)
      else if reg_byName r name \<noteq> None then (Some (''command '' @ name @ '' already registered''), r)
      else (case register_aliases ulower cmd (cmd_Aliases cmd) (reg_put name cmd r) of
              (Some err, r') \<Rightarrow> (Some err, r')
            | (None, r') \<Rightarrow> (None, r'\<lparr>reg_list := reg_list r' @ [cmd]\<rparr>)))"

subsection \<open>Lookup\<close>

definition lookup_key :: "(rune \<Rightarrow> rune) \<Rightarrow> string \<Rightarrow> string" where
  "lookup_key ulower name = strings_ToLower ulower (strings_TrimPrefix (strings_TrimSpace name) ''/'')"

definition Registry_Get :: "(rune \<Rightarrow> rune) \<Rightarrow> 'c Registry \<Rightarrow> string \<Rightarrow> 'c Command option" where
  "Registry_Get ulower r name = reg_byName r (lookup_key ulower name)"

definition Registry_List :: "'c Registry \<Rightarrow> 'c Command list" where
  "Registry_List r = reg_list r"

subsection \<open>Permissions and execution\<close>

text \<open>\<open>checkPermission\<close> of a client's metadata; \<open>Level(v)\<close> of the parsed level is compared.\<close>

definition level_allows :: "(string \<rightharpoonup> string) option \<Rightarrow> Level \<Rightarrow> bool" where
  "level_allows meta need = (case meta of
     None \<Rightarrow> False
   | Some m \<Rightarrow> (case m ''level'' of
        None \<Rightarrow> False
      | Some s \<Rightarrow> if s \<noteq> [] then (case strconv_Atoi s of (v, None) \<Rightarrow> need \<le> v | (_, Some _) \<Rightarrow> False)
                  else False))"

definition Registry_checkPermission :: "cref option \<Rightarrow> Level \<Rightarrow> ('z mem_scheme, bool) go" where
  "Registry_checkPermission c need = (case c of
     None \<Rightarrow> ret True
   | Some r \<Rightarrow> if need \<le> levelUser then ret True
               else withClient r (\<lambda>cl. ret (level_allows (cl_Meta cl) need)))"

text \<open>
  \<open>Execute\<close> returns whether the line was a command, the error, and the context, whose \<open>Args\<close> it
  assigns. A panic of the handler is not recovered here.
\<close>

definition Registry_Execute ::
  "(rune \<Rightarrow> rune) \<Rightarrow> ('c \<Rightarrow> Context \<Rightarrow> ('z mem_scheme, string option) go) \<Rightarrow> 'c Registry \<Rightarrow>
     string \<Rightarrow> Context \<Rightarrow> ('z mem_scheme, bool \<times> string option \<times> Context) go" where
  "Registry_Execute ulower run r raw0 ctx =
     (let raw = strings_TrimSpace raw0 in
      if raw = [] \<or> \<not> strings_HasPrefix raw ''/'' then ret (False, None, ctx)
      else case strings_Fields raw of
        [] \<Rightarrow> ret (True, None, ctx)
      | part0 # args \<Rightarrow>
         (let cmdName = strings_TrimPrefix part0 ''/'' in
          case Registry_Get ulower r cmdName of
            None \<Rightarrow> thenG (IncCommandError ''not_found'')
                      (ret (True, Some (''command '' @ cmdName @ '' not found''), ctx))
          | Some cmd \<Rightarrow>
             bindG (Registry_checkPermission (ctx_Client ctx) (cmd_MinLevel cmd)) (\<lambda>ok.
               if \<not> ok then thenG (IncCommandError ''permission'')
                               (ret (True, Some ''permission denied'', ctx))
               else let ctx' = ctx\<lparr>ctx_Args := args\<rparr> in
                 thenG (IncCommand (cmd_Name cmd))
                   (bindG (run (cmd_Handler cmd) ctx') (\<lambda>err.
                      case err of
                        Some e \<Rightarrow> thenG (IncCommandError ''handler'') (ret (True, Some e, ctx'))
                      | None \<Rightarrow> ret (True, None, ctx'))))))"

end
