(* ===== verification/Command_Builtins.thy ===== *)
theory Command_Builtins
  imports Command_Registry Go_Time
begin

section \<open>The built-in commands (internal/command/builtin.go)\<close>

text \<open>
  The handler closures are the constructors of \<open>builtin\<close>, their bodies \<open>builtin_run\<close>: it gets the
  registry the closure of \<open>help\<close> captured, the current time, and the text the standard library
  gives a scan error (\<open>scan_err_text\<close>), which \<open>sendfile\<close> quotes. A method call on a nil client
  panics.
\<close>

datatype builtin =
  BHelp | BQuit | BWho | BAuth | BKick | BBan | BMsg | BNotice | BPing | BSendfile

definition ctx_Send :: "Context \<Rightarrow> string \<Rightarrow> ('z mem_scheme, unit) go" where
  "ctx_Send ctx m = (case ctx_Client ctx of None \<Rightarrow> panicG NilDereference | Some r \<Rightarrow> Client_Send r m)"

text \<open>A read of a field of \<open>ctx.Client\<close>.\<close>

definition ctx_withClient ::
  "Context \<Rightarrow> (cref \<Rightarrow> Client \<Rightarrow> ('z mem_scheme, 'a) go) \<Rightarrow> ('z mem_scheme, 'a) go" where
  "ctx_withClient ctx f = (case ctx_Client ctx of None \<Rightarrow> panicG NilDereference | Some r \<Rightarrow> withClient r (f r))"

definition errorf :: "string \<Rightarrow> ('w, string option) go" where
  "errorf s = ret (Some s)"

definition nil :: "('w, string option) go" where
  "nil = ret None"

subsection \<open>The handlers\<close>

definition help_line :: "builtin Command \<Rightarrow> string" where
  "help_line c = ''/'' @ cmd_Name c @ '' - '' @ cmd_Help c @
     (if 0 < length (cmd_Aliases c) then '' ('' @ utf8 [0xE5, 0x88, 0xAB, 0xE5, 0x90, 0x8D] @ '': '' @ strings_Join (cmd_Aliases c) '', '' @ '')'' else [])"

definition help_text :: "builtin Command list \<Rightarrow> string" where
  "help_text cs = strings_Join (map help_line cs) [CHR 0x0A]"

definition help_run :: "builtin Registry \<Rightarrow> Context \<Rightarrow> (('h, 'z) world_scheme, string option) go" where
  "help_run reg ctx = thenG (ctx_Send ctx (help_text (Registry_List reg))) nil"

definition quit_run :: "Time \<Rightarrow> Context \<Rightarrow> (('h, 'z) world_scheme, string option) go" where
  "quit_run now ctx = thenG (ctx_Send ctx (utf8 [0xE5, 0x86, 0x8D, 0xE8, 0xA7, 0x81, 0xEF, 0xBC, 0x81]))
     (thenG (case ctx_Client ctx of None \<Rightarrow> panicG NilDereference | Some r \<Rightarrow> Hub_UnregisterClient now r) nil)"

definition who_run :: "Context \<Rightarrow> (('h, 'z) world_scheme, string option) go" where
  "who_run ctx = bindG Hub_ListNames (\<lambda>names.
     thenG (ctx_Send ctx (utf8 [0xE5, 0x9C, 0xA8, 0xE7, 0xBA, 0xBF, 0xE7, 0x94, 0xA8, 0xE6, 0x88, 0xB7, 0xEF, 0xBC, 0x9A] @ strings_Join names '','')) nil)"

definition set_level :: "cref \<Rightarrow> string \<Rightarrow> Client \<Rightarrow> ('z mem_scheme, unit) go" where
  "set_level r s c = setClient r (c\<lparr>cl_Meta := Some (case cl_Meta c of
     None \<Rightarrow> [''level'' \<mapsto> s] | Some m \<Rightarrow> m(''level'' \<mapsto> s))\<rparr>)"

definition ensure_meta :: "Client \<Rightarrow> Client" where
  "ensure_meta c = (if cl_Meta c = None then c\<lparr>cl_Meta := Some Map.empty\<rparr> else c)"

definition auth_body :: "Context \<Rightarrow> string \<Rightarrow> cref \<Rightarrow> Client \<Rightarrow> (('h, 'z) world_scheme, string option) go" where
  "auth_body ctx a r c =
     (if a \<noteq> ''0'' \<and> a \<noteq> ''1'' then errorf (utf8 [0xE9, 0x9D, 0x9E, 0xE6, 0xB3, 0x95, 0xE7, 0xAD, 0x89, 0xE7, 0xBA, 0xA7] @ '': '' @ a)
      else thenG (set_level r a c) (thenG (ctx_Send ctx (utf8 [0xE5, 0xB7, 0xB2, 0xE8, 0xAE, 0xBE, 0xE7, 0xBD, 0xAE, 0xE6, 0x9D, 0x83, 0xE9, 0x99, 0x90, 0xE7, 0xAD, 0x89, 0xE7, 0xBA, 0xA7, 0xE4, 0xB8, 0xBA] @ '': '' @ a)) nil))"

definition auth_run :: "Context \<Rightarrow> (('h, 'z) world_scheme, string option) go" where
  "auth_run ctx =
     (case ctx_Args ctx of
        [a] \<Rightarrow> ctx_withClient ctx (\<lambda>r c.
          thenG (setClient r (ensure_meta c)) (auth_body ctx a r (ensure_meta c)))
      | _ \<Rightarrow> errorf (utf8 [0xE7, 0x94, 0xA8, 0xE6, 0xB3, 0x95] @ '': /auth <0|1>''))"

definition kick_run :: "Time \<Rightarrow> Context \<Rightarrow> (('h, 'z) world_scheme, string option) go" where
  "kick_run now ctx =
     (case ctx_Args ctx of
        [name] \<Rightarrow> bindG (Hub_KickByName now name) (\<lambda>ok.
          thenG (if \<not> ok then ctx_Send ctx (utf8 [0xE7, 0x94, 0xA8, 0xE6, 0x88, 0xB7, 0xE4, 0xB8, 0x8D, 0xE5, 0x9C, 0xA8, 0xE7, 0xBA, 0xBF] @ '': '' @ name)
                 else ctx_Send ctx (utf8 [0xE5, 0xB7, 0xB2, 0xE8, 0xB8, 0xA2, 0xE5, 0x87, 0xBA] @ '': '' @ name)) nil)
      | _ \<Rightarrow> errorf (utf8 [0xE7, 0x94, 0xA8, 0xE6, 0xB3, 0x95] @ '': /kick <name>''))"

text \<open>The duration of \<open>/ban\<close>: the product with \<open>time.Minute\<close> is taken in 64 bits.\<close>

definition ban_duration :: "string list \<Rightarrow> Duration option" where
  "ban_duration rest =
     (case rest of
        [] \<Rightarrow> Some 0
      | a # _ \<Rightarrow> (case fmt_Sscan_int a of
           Inl _ \<Rightarrow> None
         | Inr mins \<Rightarrow> if mins < 0 then None else Some (of_int mins * time_Minute)))"

definition ban_reply :: "string \<Rightarrow> Duration \<Rightarrow> string" where
  "ban_reply name d =
     (if d = 0 then utf8 [0xE5, 0xB7, 0xB2, 0xE6, 0xB0, 0xB8, 0xE4, 0xB9, 0x85, 0xE5, 0xB0, 0x81, 0xE7, 0xA6, 0x81] @ '': '' @ name
      else utf8 [0xE5, 0xB7, 0xB2, 0xE5, 0xB0, 0x81, 0xE7, 0xA6, 0x81] @ '' '' @ name @ '' '' @
        strconv_Itoa (f64_int (Duration_Minutes d)) @ '' '' @ utf8 [0xE5, 0x88, 0x86, 0xE9, 0x92, 0x9F])"

definition ban_run :: "Time \<Rightarrow> Context \<Rightarrow> (('h, 'z) world_scheme, string option) go" where
  "ban_run now ctx =
     (case ctx_Args ctx of
        [] \<Rightarrow> errorf (utf8 [0xE7, 0x94, 0xA8, 0xE6, 0xB3, 0x95] @ '': /ban <name> [minutes]'')
      | name # rest \<Rightarrow> (case ban_duration rest of
           None \<Rightarrow> errorf (''minutes '' @ utf8 [0xE9, 0x9D, 0x9E, 0xE6, 0xB3, 0x95])
         | Some d \<Rightarrow> thenG (Hub_BanFor now name d) (thenG (ctx_Send ctx (ban_reply name d)) nil)))"

definition msg_run :: "Time \<Rightarrow> Context \<Rightarrow> (('h, 'z) world_scheme, string option) go" where
  "msg_run now ctx =
     (case ctx_Args ctx of
        dest # w1 # ws \<Rightarrow> ctx_withClient ctx (\<lambda>r c.
          thenG (Hub_Emit (DirectMessageEvent now (cl_Name c) dest (strings_Join (w1 # ws) '' ''))) nil)
      | _ \<Rightarrow> errorf (utf8 [0xE7, 0x94, 0xA8, 0xE6, 0xB3, 0x95] @ '': /msg <to> <text>''))"

definition notice_run :: "Time \<Rightarrow> Context \<Rightarrow> (('h, 'z) world_scheme, string option) go" where
  "notice_run now ctx =
     (case ctx_Args ctx of
        level # w1 # ws \<Rightarrow>
          thenG (Hub_Emit (SystemNoticeEvent now level (strings_Join (w1 # ws) '' ''))) nil
      | _ \<Rightarrow> errorf (utf8 [0xE7, 0x94, 0xA8, 0xE6, 0xB3, 0x95] @ '': /notice <info|warn|error> <text>''))"

definition ping_run :: "Time \<Rightarrow> Context \<Rightarrow> (('h, 'z) world_scheme, string option) go" where
  "ping_run now ctx = ctx_withClient ctx (\<lambda>r c.
     thenG (Hub_Emit (HeartbeatEvent now (cl_ID c) (strings_Join (ctx_Args ctx) '' '')))
       (thenG (ctx_Send ctx ''pong'') nil))"

definition sendfile_run ::
  "(scan_err \<Rightarrow> string) \<Rightarrow> Time \<Rightarrow> Context \<Rightarrow> (('h, 'z) world_scheme, string option) go" where
  "sendfile_run scan_err_text now ctx =
     (case ctx_Args ctx of
        dest # name # sizeStr # rest \<Rightarrow>
          (let mime = (case rest of [] \<Rightarrow> [] | m # _ \<Rightarrow> m) in
           case fmt_Sscan_int sizeStr of
             Inl e \<Rightarrow> errorf (''size '' @ utf8 [0xE4, 0xB8, 0x8D, 0xE6, 0x98, 0xAF, 0xE6, 0x95, 0xB4, 0xE6, 0x95, 0xB0] @ '': '' @ scan_err_text e)
           | Inr bytes \<Rightarrow> ctx_withClient ctx (\<lambda>r c.
               thenG (Hub_Emit (FileTransferEvent now (cl_Name c) dest name (of_int bytes) mime []))
                 (thenG (ctx_Send ctx (utf8 [0xE6, 0x96, 0x87, 0xE4, 0xBB, 0xB6, 0xE4, 0xBA, 0x8B, 0xE4, 0xBB, 0xB6, 0xE5, 0xB7, 0xB2, 0xE6, 0x8F, 0x90, 0xE4, 0xBA, 0xA4] @ '': '' @ name)) nil)))
      | _ \<Rightarrow> errorf (utf8 [0xE7, 0x94, 0xA8, 0xE6, 0xB3, 0x95] @ '': /sendfile <to|*> <name> <size> [mime]''))"

definition builtin_run ::
  "(scan_err \<Rightarrow> string) \<Rightarrow> Time \<Rightarrow> builtin Registry \<Rightarrow> builtin \<Rightarrow> Context \<Rightarrow>
     (('h, 'z) world_scheme, string option) go" where
  "builtin_run scan_err_text now reg b ctx = (case b of
     BHelp \<Rightarrow> help_run reg ctx
   | BQuit \<Rightarrow> quit_run now ctx
   | BWho \<Rightarrow> who_run ctx
   | BAuth \<Rightarrow> auth_run ctx
   | BKick \<Rightarrow> kick_run now ctx
   | BBan \<Rightarrow> ban_run now ctx
   | BMsg \<Rightarrow> msg_run now ctx
   | BNotice \<Rightarrow> notice_run now ctx
   | BPing \<Rightarrow> ping_run now ctx
   | BSendfile \<Rightarrow> sendfile_run scan_err_text now ctx)"

subsection \<open>Registering them\<close>

definition mk_cmd :: "string \<Rightarrow> string \<Rightarrow> Level \<Rightarrow> builtin \<Rightarrow> builtin Command" where
  "mk_cmd name help lvl h =
     \<lparr>cmd_Name = name, cmd_Aliases = [], cmd_Help = help, cmd_MinLevel = lvl, cmd_Handler = h\<rparr>"

definition builtin_commands :: "builtin Command list" where
  "builtin_commands =
     [mk_cmd ''help'' (utf8 [0xE6, 0x9F, 0xA5, 0xE7, 0x9C, 0x8B, 0xE5, 0xB8, 0xAE, 0xE5, 0x8A, 0xA9]) levelUser BHelp,
      mk_cmd ''quit'' (utf8 [0xE9, 0x80, 0x80, 0xE5, 0x87, 0xBA, 0xE8, 0x81, 0x8A, 0xE5, 0xA4, 0xA9, 0xE5, 0xAE, 0xA4]) levelUser BQuit,
      mk_cmd ''who'' (utf8 [0xE6, 0x9F, 0xA5, 0xE7, 0x9C, 0x8B, 0xE5, 0x9C, 0xA8, 0xE7, 0xBA, 0xBF, 0xE7, 0x94, 0xA8, 0xE6, 0x88, 0xB7]) levelUser BWho,
      mk_cmd ''auth'' (utf8 [0xE6, 0x8E, 0x88, 0xE6, 0x9D, 0x83, 0xE8, 0xAE, 0xBE, 0xE7, 0xBD, 0xAE] @ '': /auth <level> (0 '' @ utf8 [0xE7, 0x94, 0xA8, 0xE6, 0x88, 0xB7] @ '', 1 '' @ utf8 [0xE7, 0xAE, 0xA1, 0xE7, 0x90, 0x86, 0xE5, 0x91, 0x98] @ '')'') levelUser BAuth,
      mk_cmd ''kick'' (utf8 [0xE8, 0xB8, 0xA2, 0xE4, 0xBA, 0xBA] @ '': /kick <name>'') levelAdmin BKick,
      mk_cmd ''ban'' (utf8 [0xE5, 0xB0, 0x81, 0xE7, 0xA6, 0x81] @ '': /ban <name> [minutes] ('' @ utf8 [0xE9, 0xBB, 0x98, 0xE8, 0xAE, 0xA4, 0xE6, 0xB0, 0xB8, 0xE4, 0xB9, 0x85] @ '')'') levelAdmin BBan,
      mk_cmd ''msg'' (utf8 [0xE7, 0xA7, 0x81, 0xE4, 0xBF, 0xA1] @ '': /msg <to> <text>'') levelUser BMsg,
      mk_cmd ''notice'' (utf8 [0xE7, 0xB3, 0xBB, 0xE7, 0xBB, 0x9F, 0xE9, 0x80, 0x9A, 0xE7, 0x9F, 0xA5, 0xE5, 0xB9, 0xBF, 0xE6, 0x92, 0xAD] @ '': /notice <level> <text>'') levelUser BNotice,
      mk_cmd ''ping'' (utf8 [0xE5, 0x8F, 0x91, 0xE9, 0x80, 0x81, 0xE5, 0xBF, 0x83, 0xE8, 0xB7, 0xB3] @ '': /ping [detail]'') levelUser BPing,
      mk_cmd ''sendfile'' (utf8 [0xE5, 0x8F, 0x91, 0xE9, 0x80, 0x81, 0xE6, 0x96, 0x87, 0xE4, 0xBB, 0xB6] @ '': /sendfile <to|*> <name> <size> [mime]'') levelUser BSendfile]"

text \<open>A chain of \<open>if err := r.Register(...); err != nil { return err }\<close>.\<close>

fun register_all ::
  "(rune \<Rightarrow> rune) \<Rightarrow> 'c Command list \<Rightarrow> 'c Registry \<Rightarrow> string option \<times> 'c Registry" where
  "register_all ulower [] r = (None, r)"
| "register_all ulower (c # cs) r = (case Registry_Register ulower (Some c) r of
     (Some err, r') \<Rightarrow> (Some err, r')
   | (None, r') \<Rightarrow> register_all ulower cs r')"

definition RegisterBuiltins :: "(rune \<Rightarrow> rune) \<Rightarrow> builtin Registry \<Rightarrow> string option \<times> builtin Registry" where
  "RegisterBuiltins ulower r = register_all ulower builtin_commands r"

lemmas builtin_run_defs =
  help_run_def quit_run_def who_run_def auth_run_def kick_run_def ban_run_def msg_run_def
  notice_run_def ping_run_def sendfile_run_def ctx_Send_def ctx_withClient_def errorf_def nil_def
  set_level_def auth_body_def ensure_meta_def

end
