(* ===== verification/Go_String_Lemmas.thy ===== *)
theory Go_String_Lemmas
  imports Go_Strings
begin

section \<open>Facts on the string library\<close>

text \<open>
  Decimal output is read back by \<open>strconv.Atoi\<close> and by \<open>fmt.Sscan\<close>; words joined by a blank
  are split again by \<open>strings.Fields\<close>; lower-casing keeps a leading slash.
\<close>

subsection \<open>Decimal round trips\<close>

lemma uint_loop_append:
  "uint_loop b us n (xs @ ys) = (case uint_loop b us n xs of Inl e \<Rightarrow> Inl e | Inr m \<Rightarrow> uint_loop b us m ys)"
  by (induction b us n xs rule: uint_loop.induct) (auto split: option.splits)

definition is_digit :: "char \<Rightarrow> bool" where
  "is_digit c \<longleftrightarrow> c \<in> set ''0123456789''"

lemma of_char_digit: "0 \<le> d \<Longrightarrow> d < 10 \<Longrightarrow> byte_of (digit_char d) = 48 + d"
  by (simp add: digit_char_def)

lemma digit_char_digit:
  assumes "0 \<le> d" and "d < 10"
  shows "is_digit (digit_char d)"
proof -
  from assms have "d = 0 \<or> d = 1 \<or> d = 2 \<or> d = 3 \<or> d = 4 \<or> d = 5 \<or> d = 6 \<or> d = 7 \<or> d = 8 \<or> d = 9"
    by presburger
  then show ?thesis by (elim disjE) (simp_all add: is_digit_def digit_char_def char_of_def bit_numeral_rec)
qed

lemma digit_val_digit: "0 \<le> d \<Longrightarrow> d < 10 \<Longrightarrow> digit_val (digit_char d) = Some d"
  by (simp add: of_char_digit)

lemma is_digit_neq:
  "is_digit c \<Longrightarrow> c \<noteq> CHR ''_''" "is_digit c \<Longrightarrow> c \<noteq> CHR ''+''" "is_digit c \<Longrightarrow> c \<noteq> CHR ''-''"
  by (auto simp: is_digit_def)

lemma int_digits_digits: "0 \<le> n \<Longrightarrow> list_all is_digit (int_digits n)"
proof (induction n rule: int_digits.induct)
  case (1 n)
  then show ?case
    by (subst int_digits.simps) (simp add: digit_char_digit pos_imp_zdiv_nonneg_iff)
qed

lemma int_digits_nonempty: "int_digits n \<noteq> []"
  by (subst int_digits.simps) simp

lemma int_digits_first: "0 < n \<Longrightarrow> CHR ''0'' \<noteq> hd (int_digits n)"
proof (induction n rule: int_digits.induct)
  case (1 n)
  show ?case
  proof (cases "n < 10")
    case True
    have "digit_char n \<noteq> CHR ''0''"
    proof
      assume "digit_char n = CHR ''0''"
      then have "byte_of (digit_char n) = 48" by simp
      then show False using 1 True by (simp add: of_char_digit)
    qed
    then show ?thesis using True by (subst int_digits.simps) auto
  next
    case False
    then have "0 < n div 10" by linarith
    with 1 False show ?thesis by (subst int_digits.simps) (simp add: int_digits_nonempty)
  qed
qed

lemma uint_loop_digits: "0 \<le> n \<Longrightarrow> n < 2 ^ 64 \<Longrightarrow> uint_loop 10 us 0 (int_digits n) = Inr n"
proof (induction n rule: int_digits.induct)
  case (1 n)
  have d: "digit_val (digit_char (n mod 10)) = Some (n mod 10)" by (rule digit_val_digit) simp_all
  have u: "digit_char (n mod 10) \<noteq> CHR ''_''" by (rule is_digit_neq(1) [OF digit_char_digit]) simp_all
  show ?case
  proof (cases "n < 10")
    case True
    then have "n mod 10 = n" using 1 by simp
    with d u True 1 show ?thesis by (subst int_digits.simps) (simp del: digit_val.simps)
  next
    case False
    have "n div 10 * 10 + n mod 10 = n" by simp
    with d u False 1 show ?thesis
      by (subst int_digits.simps) (simp add: uint_loop_append pos_imp_zdiv_nonneg_iff del: digit_val.simps)
  qed
qed

lemma split_sign_digits: "0 \<le> n \<Longrightarrow> split_sign (int_digits n) = (False, int_digits n)"
  using int_digits_digits [of n] int_digits_nonempty [of n]
  by (cases "int_digits n") (auto simp: split_sign_def is_digit_neq)

lemma Atoi_Itoa:
  assumes "- (2 ^ 63) \<le> i" and "i < 2 ^ 63"
  shows "strconv_Atoi (strconv_Itoa i) = (i, None)"
proof (cases "i < 0")
  case True
  then show ?thesis using assms uint_loop_digits [of "- i" False]
    by (simp add: strconv_Itoa_def strconv_Atoi_def split_sign_def int_digits_nonempty signed_result_def)
next
  case False
  then show ?thesis using assms uint_loop_digits [of i False]
    by (simp add: strconv_Itoa_def strconv_Atoi_def split_sign_digits int_digits_nonempty signed_result_def)
qed

lemma is_digit_ascii: "is_digit c \<Longrightarrow> byte_of c < 128 \<and> \<not> is_space (byte_of c)"
  by (auto simp: is_digit_def is_space_def)

lemma runes_digits:
  "list_all is_digit ds \<Longrightarrow> runes ds = map (\<lambda>c. (byte_of c, [c])) ds"
  by (rule runes_ascii) (auto simp: is_ascii_def list_all_iff dest: is_digit_ascii)

lemma skip_space_digits:
  assumes "list_all is_digit ds"
  shows "skip_space ds = ds"
proof (cases ds)
  case (Cons d ds')
  then have "dropWhile (\<lambda>(r, _). is_space r) (runes ds) = map (\<lambda>c. (byte_of c, [c])) ds"
    using assms is_digit_ascii [of d] by (simp add: runes_digits)
  then show ?thesis by (simp add: skip_space_def concat_map_singleton comp_def)
qed (simp add: skip_space_def runes.simps)

lemma in_digits_decimal: "is_digit c \<Longrightarrow> in_digits (scan_digits 10) c"
  by (auto simp: in_digits_def scan_digits_def is_digit_def)

lemma scan_token_digits:
  assumes "0 < n"
  shows "scan_token (int_digits n) = Inr (int_digits n)"
proof -
  obtain d ds where ds: "int_digits n = d # ds" by (cases "int_digits n") (simp_all add: int_digits_nonempty)
  have dig: "list_all is_digit (d # ds)" using int_digits_digits [of n] assms ds by simp
  then have "takeWhile (in_digits (scan_digits 10)) (d # ds) = d # ds"
    by (auto simp: takeWhile_eq_all_conv list_all_iff in_digits_decimal)
  moreover have "d \<noteq> CHR ''0''" using int_digits_first [OF assms] ds by auto
  ultimately show ?thesis
    using dig by (simp add: scan_token_def ds is_digit_neq in_digits_decimal)
qed

lemma Sscan_Itoa:
  assumes "0 \<le> n" and "n < 2 ^ 63"
  shows "fmt_Sscan_int (strconv_Itoa n) = Inr n"
proof (cases "n = 0")
  case True
  have "fmt_Sscan_int ''0'' = Inr 0" by code_simp
  then show ?thesis using True by (simp add: strconv_Itoa_def int_digits.simps digit_char_def char_of_def bit_numeral_rec)
next
  case False
  obtain d ds where ds: "int_digits n = d # ds" by (cases "int_digits n") (simp_all add: int_digits_nonempty)
  have dig: "list_all is_digit (d # ds)" using int_digits_digits [of n] assms ds by simp
  then have nu: "CHR ''_'' \<notin> set (d # ds)" by (auto simp: list_all_iff dest: is_digit_neq)
  have "CHR ''0'' \<noteq> d" using int_digits_first [of n] False assms ds by auto
  then have "parse_int0 (int_digits n) = (n, None)"
    using assms nu split_sign_digits [of n] uint_loop_digits [of n True]
    by (auto simp: parse_int0_def ds signed_result_def)
  then show ?thesis
    using assms False int_digits_digits [of n]
    by (simp add: fmt_Sscan_int_def strconv_Itoa_def skip_space_digits scan_token_digits)
qed


subsection \<open>Words\<close>

definition plain_char :: "char \<Rightarrow> bool" where
  "plain_char c \<longleftrightarrow> byte_of c < 128 \<and> \<not> is_space (byte_of c)"

definition plain_word :: "string \<Rightarrow> bool" where
  "plain_word s \<longleftrightarrow> s \<noteq> [] \<and> list_all plain_char s"

abbreviation ascii_runes :: "string \<Rightarrow> (rune \<times> string) list" where
  "ascii_runes s \<equiv> map (\<lambda>c. (byte_of c, [c])) s"

lemma fields_of_word:
  "list_all plain_char s \<Longrightarrow> fields_of cur (ascii_runes s @ rs) = fields_of (cur @ s) rs"
  by (induction s arbitrary: cur) (simp_all add: plain_char_def)

lemma plain_word_ascii: "plain_word s \<Longrightarrow> is_ascii s"
  by (auto simp: plain_word_def is_ascii_def plain_char_def list_all_iff)

lemma Join_ascii: "list_all plain_word ws \<Longrightarrow> is_ascii (strings_Join ws '' '')"
  by (induction ws "'' ''" rule: strings_Join.induct)
    (auto simp: is_ascii_def dest: plain_word_ascii [unfolded is_ascii_def])

lemma fields_of_Join:
  "list_all plain_word ws \<Longrightarrow> fields_of [] (ascii_runes (strings_Join ws '' '')) = ws"
proof (induction ws "'' ''" rule: strings_Join.induct)
  case (2 x)
  then show ?case using fields_of_word [of x "[]" "[]"] by (simp add: plain_word_def)
next
  case (3 x y xs)
  then show ?case
    using fields_of_word [of x "[]" "ascii_runes ('' '' @ strings_Join (y # xs) '' '')"]
    by (simp add: plain_word_def is_space_def)
qed simp

lemma Fields_Join: "list_all plain_word ws \<Longrightarrow> strings_Fields (strings_Join ws '' '') = ws"
  by (simp add: strings_Fields_def runes_ascii Join_ascii fields_of_Join)

lemma TrimSpace_plain:
  assumes "is_ascii s" and "s \<noteq> []" and "plain_char (hd s)" and "plain_char (last s)"
  shows "strings_TrimSpace s = s"
proof -
  obtain a s' where a: "s = a # s'" using assms(2) by (cases s) auto
  obtain t z where z: "s = t @ [z]" using assms(2) by (cases s rule: rev_cases) auto
  have 1: "dropWhile (\<lambda>(r, _). is_space r) (ascii_runes s) = ascii_runes s"
    using assms(3) a by (simp add: plain_char_def)
  have 2: "dropWhile (\<lambda>(r, _). is_space r) (rev (ascii_runes s)) = rev (ascii_runes s)"
    using assms(4) z by (simp add: plain_char_def)
  show ?thesis
    by (simp add: strings_TrimSpace_def runes_ascii [OF assms(1)] 1 2 [simplified] comp_def concat_map_singleton)
qed

lemma Join_ends:
  assumes "list_all plain_word ws" and "ws \<noteq> []"
  shows "strings_Join ws '' '' \<noteq> [] \<and> hd (strings_Join ws '' '') = hd (hd ws) \<and>
    last (strings_Join ws '' '') = last (last ws)"
  using assms
  by (induction ws "'' ''" rule: strings_Join.induct) (auto simp: plain_word_def)

lemma TrimSpace_Join:
  assumes "list_all plain_word ws" and "ws \<noteq> []"
  shows "strings_TrimSpace (strings_Join ws '' '') = strings_Join ws '' ''"
proof (rule TrimSpace_plain)
  have "plain_word (hd ws)" "plain_word (last ws)" using assms by (auto simp: list_all_iff)
  then have "plain_char (hd (hd ws))" "plain_char (last (last ws))"
    by (auto simp: plain_word_def list_all_iff)
  then show "plain_char (hd (strings_Join ws '' ''))" "plain_char (last (strings_Join ws '' ''))"
    using Join_ends [OF assms] by simp_all
qed (use assms Join_ends Join_ascii in auto)

subsection \<open>Lower case\<close>

lemma runes_Cons_ascii: "byte_of c < 128 \<Longrightarrow> runes (c # cs) = (byte_of c, [c]) # runes cs"
  by (simp add: runes.simps decode_rune_ascii)

lemma ToLower_slash: "CHR ''/'' \<in> set (strings_ToLower ulower (CHR ''/'' # s))"
proof (cases "is_ascii (CHR ''/'' # s)")
  case True
  then show ?thesis by (simp add: strings_ToLower_def ascii_lower_def)
next
  case False
  have "encode_rune 47 = ''/''" by code_simp
  with False show ?thesis by (simp add: strings_ToLower_def runes_Cons_ascii lower_rune_def)
qed

lemma TrimPrefix_slash: "CHR ''/'' \<notin> set (strings_ToLower ulower s) \<Longrightarrow> strings_TrimPrefix s ''/'' = s"
  using ToLower_slash [of ulower "tl s"]
  by (cases s) (auto simp: strings_TrimPrefix_def strings_HasPrefix_def)

end
