(* ===== verification/Registry_Properties.thy ===== *)
theory Registry_Properties
  imports Command_Builtins Go_String_Lemmas
begin

section \<open>Properties of the command registry\<close>

text \<open>
  Registering and looking up, the state a failed registration leaves behind, the permission
  check and the branches of \<open>Execute\<close>.
\<close>

definition alias_keys :: "(rune \<Rightarrow> rune) \<Rightarrow> string list \<Rightarrow> string set" where
  "alias_keys ulower items = norm_name ulower ` set items - {[]}"

lemma alias_keys_simps [simp]:
  "alias_keys ulower [] = {}"
  "alias_keys ulower (a # as) =
     (if norm_name ulower a = [] then alias_keys ulower as else insert (norm_name ulower a) (alias_keys ulower as))"
  by (auto simp: alias_keys_def)

definition command_keys :: "(rune \<Rightarrow> rune) \<Rightarrow> 'c Command \<Rightarrow> string set" where
  "command_keys ulower cmd = insert (norm_name ulower (cmd_Name cmd)) (alias_keys ulower (cmd_Aliases cmd))"

lemma reg_put_simps [simp]:
  "reg_byName (reg_put k c r) = (reg_byName r)(k \<mapsto> c)" "reg_list (reg_put k c r) = reg_list r"
  by (simp_all add: reg_put_def)

lemma reg_put_keeps:
  "reg_byName r j = None \<Longrightarrow> reg_byName r k = Some d \<Longrightarrow> reg_byName (reg_put j c r) k = Some d"
  by auto

lemma register_aliases_ok:
  assumes "register_aliases ulower cmd items r = (None, r')"
  shows "reg_list r' = reg_list r \<and>
    reg_byName r' k = (if k \<in> alias_keys ulower items then Some cmd else reg_byName r k)"
  using assms
  by (induction ulower cmd items r rule: register_aliases.induct) (auto simp: Let_def split: if_splits)

lemma register_aliases_list:
  "register_aliases ulower cmd items r = (e, r') \<Longrightarrow> reg_list r' = reg_list r"
  by (induction ulower cmd items r rule: register_aliases.induct) (auto simp: Let_def split: if_splits)

lemma register_aliases_keeps:
  "register_aliases ulower cmd items r = (e, r') \<Longrightarrow> reg_byName r k = Some c \<Longrightarrow> reg_byName r' k = Some c"
proof (induction ulower cmd items r rule: register_aliases.induct)
  case (2 ulower cmd item items r)
  have "reg_byName (reg_put (norm_name ulower item) cmd r) k = Some c" if "reg_byName r (norm_name ulower item) = None"
    by (rule reg_put_keeps [OF that "2.prems"(2)])
  with 2 show ?case by (auto simp: Let_def simp del: reg_put_simps split: if_splits)
qed simp

text \<open>A failed alias loop: the aliases before the first taken one are bound, the others are not.\<close>

definition bind_keys :: "string set \<Rightarrow> 'c Command \<Rightarrow> 'c Registry \<Rightarrow> 'c Registry" where
  "bind_keys K cmd r = r\<lparr>reg_byName := (\<lambda>k. if k \<in> K then Some cmd else reg_byName r k)\<rparr>"

lemma bind_keys_put: "bind_keys K cmd (reg_put k cmd r) = bind_keys (insert k K) cmd r"
  by (simp add: bind_keys_def reg_put_def fun_eq_iff)

lemma register_aliases_error:
  assumes "register_aliases ulower cmd items r = (Some err, r')"
  shows "\<exists>pre a post. items = pre @ a # post \<and> norm_name ulower a \<noteq> [] \<and>
    (norm_name ulower a \<in> alias_keys ulower pre \<or> reg_byName r (norm_name ulower a) \<noteq> None) \<and>
    err = ''command alias '' @ norm_name ulower a @ '' already registered'' \<and> r' = bind_keys (alias_keys ulower pre) cmd r"
  using assms
proof (induction ulower cmd items r rule: register_aliases.induct)
  case (2 ulower cmd item items r)
  let ?a = "norm_name ulower item"
  consider "?a = []" | "?a \<noteq> []" "reg_byName r ?a \<noteq> None" | "?a \<noteq> []" "reg_byName r ?a = None" by blast
  then show ?case
  proof cases
    case 1
    with 2 obtain pre a post where "items = pre @ a # post" "norm_name ulower a \<noteq> []"
      "norm_name ulower a \<in> alias_keys ulower pre \<or> reg_byName r (norm_name ulower a) \<noteq> None"
      "err = ''command alias '' @ norm_name ulower a @ '' already registered''" "r' = bind_keys (alias_keys ulower pre) cmd r"
      by (auto simp: Let_def)
    then show ?thesis using 1 by (intro exI [of _ "item # pre"] exI [of _ a] exI [of _ post]) simp
  next
    case 2
    then show ?thesis using "2.prems" by (intro exI [of _ "[]"] exI [of _ item] exI [of _ items]) (simp add: Let_def bind_keys_def)
  next
    case 3
    with "2.IH"(2) [OF refl] "2.prems" obtain pre a post where "items = pre @ a # post" "norm_name ulower a \<noteq> []"
      "norm_name ulower a \<in> alias_keys ulower pre \<or> reg_byName (reg_put ?a cmd r) (norm_name ulower a) \<noteq> None"
      "err = ''command alias '' @ norm_name ulower a @ '' already registered''"
      "r' = bind_keys (alias_keys ulower pre) cmd (reg_put ?a cmd r)" by (auto simp: Let_def)
    then show ?thesis using 3
      by (intro exI [of _ "item # pre"] exI [of _ a] exI [of _ post]) (auto simp: bind_keys_put split: if_splits)
  qed
qed simp

text \<open>A name without a slash is looked up under the key it was registered with.\<close>

lemma lookup_key_name:
  "CHR ''/'' \<notin> set (norm_name ulower s) \<Longrightarrow> lookup_key ulower s = norm_name ulower s"
  using TrimPrefix_slash [of ulower "strings_TrimSpace s"] by (simp add: lookup_key_def norm_name_def)

lemma Register_ok_cases:
  assumes "Registry_Register ulower (Some cmd) r = (None, r')"
  obtains r'' where "norm_name ulower (cmd_Name cmd) \<noteq> []"
    "CHR ''/'' \<notin> set (norm_name ulower (cmd_Name cmd))"
    "reg_byName r (norm_name ulower (cmd_Name cmd)) = None"
    "register_aliases ulower cmd (cmd_Aliases cmd) (reg_put (norm_name ulower (cmd_Name cmd)) cmd r) = (None, r'')"
    "r' = r''\<lparr>reg_list := reg_list r @ [cmd]\<rparr>"
  using assms
  by (auto simp: Registry_Register_def Let_def Contains_singleton register_aliases_list
      split: if_splits prod.splits option.splits)

lemma Register_byName:
  assumes "Registry_Register ulower (Some cmd) r = (None, r')"
  shows "reg_byName r' k = (if k \<in> command_keys ulower cmd then Some cmd else reg_byName r k)"
    and "reg_list r' = reg_list r @ [cmd]"
proof -
  let ?n = "norm_name ulower (cmd_Name cmd)"
  obtain r'' where ok:
    "register_aliases ulower cmd (cmd_Aliases cmd) (reg_put ?n cmd r) = (None, r'')"
    "r' = r''\<lparr>reg_list := reg_list r @ [cmd]\<rparr>"
    using Register_ok_cases [OF assms] by blast
  show "reg_byName r' k = (if k \<in> command_keys ulower cmd then Some cmd else reg_byName r k)"
    using register_aliases_ok [OF ok(1), of k] ok(2) by (auto simp: command_keys_def)
  show "reg_list r' = reg_list r @ [cmd]" using ok(2) by simp
qed

definition reg_wf :: "'c Registry \<Rightarrow> bool" where
  "reg_wf r \<longleftrightarrow> ran (reg_byName r) \<subseteq> set (reg_list r)"

lemma NewRegistry_wf: "reg_wf NewRegistry"
  by (simp add: reg_wf_def NewRegistry_def)

lemma Register_wf:
  "reg_wf r \<Longrightarrow> Registry_Register ulower (Some cmd) r = (None, r') \<Longrightarrow> reg_wf r'"
  by (auto simp: reg_wf_def ran_def Register_byName split: if_splits)

lemma register_all_wf: "reg_wf r \<Longrightarrow> register_all ulower cs r = (None, r') \<Longrightarrow> reg_wf r'"
  by (induction ulower cs r rule: register_all.induct)
    (auto split: prod.splits option.splits intro: Register_wf)

subsection \<open>Executing a line for a client\<close>

abbreviation call_handler ::
  "('c \<Rightarrow> Context \<Rightarrow> ('z mem_scheme, string option) go) \<Rightarrow> 'c Command \<Rightarrow> Context \<Rightarrow>
     ('z mem_scheme, bool \<times> string option \<times> Context) go" where
  "call_handler run cmd ctx \<equiv> thenG (IncCommand (cmd_Name cmd))
     (bindG (run (cmd_Handler cmd) ctx) (\<lambda>err.
        case err of
          Some e \<Rightarrow> thenG (IncCommandError ''handler'') (ret (True, Some e, ctx))
        | None \<Rightarrow> ret (True, None, ctx)))"

abbreviation counted :: "metric \<Rightarrow> 'z obs_scheme \<Rightarrow> 'z obs_scheme" where
  "counted m w \<equiv> w\<lparr>w_metrics := w_metrics w @ [m]\<rparr>"

text \<open>The branches of \<open>Execute\<close> for a client, with the permission check decided.\<close>

lemma Execute_client:
  assumes "ctx_Client ctx = Some r" and "w_heap w r = Some c"
  shows "Registry_Execute ulower run reg raw ctx w =
    (let line = strings_TrimSpace raw in
     if line = [] \<or> \<not> strings_HasPrefix line ''/'' then (Ret (False, None, ctx), w)
     else case strings_Fields line of
       [] \<Rightarrow> (Ret (True, None, ctx), w)
     | p # args \<Rightarrow> (case Registry_Get ulower reg (strings_TrimPrefix p ''/'') of
         None \<Rightarrow> (Ret (True, Some (''command '' @ strings_TrimPrefix p ''/'' @ '' not found''), ctx),
                   counted (CommandErrorsTotal ''not_found'') w)
       | Some cmd \<Rightarrow>
           if cmd_MinLevel cmd \<le> levelUser \<or> level_allows (cl_Meta c) (cmd_MinLevel cmd)
           then call_handler run cmd (ctx\<lparr>ctx_Args := args\<rparr>) w
           else (Ret (True, Some ''permission denied'', ctx), counted (CommandErrorsTotal ''permission'') w)))"
  using assms
  by (auto simp: Registry_Execute_def Registry_checkPermission_def Let_def bindG_app thenG_app
      IncCommandError_def observe_call_def split: list.splits option.splits)

subsection \<open>Registration\<close>

text \<open>
  C34: registration and lookup. When \<open>Register\<close> succeeds, a lookup under any spelling (white
  space around it, one leading slash, any case) that normalises to the command's name or to one
  of its non-blank aliases returns the command, every other lookup is unchanged, the command is
  appended to the list, its own name finds it, and the name had not been taken.
\<close>

theorem Register_Get:
  assumes "Registry_Register ulower (Some cmd) r = (None, r')"
  shows "(\<forall>name. Registry_Get ulower r' name =
      (if lookup_key ulower name \<in> command_keys ulower cmd then Some cmd else Registry_Get ulower r name)) \<and>
    Registry_List r' = Registry_List r @ [cmd] \<and>
    Registry_Get ulower r' (cmd_Name cmd) = Some cmd \<and> Registry_Get ulower r (cmd_Name cmd) = None"
proof -
  let ?n = "norm_name ulower (cmd_Name cmd)"
  have n: "CHR ''/'' \<notin> set ?n" "reg_byName r ?n = None" using Register_ok_cases [OF assms] by blast+
  have "?n \<in> command_keys ulower cmd" by (simp add: command_keys_def)
  then show ?thesis
    by (simp add: Registry_Get_def Registry_List_def Register_byName [OF assms] lookup_key_name [OF n(1)] n(2))
qed

definition echo_cmd :: "string Command" where
  "echo_cmd = \<lparr>cmd_Name = '' Echo'', cmd_Aliases = [''E'', '' ''], cmd_Help = [], cmd_MinLevel = 0, cmd_Handler = ''h''\<rparr>"

definition echo_reg :: "string Registry" where
  "echo_reg = snd (Registry_Register (\<lambda>r. r) (Some echo_cmd) NewRegistry)"

lemma echo_registered: "Registry_Register (\<lambda>r. r) (Some echo_cmd) NewRegistry = (None, echo_reg)"
proof -
  have "fst (Registry_Register (\<lambda>r. r) (Some echo_cmd) NewRegistry) = None" by code_simp
  then show ?thesis unfolding echo_reg_def by (cases "Registry_Register (\<lambda>r. r) (Some echo_cmd) NewRegistry") simp
qed

theorem Register_Get_witness:
  "Registry_Get (\<lambda>r. r) echo_reg ''/e'' = Some echo_cmd \<and> Registry_List echo_reg = [echo_cmd]"
proof -
  have "norm_name (\<lambda>r. r) ''E'' = ''e''" "norm_name (\<lambda>r. r) '' '' = []" "lookup_key (\<lambda>r. r) ''/e'' = ''e''"
    by code_simp+
  then have "lookup_key (\<lambda>r. r) ''/e'' \<in> command_keys (\<lambda>r. r) echo_cmd"
    by (simp add: command_keys_def echo_cmd_def)
  then show ?thesis using Register_Get [OF echo_registered]
    by (simp add: Registry_List_def NewRegistry_def)
qed

text \<open>
  C35: a failed registration. Whatever the error, the list of commands is unchanged and no
  earlier name loses its command. A nil command, an empty name, a name with a slash and a taken
  name leave the registry exactly as it was. Otherwise the error names an alias that was taken, by the command's own
  name, by one of its earlier aliases or by another command, and the name and the aliases before that one stay bound to the
  rejected command, and nothing else is bound: \<open>List\<close> does not show it, but it is found, and registering it again fails.
\<close>

theorem Register_error:
  assumes "Registry_Register ulower c r = (Some err, r')"
  shows "Registry_List r' = Registry_List r \<and>
    (\<forall>name cmd. Registry_Get ulower r name = Some cmd \<longrightarrow> Registry_Get ulower r' name = Some cmd) \<and>
    (case c of None \<Rightarrow> r' = r | Some cmd \<Rightarrow>
       let n = norm_name ulower (cmd_Name cmd) in
       if n = [] \<or> CHR ''/'' \<in> set n \<or> reg_byName r n \<noteq> None then r' = r
       else \<exists>pre a post. cmd_Aliases cmd = pre @ a # post \<and>
         (norm_name ulower a = n \<or> norm_name ulower a \<in> alias_keys ulower pre \<or> reg_byName r (norm_name ulower a) \<noteq> None) \<and>
         err = ''command alias '' @ norm_name ulower a @ '' already registered'' \<and>
         r' = r\<lparr>reg_byName := (\<lambda>k. if k = n \<or> k \<in> alias_keys ulower pre then Some cmd else reg_byName r k)\<rparr> \<and>
         Registry_Get ulower r' (cmd_Name cmd) = Some cmd \<and>
         (\<exists>e. Registry_Register ulower c r' = (Some e, r')))"
proof (cases c)
  case None
  then show ?thesis using assms by (simp add: Registry_Register_def)
next
  case (Some cmd)
  let ?n = "norm_name ulower (cmd_Name cmd)"
  show ?thesis
  proof (cases "?n = [] \<or> CHR ''/'' \<in> set ?n \<or> reg_byName r ?n \<noteq> None")
    case True
    then have "r' = r" using assms Some by (auto simp: Registry_Register_def Let_def Contains_singleton split: if_splits)
    then show ?thesis using True Some by simp
  next
    case False
    then have al: "register_aliases ulower cmd (cmd_Aliases cmd) (reg_put ?n cmd r) = (Some err, r')"
      using assms Some by (auto simp: Registry_Register_def Let_def Contains_singleton split: prod.splits option.splits)
    from register_aliases_error [OF al] obtain pre a post where
      a: "cmd_Aliases cmd = pre @ a # post" "err = ''command alias '' @ norm_name ulower a @ '' already registered''"
        "norm_name ulower a = ?n \<or> norm_name ulower a \<in> alias_keys ulower pre \<or> reg_byName r (norm_name ulower a) \<noteq> None"
      and r': "r' = bind_keys (insert ?n (alias_keys ulower pre)) cmd r"
      by (auto simp: bind_keys_put split: if_splits)
    have key: "lookup_key ulower (cmd_Name cmd) = ?n" using False by (intro lookup_key_name) simp
    have n: "reg_byName r' ?n = Some cmd" using r' by (simp add: bind_keys_def)
    have keeps: "reg_byName r' k = Some d" if "reg_byName r k = Some d" for k d
      using register_aliases_keeps [OF al reg_put_keeps [OF _ that]] False by simp
    have again: "\<exists>e. Registry_Register ulower c r' = (Some e, r')"
      using n False Some by (simp add: Registry_Register_def Let_def Contains_singleton)
    have "\<exists>pre a post. cmd_Aliases cmd = pre @ a # post \<and>
         (norm_name ulower a = ?n \<or> norm_name ulower a \<in> alias_keys ulower pre \<or> reg_byName r (norm_name ulower a) \<noteq> None) \<and>
         err = ''command alias '' @ norm_name ulower a @ '' already registered'' \<and>
         r' = r\<lparr>reg_byName := (\<lambda>k. if k = ?n \<or> k \<in> alias_keys ulower pre then Some cmd else reg_byName r k)\<rparr> \<and>
         Registry_Get ulower r' (cmd_Name cmd) = Some cmd \<and> (\<exists>e. Registry_Register ulower c r' = (Some e, r'))"
      using a r' key n again by (intro exI [of _ pre] exI [of _ a] exI [of _ post]) (simp add: bind_keys_def Registry_Get_def)
    then show ?thesis using register_aliases_list [OF al] keeps False Some
      by (simp only: option.case Let_def if_False) (simp add: Registry_List_def Registry_Get_def)
  qed
qed

definition clash_cmd :: "string Command" where
  "clash_cmd = \<lparr>cmd_Name = ''say'', cmd_Aliases = [''echo''], cmd_Help = [], cmd_MinLevel = 0, cmd_Handler = ''h''\<rparr>"

theorem Register_error_witness:
  "\<exists>err r'. Registry_Register (\<lambda>r. r) (Some clash_cmd) echo_reg = (Some err, r') \<and>
     Registry_List r' = Registry_List echo_reg \<and> Registry_Get (\<lambda>r. r) r' ''say'' = Some clash_cmd"
proof -
  let ?x = "Registry_Register (\<lambda>r. r) (Some clash_cmd) echo_reg"
  have "fst ?x = Some ''command alias echo already registered''" by code_simp
  then have x: "?x = (Some ''command alias echo already registered'', snd ?x)" by (simp add: prod_eq_iff)
  have "Registry_Get (\<lambda>r. r) (snd ?x) ''say'' = Some clash_cmd" by code_simp
  with Register_error [OF x] x show ?thesis by blast
qed

end
