(* ===== verification/Command_Invariants.thy ===== *)
theory Command_Invariants
  imports Registry_Properties Subscriber_Properties
begin

section \<open>What the commands keep\<close>

text \<open>
  The interface between the registry and the handlers it calls (\<open>command_runtime\<close>): a handler
  keeps the service's invariant, also when it panics. \<open>Execute\<close> then keeps it, and so does the
  whole service when command lines interleave with every other step (\<open>service_step\<close>). The
  second part bounds what a user without the administrator level can change.
\<close>

subsection \<open>The invariant of the service\<close>

lemma sys_inv_ret [inv_rules]: "sys_inv w \<Longrightarrow> sys_inv (snd (ret x w))"
  by simp

lemma sys_inv_panicG [inv_rules]: "sys_inv w \<Longrightarrow> sys_inv (snd (panicG p w))"
  by simp

lemma sys_inv_setClient:
  assumes "sys_inv w" and "w_heap w r = Some c" and "client_ok c'" and "cl_ID c' = cl_ID c" and "is_open c' = is_open c"
  shows "sys_inv (snd (setClient r c' w))"
proof -
  have "hub_ok (w\<lparr>w_heap := (w_heap w)(r \<mapsto> c')\<rparr>)"
    using assms hub_okD(2) [OF sys_invD(1) [OF assms(1)]]
    by (intro hub_ok_heap_only [OF sys_invD(1) [OF assms(1)]]) (auto simp: heap_ok_upd)
  then show ?thesis using assms(1) by (simp add: setClient_def sys_inv_def gauge_ok_def)
qed

lemma sys_inv_checkPermission [inv_rules]: "sys_inv w \<Longrightarrow> sys_inv (snd (Registry_checkPermission c need w))"
  unfolding Registry_checkPermission_def
  by (cases c) (auto intro: sys_inv_withClient)

locale command_runtime =
  fixes run :: "'c \<Rightarrow> Context \<Rightarrow> ('h world, string option) go"
  assumes run_keeps: "sys_inv w \<Longrightarrow> sys_inv (snd (run h ctx w))"
begin

lemma Execute_keeps:
  assumes "sys_inv w"
  shows "sys_inv (snd (Registry_Execute ulower run r raw ctx w))"
  unfolding Registry_Execute_def IncCommandError_def IncCommand_def
  by (auto simp: Let_def assms split: list.splits option.splits
      intro!: sys_inv_bindG sys_inv_thenG sys_inv_observe sys_inv_checkPermission run_keeps)

end

lemma ctx_Send_inv [inv_rules]: "sys_inv w \<Longrightarrow> sys_inv (snd (ctx_Send ctx m w))"
  by (cases "ctx_Client ctx") (auto simp: ctx_Send_def intro: sys_inv_Send)

lemma ctx_withClient_inv [inv_rules]:
  assumes "\<And>r c. ctx_Client ctx = Some r \<Longrightarrow> w_heap w r = Some c \<Longrightarrow> sys_inv (snd (f r c w))" and "sys_inv w"
  shows "sys_inv (snd (ctx_withClient ctx f w))"
  using assms by (cases "ctx_Client ctx") (auto simp: ctx_withClient_def intro: sys_inv_withClient)

lemma ListNames_inv: "sys_inv w \<Longrightarrow> sys_inv (snd (Hub_ListNames w))"
  unfolding Hub_ListNames_def list_body_def [abs_def] by (rule sys_inv_Range) (auto intro: sys_inv_withClient)

lemma ensure_meta_simps [simp]:
  "cl_ID (ensure_meta c) = cl_ID c" "cl_out (ensure_meta c) = cl_out c" "cl_Name (ensure_meta c) = cl_Name c"
  "client_ok (ensure_meta c) = client_ok c"
  by (simp_all add: ensure_meta_def client_ok_def)

lemma auth_body_inv:
  assumes "sys_inv w" and "w_heap w r = Some c"
  shows "sys_inv (snd (auth_body ctx a r c w))"
proof -
  have ok: "client_ok c" using heap_okD [OF hub_okD(2) [OF sys_invD(1) [OF assms(1)]] assms(2)] .
  have "sys_inv (snd (set_level r a c w))" unfolding set_level_def
    by (rule sys_inv_setClient [OF assms]) (use ok in \<open>simp_all add: client_ok_def\<close>)
  then show ?thesis using assms(1)
    by (auto simp: auth_body_def errorf_def nil_def intro!: sys_inv_thenG ctx_Send_inv)
qed

lemma auth_run_inv:
  assumes "sys_inv w"
  shows "sys_inv (snd (auth_run ctx w))"
proof (cases "\<exists>a. ctx_Args ctx = [a]")
  case False
  then show ?thesis using assms by (auto simp: auth_run_def errorf_def split: list.splits)
next
  case True
  then obtain a where a: "ctx_Args ctx = [a]" by blast
  show ?thesis unfolding auth_run_def a list.case
  proof (rule ctx_withClient_inv [OF _ assms])
    fix r c
    assume c: "w_heap w r = Some c"
    let ?w1 = "w\<lparr>w_heap := (w_heap w)(r \<mapsto> ensure_meta c)\<rparr>"
    have "client_ok c" using heap_okD [OF hub_okD(2) [OF sys_invD(1) [OF assms]] c] .
    then have "sys_inv ?w1"
      using sys_inv_setClient [OF assms c, of "ensure_meta c"] by (simp add: setClient_def)
    then show "sys_inv (snd (thenG (setClient r (ensure_meta c)) (auth_body ctx a r (ensure_meta c)) w))"
      by (simp add: setClient_def auth_body_inv)
  qed
qed

lemma builtin_run_inv:
  assumes "sys_inv w"
  shows "sys_inv (snd (builtin_run scan_err_text now reg b ctx w))"
proof (cases b)
  case BAuth
  then show ?thesis using auth_run_inv [OF assms] by (simp add: builtin_run_def)
next
  case BQuit
  then show ?thesis using assms
    by (auto simp: builtin_run_def quit_run_def nil_def split: option.splits
        intro!: sys_inv_thenG ctx_Send_inv sys_inv_Unregister)
next
  case BWho
  then show ?thesis using assms
    by (auto simp: builtin_run_def who_run_def nil_def intro!: sys_inv_bindG sys_inv_thenG ctx_Send_inv ListNames_inv)
next
  case BKick
  then show ?thesis using assms
    by (auto simp: builtin_run_def kick_run_def nil_def errorf_def split: list.splits
        intro!: sys_inv_bindG sys_inv_thenG ctx_Send_inv sys_inv_KickByName)
next
  case BBan
  then show ?thesis using assms
    by (auto simp: builtin_run_def ban_run_def nil_def errorf_def split: list.splits option.splits
        intro!: sys_inv_thenG ctx_Send_inv sys_inv_BanFor)
qed (use assms in \<open>auto simp: builtin_run_def help_run_def msg_run_def notice_run_def ping_run_def
    sendfile_run_def nil_def errorf_def Let_def split: list.splits sum.splits
    intro!: sys_inv_thenG ctx_Send_inv ctx_withClient_inv sys_inv_Emit\<close>)

interpretation builtins: command_runtime "builtin_run scan_err_text now reg" for scan_err_text now reg
  by unfold_locales (rule builtin_run_inv)


subsection \<open>What a command of the user level changes\<close>

text \<open>
  \<open>user_frame r k B L\<close>: the client \<open>r\<close> has id \<open>k\<close>, the ban list is \<open>B\<close> and the client map is
  \<open>L\<close> except perhaps at \<open>k\<close>.
\<close>

definition user_frame ::
  "cref \<Rightarrow> string \<Rightarrow> (string \<rightharpoonup> Time) \<Rightarrow> (string \<Rightarrow> cref option) \<Rightarrow> ('h, 'z) world_scheme \<Rightarrow> bool" where
  "user_frame r k B L w \<longleftrightarrow> syncmap_ok (hub_clients (w_hub w)) \<and> hub_banned (w_hub w) = B \<and>
     (\<forall>j. j \<noteq> k \<longrightarrow> Load (hub_clients (w_hub w)) j = L j) \<and>
     (\<forall>c. w_heap w r = Some c \<longrightarrow> cl_ID c = k)"

lemma user_frame_cong:
  assumes "user_frame r k B L w" and "w_hub w' = w_hub w"
    and "\<And>c'. w_heap w' r = Some c' \<Longrightarrow> \<exists>c. w_heap w r = Some c \<and> cl_ID c' = cl_ID c"
  shows "user_frame r k B L w'"
proof -
  have "cl_ID c' = k" if "w_heap w' r = Some c'" for c'
    using assms(3) [OF that] assms(1) by (auto simp: user_frame_def)
  then show ?thesis using assms(1,2) by (simp add: user_frame_def)
qed

lemma user_frame_metrics [simp]: "user_frame r k B L (w\<lparr>w_metrics := ms\<rparr>) = user_frame r k B L w"
  by (simp add: user_frame_def)

lemma frame_thenG:
  assumes "user_frame r k B L (snd (m w))" and "\<And>w'. user_frame r k B L w' \<Longrightarrow> user_frame r k B L (snd (n w'))"
  shows "user_frame r k B L (snd (thenG m n w))"
  by (rule thenG_preserves [where P = "user_frame r k B L" and m = m and n = n and w = w, OF assms])

lemma frame_bindG:
  assumes "user_frame r k B L (snd (m w))" and "\<And>x w'. user_frame r k B L w' \<Longrightarrow> user_frame r k B L (snd (f x w'))"
  shows "user_frame r k B L (snd (bindG m f w))"
  by (rule bindG_preserves [where P = "user_frame r k B L" and m = m and f = f and w = w, OF assms(1)]) (rule assms(2))

lemma frame_observe: "user_frame r k B L w \<Longrightarrow> user_frame r k B L (snd (observe_call m w))"
  by (simp add: observe_call_def user_frame_def)

lemma frame_Emit: "user_frame r k B L w \<Longrightarrow> user_frame r k B L (snd (Hub_Emit e w))"
  by (simp add: Emit_eq user_frame_def)

lemma Send_keeps_ID:
  "w_heap (snd (Client_Send q m w)) r = Some c' \<Longrightarrow> \<exists>c. w_heap w r = Some c \<and> cl_ID c' = cl_ID c"
  by (auto simp: go_simps split: option.splits send_result.splits if_splits)

lemma frame_ctx_Send: "user_frame r k B L w \<Longrightarrow> user_frame r k B L (snd (ctx_Send ctx m w))"
  by (cases "ctx_Client ctx")
    (auto simp: ctx_Send_def send_keeps_hub intro: user_frame_cong dest: Send_keeps_ID)

lemma frame_setClient:
  assumes "user_frame r k B L w" and "w_heap w r = Some c" and "cl_ID c' = cl_ID c"
  shows "user_frame r k B L (snd (setClient r c' w))"
  by (rule user_frame_cong [OF assms(1)]) (use assms in \<open>auto simp: setClient_def\<close>)

lemma frame_ctx_withClient:
  assumes "user_frame r k B L w"
    and "\<And>q c. ctx_Client ctx = Some q \<Longrightarrow> w_heap w q = Some c \<Longrightarrow> user_frame r k B L (snd (f q c w))"
  shows "user_frame r k B L (snd (ctx_withClient ctx f w))"
  using assms by (cases "ctx_Client ctx") (auto simp: ctx_withClient_def withClient_def split: option.splits)

lemma Close_keeps: "w_hub (snd (Client_Close q w)) = w_hub w"
  by (auto simp: go_simps Let_def split: option.splits)

lemma Close_keeps_ID:
  "w_heap (snd (Client_Close q w)) r = Some c' \<Longrightarrow> \<exists>c. w_heap w r = Some c \<and> cl_ID c' = cl_ID c"
  by (auto simp: go_simps Let_def split: option.splits if_splits)

lemma frame_Close: "user_frame r k B L w \<Longrightarrow> user_frame r k B L (snd (Client_Close q w))"
  by (rule user_frame_cong) (auto simp: Close_keeps dest: Close_keeps_ID)

lemma frame_Unregister:
  assumes "user_frame r k B L w"
  shows "user_frame r k B L (snd (Hub_UnregisterClient now r w))"
proof (cases "w_heap w r")
  case None
  then show ?thesis using assms by (simp add: Hub_UnregisterClient_def)
next
  case (Some c)
  then have k: "cl_ID c = k" using assms by (simp add: user_frame_def)
  have "user_frame r k B L (w\<lparr>w_hub := (w_hub w)\<lparr>hub_clients := Delete k (hub_clients (w_hub w))\<rparr>\<rparr>)"
    using assms by (auto simp: user_frame_def syncmap.ok_delete syncmap.load_delete)
  then show ?thesis using Some k assms
    by (auto simp: Hub_UnregisterClient_def modifyHub_def AddOnline_def split: option.splits
        intro!: frame_thenG frame_Close frame_Emit frame_observe)
qed

lemma ListNames_keeps: "g (snd (Hub_ListNames w)) = g w"
  unfolding Hub_ListNames_def list_body_def [abs_def]
  by (rule Range_keeps) (simp add: withClient_def split: option.splits)

lemma ListNames_same: "snd (Hub_ListNames w) = w"
  by (rule ListNames_keeps [where g = "\<lambda>w. w"])

lemma frame_auth_body:
  assumes "user_frame r k B L w" and "w_heap w r = Some c"
  shows "user_frame r k B L (snd (auth_body ctx a r c w))"
  using assms
  by (auto simp: auth_body_def errorf_def nil_def set_level_def intro!: frame_thenG frame_ctx_Send frame_setClient)

lemma frame_auth:
  assumes "user_frame r k B L w" and "ctx_Client ctx = Some r"
  shows "user_frame r k B L (snd (auth_run ctx w))"
proof -
  have "user_frame r k B L (snd (thenG (setClient r (ensure_meta c)) (auth_body ctx a r (ensure_meta c)) w))"
    if "w_heap w r = Some c" for a c
    using frame_setClient [OF assms(1) that, of "ensure_meta c"]
    by (simp add: setClient_def frame_auth_body)
  then show ?thesis using assms
    by (auto simp: auth_run_def errorf_def split: list.splits intro!: frame_ctx_withClient)
qed

lemma frame_builtin:
  assumes "user_frame r k B L w" and "ctx_Client ctx = Some r" and "b \<noteq> BKick" and "b \<noteq> BBan"
  shows "user_frame r k B L (snd (builtin_run scan_err_text now reg b ctx w))"
proof (cases b)
  case BAuth
  then show ?thesis using frame_auth [OF assms(1,2)] by (simp add: builtin_run_def)
next
  case BQuit
  then show ?thesis using assms
    by (auto simp: builtin_run_def quit_run_def nil_def intro!: frame_thenG frame_ctx_Send frame_Unregister)
next
  case BWho
  then show ?thesis using assms
    by (auto simp: builtin_run_def who_run_def nil_def ListNames_same intro!: frame_bindG frame_thenG frame_ctx_Send)
qed (use assms in \<open>auto simp: builtin_run_def help_run_def msg_run_def notice_run_def ping_run_def
    sendfile_run_def nil_def errorf_def Let_def split: list.splits sum.splits
    intro!: frame_thenG frame_ctx_Send frame_ctx_withClient frame_Emit\<close>)

end
