(* ===== verification/Command_Properties.thy ===== *)
theory Command_Properties
  imports Command_Invariants
begin

section \<open>Properties of the commands\<close>

text \<open>
  The built-in commands register, keep the service's invariant in every interleaving, and a user
  without the administrator level can neither ban nor remove anybody else. The moderation
  commands do what they say, with the two exceptions the code has: a ban of too many minutes
  becomes permanent, and kicking oneself panics.
\<close>

subsection \<open>The registered commands\<close>

definition builtin_reg :: "(rune \<Rightarrow> rune) \<Rightarrow> builtin Registry" where
  "builtin_reg ulower = snd (RegisterBuiltins ulower NewRegistry)"

text \<open>
  The built-in commands. \<open>RegisterBuiltins\<close> on a new registry succeeds, whatever the
  lower-case table beyond ASCII; \<open>List\<close> shows the ten commands in order, each is found under its
  own name, exactly \<open>kick\<close> and \<open>ban\<close> need the administrator level, and registering the built-ins
  a second time is refused.
\<close>

theorem RegisterBuiltins_ok:
  "fst (RegisterBuiltins ulower NewRegistry) = None \<and>
   Registry_List (builtin_reg ulower) = builtin_commands \<and>
   list_all (\<lambda>c. Registry_Get ulower (builtin_reg ulower) (cmd_Name c) = Some c) builtin_commands \<and>
   map cmd_Name (filter (\<lambda>c. levelUser < cmd_MinLevel c) builtin_commands) = [''kick'', ''ban''] \<and>
   RegisterBuiltins ulower (builtin_reg ulower) = (Some ''command help already registered'', builtin_reg ulower)"
proof (intro conjI)
  show "fst (RegisterBuiltins ulower NewRegistry) = None" by code_simp
  show "Registry_List (builtin_reg ulower) = builtin_commands" by code_simp
  show "list_all (\<lambda>c. Registry_Get ulower (builtin_reg ulower) (cmd_Name c) = Some c) builtin_commands"
    by code_simp
  show "map cmd_Name (filter (\<lambda>c. levelUser < cmd_MinLevel c) builtin_commands) = [''kick'', ''ban'']"
    by code_simp
  have "norm_name ulower ''help'' = ''help''" "\<not> strings_Contains ''help'' ''/''" by code_simp+
  moreover have "reg_byName (builtin_reg ulower) ''help'' \<noteq> None" by code_simp
  ultimately show "RegisterBuiltins ulower (builtin_reg ulower) =
      (Some ''command help already registered'', builtin_reg ulower)"
    by (simp add: RegisterBuiltins_def builtin_commands_def Registry_Register_def mk_cmd_def Let_def)
qed


lemma builtin_reg_register: "register_all ulower builtin_commands NewRegistry = (None, builtin_reg ulower)"
proof -
  have "fst (RegisterBuiltins ulower NewRegistry) = None" by code_simp
  then show ?thesis by (simp add: builtin_reg_def RegisterBuiltins_def prod_eq_iff)
qed

lemma builtin_reg_list: "reg_list (builtin_reg ulower) = builtin_commands"
  by code_simp

lemma builtin_reg_get:
  assumes "Registry_Get ulower (builtin_reg ulower) n = Some c"
  shows "c \<in> set builtin_commands"
proof -
  have "reg_wf (builtin_reg ulower)"
    by (rule register_all_wf [OF NewRegistry_wf builtin_reg_register])
  then show ?thesis using assms
    by (auto simp: reg_wf_def builtin_reg_list Registry_Get_def ran_def)
qed

lemma builtin_level:
  "c \<in> set builtin_commands \<Longrightarrow> cmd_MinLevel c \<le> levelUser \<Longrightarrow> cmd_Handler c \<noteq> BKick \<and> cmd_Handler c \<noteq> BBan"
  by (auto simp: builtin_commands_def mk_cmd_def levelUser_def levelAdmin_def)

lemma builtin_level_cases:
  "c \<in> set builtin_commands \<Longrightarrow> cmd_MinLevel c \<le> levelUser \<or> cmd_MinLevel c = levelAdmin"
  by (auto simp: builtin_commands_def mk_cmd_def levelUser_def levelAdmin_def)

subsection \<open>Users cannot moderate\<close>

text \<open>
  C17: a user cannot moderate. Whatever line a client without the administrator level sends,
  executing it, whether it returns or panics, leaves the ban list as it was and keeps every
  entry of the client map except possibly the client's own: nobody is banned and nobody else is
  removed.
\<close>

theorem user_cannot_moderate:
  assumes "syncmap_ok (hub_clients (w_hub w))" and "w_heap w r = Some c" and "ctx_Client ctx = Some r"
    and "\<not> level_allows (cl_Meta c) levelAdmin"
    and "w' = snd (Registry_Execute ulower (builtin_run scan_err_text now (builtin_reg ulower))
      (builtin_reg ulower) raw ctx w)"
  shows "hub_banned (w_hub w') = hub_banned (w_hub w) \<and>
    (\<forall>j. j \<noteq> cl_ID c \<longrightarrow> Load (hub_clients (w_hub w')) j = Load (hub_clients (w_hub w)) j)"
proof -
  let ?F = "user_frame r (cl_ID c) (hub_banned (w_hub w)) (Load (hub_clients (w_hub w)))"
  have start: "?F w" using assms(1,2) by (simp add: user_frame_def)
  have handler: "?F (snd (builtin_run scan_err_text now (builtin_reg ulower) (cmd_Handler cmd) (ctx\<lparr>ctx_Args := args\<rparr>) v))"
    if "?F v" "cmd \<in> set builtin_commands" "cmd_MinLevel cmd \<le> levelUser" for cmd args v
    using that builtin_level assms(3) by (intro frame_builtin) auto
  have lvl: "cmd_MinLevel cmd \<le> levelUser"
    if "Registry_Get ulower (builtin_reg ulower) n = Some cmd" "level_allows (cl_Meta c) (cmd_MinLevel cmd)" for n cmd
    using builtin_level_cases [OF builtin_reg_get [OF that(1)]] that(2) assms(4) by auto
  have "?F w'" unfolding assms(5) Execute_client [OF assms(3,2)] IncCommandError_def IncCommand_def
    using start assms(4)
    by (auto simp: Let_def split: list.splits option.splits
        dest: builtin_reg_get intro!: frame_thenG frame_bindG frame_observe handler intro: lvl)
  then show ?thesis by (simp add: user_frame_def)
qed


definition demo_ctx :: Context where
  "demo_ctx = \<lparr>ctx_Client = Some 2, ctx_Args = [], ctx_Raw = []\<rparr>"

theorem user_cannot_moderate_witness:
  "hub_banned (w_hub (snd (Registry_Execute (\<lambda>r. r) (builtin_run (\<lambda>_. []) 9 (builtin_reg (\<lambda>r. r)))
      (builtin_reg (\<lambda>r. r)) ''/ban bob'' demo_ctx (demo_world :: nat world)))) ''bob'' = None"
proof -
  have "syncmap_ok (hub_clients (w_hub (demo_world :: nat world)))" by (rule hub_okD(1) [OF demo_world_ok])
  moreover have "\<not> level_allows (cl_Meta (demo_client ''a'' ''alice'' 1)) levelAdmin"
    by (simp add: level_allows_def demo_client_def NewClientWithBuffer_def Let_def)
  ultimately have "hub_banned (w_hub (snd (Registry_Execute (\<lambda>r. r) (builtin_run (\<lambda>_. []) 9 (builtin_reg (\<lambda>r. r)))
      (builtin_reg (\<lambda>r. r)) ''/ban bob'' demo_ctx (demo_world :: nat world)))) =
      hub_banned (w_hub (demo_world :: nat world))"
    using user_cannot_moderate [of "demo_world :: nat world" 2 "demo_client ''a'' ''alice'' 1" demo_ctx _
        "\<lambda>r. r" "\<lambda>_. []" 9 "''/ban bob''"] by (simp add: demo_ctx_def)
  then show ?thesis by (simp add: demo_world_eq NewHub_def)
qed

subsection \<open>Dispatch\<close>

text \<open>A line of blank-separated words runs the command of its first word.\<close>

lemma Execute_words:
  assumes "list_all plain_word ((CHR ''/'' # name) # args)" and "Registry_Get ulower reg name = Some cmd"
    and "ctx_Client ctx = Some r" and "w_heap w r = Some c"
    and "cmd_MinLevel cmd \<le> levelUser \<or> level_allows (cl_Meta c) (cmd_MinLevel cmd)"
  shows "Registry_Execute ulower run reg (strings_Join ((CHR ''/'' # name) # args) '' '') ctx w =
    call_handler run cmd (ctx\<lparr>ctx_Args := args\<rparr>) w"
proof -
  let ?ws = "(CHR ''/'' # name) # args"
  let ?l = "strings_Join ?ws '' ''"
  have trim: "strings_TrimSpace ?l = ?l" by (rule TrimSpace_Join) (use assms in simp_all)
  have "?l \<noteq> [] \<and> hd ?l = CHR ''/''" using Join_ends [of ?ws] assms by simp
  then have "?l \<noteq> []" "strings_HasPrefix ?l ''/''"
    by (cases ?l; simp add: strings_HasPrefix_def)+
  moreover have "strings_TrimPrefix (CHR ''/'' # name) ''/'' = name"
    by (simp add: strings_TrimPrefix_def strings_HasPrefix_def)
  ultimately show ?thesis
    using assms Fields_Join [OF assms(1)]
    by (simp add: Execute_client [OF assms(3,4)] trim Let_def del: strings_Join.simps)
qed

text \<open>
  C36: dispatch. For every registry and every way to call handlers, a line made of a slash, a
  registered name and blank-separated words, sent by a client with the needed level, is handled:
  exactly that command's handler runs, once, with exactly those words as arguments, after the
  command was counted; its error is returned and counted, and a nil error is returned as such.
\<close>

theorem Execute_dispatch:
  assumes "list_all plain_word ((CHR ''/'' # name) # args)" and "Registry_Get ulower reg name = Some cmd"
    and "ctx_Client ctx = Some r" and "w_heap w r = Some c"
    and "cmd_MinLevel cmd \<le> levelUser \<or> level_allows (cl_Meta c) (cmd_MinLevel cmd)"
    and "run (cmd_Handler cmd) (ctx\<lparr>ctx_Args := args\<rparr>) (counted (CommandsTotal (cmd_Name cmd)) w) = (Ret err, w')"
  shows "Registry_Execute ulower run reg (strings_Join ((CHR ''/'' # name) # args) '' '') ctx w =
    (Ret (True, err, ctx\<lparr>ctx_Args := args\<rparr>),
     if err = None then w' else counted (CommandErrorsTotal ''handler'') w')"
  unfolding Execute_words [OF assms(1-5)] using assms(6)
  by (cases err) (simp_all add: IncCommand_def IncCommandError_def observe_call_def)

theorem Execute_dispatch_witness:
  "Registry_Execute (\<lambda>r. r) (\<lambda>h ctx. ret (if ctx_Args ctx = [''hi''] then Some h else None)) echo_reg
     ''/ECHO hi'' demo_ctx (demo_world :: nat world) =
   (Ret (True, Some ''h'', demo_ctx\<lparr>ctx_Args := [''hi'']\<rparr>),
    counted (CommandErrorsTotal ''handler'') (counted (CommandsTotal '' Echo'') demo_world))"
proof -
  have ws: "list_all plain_word ((CHR ''/'' # ''ECHO'') # [''hi''])" by code_simp
  have get: "Registry_Get (\<lambda>r. r) echo_reg ''ECHO'' = Some echo_cmd" by code_simp
  have cl: "ctx_Client demo_ctx = Some 2" by (simp add: demo_ctx_def)
  from Execute_dispatch [OF ws get cl demo_names(1), where err = "Some ''h''" and
      run = "\<lambda>h ctx. ret (if ctx_Args ctx = [''hi''] then Some h else None)" and
      w' = "counted (CommandsTotal '' Echo'') (demo_world :: nat world)"]
  show ?thesis by (simp add: echo_cmd_def levelUser_def)
qed

subsection \<open>Bans\<close>

lemma plain_digits: "0 \<le> k \<Longrightarrow> plain_word (strconv_Itoa k)"
  using int_digits_digits [of k]
  by (auto simp: strconv_Itoa_def plain_word_def int_digits_nonempty plain_char_def list_all_iff dest: is_digit_ascii)

lemma ban_duration_Itoa:
  "0 \<le> k \<Longrightarrow> k < 2 ^ 63 \<Longrightarrow> ban_duration [strconv_Itoa k] = Some (of_int k * time_Minute)"
  by (simp add: ban_duration_def Sscan_Itoa)

lemma builtin_get_ban:
  "Registry_Get ulower (builtin_reg ulower) ''ban'' =
     Some (mk_cmd ''ban'' (cmd_Help (builtin_commands ! 5)) levelAdmin BBan)"
  by code_simp

lemma builtin_get_kick:
  "Registry_Get ulower (builtin_reg ulower) ''kick'' =
     Some (mk_cmd ''kick'' (cmd_Help (builtin_commands ! 4)) levelAdmin BKick)"
  by code_simp

abbreviation execute_builtin ::
  "(rune \<Rightarrow> rune) \<Rightarrow> (scan_err \<Rightarrow> string) \<Rightarrow> Time \<Rightarrow> string list \<Rightarrow> Context \<Rightarrow>
     (('h, 'z) world_scheme, bool \<times> string option \<times> Context) go" where
  "execute_builtin ulower scan_err_text now ws ctx \<equiv>
     Registry_Execute ulower (builtin_run scan_err_text now (builtin_reg ulower)) (builtin_reg ulower)
       (strings_Join ws '' '') ctx"

text \<open>What \<open>/ban name minutes\<close> does for an administrator whose connection is open.\<close>

lemma Execute_ban:
  assumes "plain_word name" and "0 \<le> k" and "k < 2 ^ 63" and "ctx_Client ctx = Some r"
    and "w_heap w r = Some c" and "is_open c" and "level_allows (cl_Meta c) levelAdmin"
  shows "\<exists>w'. execute_builtin ulower scan_err_text now [''/ban'', name, strconv_Itoa k] ctx w =
      (Ret (True, None, ctx\<lparr>ctx_Args := [name, strconv_Itoa k]\<rparr>), w') \<and>
    w_hub w' = w_hub (snd (Hub_BanFor now name (of_int k * time_Minute) w)) \<and>
    w_heap w' = (w_heap w)(r \<mapsto> push_msg (ban_reply name (of_int k * time_Minute)) c)"
proof -
  have slash: "plain_word (CHR ''/'' # ''ban'')" by code_simp
  have ws: "list_all plain_word ((CHR ''/'' # ''ban'') # [name, strconv_Itoa k])"
    using slash assms(1) plain_digits [OF assms(2)] by simp
  let ?w1 = "snd (Hub_BanFor now name (of_int k * time_Minute) (counted (CommandsTotal ''ban'') w))"
  have "w_heap ?w1 r = Some c" using assms(5) by (simp add: Hub_BanFor_def modifyHub_def)
  note send = Send_open [OF this assms(6)]
  let ?ctx = "ctx\<lparr>ctx_Args := [name, strconv_Itoa k]\<rparr>"
  have "execute_builtin ulower scan_err_text now [''/ban'', name, strconv_Itoa k] ctx w =
      call_handler (builtin_run scan_err_text now (builtin_reg ulower))
        (mk_cmd ''ban'' (cmd_Help (builtin_commands ! 5)) levelAdmin BBan) ?ctx w"
    by (rule Execute_words [OF ws builtin_get_ban assms(4,5)]) (simp add: mk_cmd_def assms)
  moreover have "ban_run now ?ctx (counted (CommandsTotal ''ban'') w) = (Ret None, ?w1\<lparr>
      w_heap := (w_heap w)(r \<mapsto> push_msg (ban_reply name (of_int k * time_Minute)) c),
      w_metrics := w_metrics ?w1 @ drop_calls c\<rparr>)"
    using assms(2-4) send
    by (simp add: ban_run_def ban_duration_Itoa Hub_BanFor_def modifyHub_def ctx_Send_def nil_def thenG_app)
  ultimately show ?thesis
    by (simp add: mk_cmd_def IncCommand_def observe_call_def thenG_app bindG_app builtin_run_def
        Hub_BanFor_def modifyHub_def del: strings_Join.simps)
qed


text \<open>
  C37: banning. \<open>/ban name m\<close> by an administrator, for any number of minutes from 1 to 153722867
  written in decimal, is handled without error: the name is banned until exactly \<open>m\<close> minutes from
  now, no other ban changes, and the reply names the user and the \<open>m\<close> minutes.
\<close>

theorem ban_command:
  assumes "plain_word name" and "1 \<le> k" and "k \<le> 153722867" and "ctx_Client ctx = Some r"
    and "w_heap w r = Some c" and "is_open c" and "level_allows (cl_Meta c) levelAdmin"
  shows "\<exists>w'. execute_builtin ulower scan_err_text now [''/ban'', name, strconv_Itoa k] ctx w =
      (Ret (True, None, ctx\<lparr>ctx_Args := [name, strconv_Itoa k]\<rparr>), w') \<and>
    hub_banned (w_hub w') = (hub_banned (w_hub w))(name \<mapsto> now + k * 60000000000) \<and>
    w_heap w' = (w_heap w)(r \<mapsto> push_msg (utf8 [0xE5, 0xB7, 0xB2, 0xE5, 0xB0, 0x81, 0xE7, 0xA6, 0x81] @ '' '' @ name @ '' '' @ strconv_Itoa k @ '' '' @ utf8 [0xE5, 0x88, 0x86, 0xE9, 0x92, 0x9F]) c)"
proof -
  have d: "sint (of_int k * time_Minute) = k * 60000000000" by (rule sint_minutes) (use assms in simp_all)
  then have nz: "of_int k * time_Minute \<noteq> 0" using assms(2) by auto
  have m: "f64_int (Duration_Minutes (of_int k * time_Minute)) = k" by (rule Minutes_exact) (use assms in simp_all)
  have "0 \<le> k" "k < 2 ^ 63" using assms by simp_all
  from Execute_ban [OF assms(1) this assms(4-7), of ulower scan_err_text now] obtain w' where
    w': "execute_builtin ulower scan_err_text now [''/ban'', name, strconv_Itoa k] ctx w =
      (Ret (True, None, ctx\<lparr>ctx_Args := [name, strconv_Itoa k]\<rparr>), w')"
    "w_hub w' = w_hub (snd (Hub_BanFor now name (of_int k * time_Minute) w))"
    "w_heap w' = (w_heap w)(r \<mapsto> push_msg (ban_reply name (of_int k * time_Minute)) c)" by blast
  have "hub_banned (w_hub w') = (hub_banned (w_hub w))(name \<mapsto> now + k * 60000000000)"
    using d assms(2) by (simp add: w'(2) Hub_BanFor_def modifyHub_def Time_Add_def)
  then show ?thesis using w'(1,3) nz m by (simp add: ban_reply_def del: strings_Join.simps)
qed

definition admin_client :: Client where
  "admin_client = (demo_client ''a'' ''alice'' 4)\<lparr>cl_Meta := Some [''level'' \<mapsto> ''1'']\<rparr>"

definition admin_world :: "nat world" where
  "admin_world = (demo_world :: nat world)\<lparr>w_heap := (w_heap (demo_world :: nat world))(2 \<mapsto> admin_client)\<rparr>"

lemma admin_client_facts:
  "w_heap admin_world 2 = Some admin_client" "is_open admin_client" "client_ok admin_client"
  "cl_ID admin_client = ''a''" "cl_Name admin_client = ''alice''"
  "level_allows (cl_Meta admin_client) levelAdmin" "ctx_Client demo_ctx = Some 2"
proof -
  have "level_allows (Some [''level'' \<mapsto> ''1'']) levelAdmin" by code_simp
  then show "level_allows (cl_Meta admin_client) levelAdmin" by (simp add: admin_client_def)
qed (use demo_client_simps [of "''a''" "''alice''" 4] in
    \<open>simp_all add: admin_world_def admin_client_def demo_ctx_def client_ok_def\<close>)

theorem ban_command_witness:
  "\<exists>w'. execute_builtin (\<lambda>r. r) (\<lambda>_. []) 9 [''/ban'', ''bob'', strconv_Itoa 5] demo_ctx admin_world =
      (Ret (True, None, demo_ctx\<lparr>ctx_Args := [''bob'', strconv_Itoa 5]\<rparr>), w') \<and>
    hub_banned (w_hub w') ''bob'' = Some 300000000009"
proof -
  have "plain_word ''bob''" by code_simp
  from ban_command [OF this _ _ admin_client_facts(7,1,2,6), of 5 "\<lambda>r. r" "\<lambda>_. []" 9]
  obtain w' where "execute_builtin (\<lambda>r. r) (\<lambda>_. []) 9 [''/ban'', ''bob'', strconv_Itoa 5] demo_ctx admin_world =
      (Ret (True, None, demo_ctx\<lparr>ctx_Args := [''bob'', strconv_Itoa 5]\<rparr>), w')"
    "hub_banned (w_hub w') = (hub_banned (w_hub admin_world))(''bob'' \<mapsto> 300000000009)" by auto
  then show ?thesis by (intro exI [of _ w']) (simp del: strings_Join.simps)
qed

text \<open>
  A long ban is recorded as a permanent one. The product of the minutes and \<open>time.Minute\<close>
  is taken in 64 bits: for 153722868 to 307445734 minutes (292 to 584 years) it is negative, and
  \<open>BanFor\<close> takes a duration that is not positive for a permanent ban.
\<close>

theorem ban_minutes_overflow:
  assumes "plain_word name" and "153722868 \<le> k" and "k \<le> 307445734" and "ctx_Client ctx = Some r"
    and "w_heap w r = Some c" and "is_open c" and "level_allows (cl_Meta c) levelAdmin"
  shows "\<exists>w'. execute_builtin ulower scan_err_text now [''/ban'', name, strconv_Itoa k] ctx w =
      (Ret (True, None, ctx\<lparr>ctx_Args := [name, strconv_Itoa k]\<rparr>), w') \<and>
    (\<forall>later. fst (Hub_IsBanned later name w') = Ret True)"
proof -
  have "of_int k * time_Minute = (of_int (k * 60000000000 - 2 ^ 64) :: 64 word)"
    by (simp add: time_Minute_def)
  moreover have "sint (of_int (k * 60000000000 - 2 ^ 64) :: 64 word) = k * 60000000000 - 2 ^ 64"
    by (rule sint64_of_int) (use assms in simp_all)
  ultimately have d: "sint (of_int k * time_Minute) \<le> 0" using assms(3) by simp
  have "0 \<le> k" "k < 2 ^ 63" using assms by simp_all
  from Execute_ban [OF assms(1) this assms(4-7), of ulower scan_err_text now] obtain w' where
    w': "execute_builtin ulower scan_err_text now [''/ban'', name, strconv_Itoa k] ctx w =
      (Ret (True, None, ctx\<lparr>ctx_Args := [name, strconv_Itoa k]\<rparr>), w')"
    "w_hub w' = w_hub (snd (Hub_BanFor now name (of_int k * time_Minute) w))" by blast
  have "hub_banned (w_hub w') name = Some 0" using d by (simp add: w'(2) Hub_BanFor_def modifyHub_def)
  then have "fst (Hub_IsBanned later name w') = Ret True" for later
    by (simp add: Hub_IsBanned_def IsBanned_read_def bindG_app Time_IsZero_def)
  with w'(1) show ?thesis by blast
qed

theorem ban_minutes_overflow_witness:
  "\<exists>w'. execute_builtin (\<lambda>r. r) (\<lambda>_. []) 9 [''/ban'', ''bob'', strconv_Itoa 200000000] demo_ctx admin_world =
      (Ret (True, None, demo_ctx\<lparr>ctx_Args := [''bob'', strconv_Itoa 200000000]\<rparr>), w') \<and>
    fst (Hub_IsBanned 99000000000000000000 ''bob'' w') = Ret True"
proof -
  have "plain_word ''bob''" by code_simp
  from ban_minutes_overflow [OF this _ _ admin_client_facts(7,1,2,6), of 200000000 "\<lambda>r. r" "\<lambda>_. []" 9]
  show ?thesis by (auto simp del: strings_Join.simps)
qed


subsection \<open>Kicking\<close>

text \<open>
  Kicking. \<open>/kick name\<close> by an administrator of another name is handled without error: exactly
  the registered clients of that name are unregistered and closed, and the administrator is told
  whether there was one.
\<close>

theorem kick_command:
  assumes "sys_inv w" and "plain_word name" and "ctx_Client ctx = Some r" and "w_heap w r = Some c"
    and "is_open c" and "level_allows (cl_Meta c) levelAdmin" and "cl_Name c \<noteq> name"
  shows "\<exists>w'. execute_builtin ulower scan_err_text now [''/kick'', name] ctx w =
      (Ret (True, None, ctx\<lparr>ctx_Args := [name]\<rparr>), w') \<and>
    (\<forall>q. registered w' q \<longleftrightarrow> registered w q \<and> \<not> selects (\<lambda>c. cl_Name c = name) (w_heap w) q) \<and>
    w_heap w' r = Some (push_msg (if \<exists>q. registered w q \<and> selects (\<lambda>c. cl_Name c = name) (w_heap w) q
      then utf8 [0xE5, 0xB7, 0xB2, 0xE8, 0xB8, 0xA2, 0xE5, 0x87, 0xBA] @ '': '' @ name else utf8 [0xE7, 0x94, 0xA8, 0xE6, 0x88, 0xB7, 0xE4, 0xB8, 0x8D, 0xE5, 0x9C, 0xA8, 0xE7, 0xBA, 0xBF] @ '': '' @ name) c) \<and>
    (\<forall>q. registered w q \<and> selects (\<lambda>c. cl_Name c = name) (w_heap w) q \<longrightarrow> w_heap w' q = map_option close_client (w_heap w q))"
proof -
  let ?w0 = "counted (CommandsTotal ''kick'') w" and ?sel = "selects (\<lambda>c. cl_Name c = name) (w_heap w)"
  let ?ctx = "ctx\<lparr>ctx_Args := [name]\<rparr>" and ?ex = "\<exists>q. registered w q \<and> ?sel q"
  have reg0: "registered ?w0 = registered w" by (simp add: registered_def fun_eq_iff)
  have inv0: "sys_inv ?w0" using assms(1) by (simp add: sys_inv_def hub_ok_def gauge_ok_def)
  obtain w1 where w1: "Hub_RangeOver (range_order ?w0) (kick_body now name) False ?w0 = (Ret ?ex, w1)"
    "\<forall>q. registered w1 q \<longleftrightarrow> registered w q \<and> \<not> ?sel q"
    "w_heap w1 = close_all {q. registered w q \<and> ?sel q} (w_heap w)"
    using RangeOver_kick_all [OF inv0 refl, of now name] reg0 by auto
  have nsel: "\<not> ?sel r" using assms(4,7) by simp
  have r: "w_heap w1 r = Some c" using w1(3) nsel assms(4) by (simp add: close_all_def)
  note send = Send_open [OF r assms(5)]
  have slash: "plain_word (CHR ''/'' # ''kick'')" by code_simp
  have ex: "execute_builtin ulower scan_err_text now [''/kick'', name] ctx w =
      call_handler (builtin_run scan_err_text now (builtin_reg ulower))
        (mk_cmd ''kick'' (cmd_Help (builtin_commands ! 4)) levelAdmin BKick) ?ctx w"
    by (rule Execute_words [OF _ builtin_get_kick assms(3,4)]) (use slash assms in \<open>simp_all add: mk_cmd_def\<close>)
  have reg_eq: "registered (v\<lparr>w_heap := h, w_metrics := ms\<rparr>) = registered v" for v :: "('a, 'b) world_scheme" and h ms
    by (simp add: registered_def fun_eq_iff)
  show ?thesis unfolding ex using assms(3) w1 nsel send
    by (auto simp: mk_cmd_def IncCommand_def observe_call_def thenG_app bindG_app builtin_run_def kick_run_def
        Hub_KickByName_def Range_order ctx_Send_def nil_def reg_eq close_all_def)
qed

lemma admin_world_inv: "sys_inv admin_world"
  using sys_inv_setClient [OF demo_world_inv demo_names(1), of admin_client] admin_client_facts
  by (simp add: setClient_def admin_world_def)

lemma admin_registered: "registered admin_world q \<longleftrightarrow> q = 2 \<or> q = 3"
  using demo_registered [where 'a = nat, of q] by (simp add: admin_world_def registered_def)

theorem kick_command_witness:
  "\<exists>w'. execute_builtin (\<lambda>r. r) (\<lambda>_. []) 9 [''/kick'', ''bob''] demo_ctx admin_world =
      (Ret (True, None, demo_ctx\<lparr>ctx_Args := [''bob'']\<rparr>), w') \<and> \<not> registered w' 3 \<and> registered w' 2"
proof -
  have "plain_word ''bob''" by code_simp
  from kick_command [OF admin_world_inv this admin_client_facts(7,1,2,6), of "\<lambda>r. r" "\<lambda>_. []" 9]
  obtain w' where "execute_builtin (\<lambda>r. r) (\<lambda>_. []) 9 [''/kick'', ''bob''] demo_ctx admin_world =
      (Ret (True, None, demo_ctx\<lparr>ctx_Args := [''bob'']\<rparr>), w')"
    "\<forall>q. registered w' q \<longleftrightarrow> registered admin_world q \<and> \<not> selects (\<lambda>c. cl_Name c = ''bob'') (w_heap admin_world) q"
    using admin_client_facts(5) by auto
  moreover have "selects (\<lambda>c. cl_Name c = ''bob'') (w_heap admin_world) 3"
    "\<not> selects (\<lambda>c. cl_Name c = ''bob'') (w_heap admin_world) 2"
    using admin_client_facts(5) by (simp_all add: admin_world_def selects_def)
  ultimately show ?thesis by (auto simp: admin_registered simp del: strings_Join.simps)
qed

text \<open>
  Kicking oneself. When a registered administrator kicks a name that is also his own, the
  handler panics with a send on a closed channel: it unregisters and closes the administrator's
  own client and then sends him the reply. The panic is not recovered by \<open>Execute\<close>.
\<close>

theorem kick_self_panics:
  assumes "sys_inv w" and "plain_word (cl_Name c)" and "ctx_Client ctx = Some r" and "w_heap w r = Some c"
    and "registered w r" and "level_allows (cl_Meta c) levelAdmin"
  shows "\<exists>w'. execute_builtin ulower scan_err_text now [''/kick'', cl_Name c] ctx w =
      (Panic SendOnClosedChannel, w') \<and> \<not> registered w' r"
proof -
  let ?w0 = "counted (CommandsTotal ''kick'') w" and ?sel = "selects (\<lambda>d. cl_Name d = cl_Name c) (w_heap w)"
  have reg0: "registered ?w0 = registered w" by (simp add: registered_def fun_eq_iff)
  have inv0: "sys_inv ?w0" using assms(1) by (simp add: sys_inv_def hub_ok_def gauge_ok_def)
  obtain w1 where w1:
    "Hub_RangeOver (range_order ?w0) (kick_body now (cl_Name c)) False ?w0 = (Ret (\<exists>q. registered w q \<and> ?sel q), w1)"
    "\<forall>q. registered w1 q \<longleftrightarrow> registered w q \<and> \<not> ?sel q"
    "w_heap w1 = close_all {q. registered w q \<and> ?sel q} (w_heap w)"
    using RangeOver_kick_all [OF inv0 refl, of now "cl_Name c"] reg0 by auto
  have "w_heap w1 r = Some (close_client c)" using w1(3) assms(4,5) by (simp add: close_all_def)
  note send = Send_closed [OF this]
  have slash: "plain_word (CHR ''/'' # ''kick'')" by code_simp
  have ex: "execute_builtin ulower scan_err_text now [''/kick'', cl_Name c] ctx w =
      call_handler (builtin_run scan_err_text now (builtin_reg ulower))
        (mk_cmd ''kick'' (cmd_Help (builtin_commands ! 4)) levelAdmin BKick) (ctx\<lparr>ctx_Args := [cl_Name c]\<rparr>) w"
    by (rule Execute_words [OF _ builtin_get_kick assms(3,4)]) (use slash assms in \<open>simp_all add: mk_cmd_def\<close>)
  show ?thesis unfolding ex using assms(3,4) w1(1,2) send
    by (auto simp: mk_cmd_def IncCommand_def observe_call_def thenG_app bindG_app builtin_run_def kick_run_def
        Hub_KickByName_def Range_order ctx_Send_def nil_def)
qed

theorem kick_self_panics_witness:
  "\<exists>w'. execute_builtin (\<lambda>r. r) (\<lambda>_. []) 9 [''/kick'', ''alice''] demo_ctx admin_world =
     (Panic SendOnClosedChannel, w') \<and> \<not> registered w' 2"
proof -
  have "plain_word (cl_Name admin_client)" unfolding admin_client_facts(5) by code_simp
  from kick_self_panics [OF admin_world_inv this admin_client_facts(7,1) _ admin_client_facts(6)]
  show ?thesis by (simp add: admin_client_facts(5) admin_registered del: strings_Join.simps)
qed

subsection \<open>Authorisation\<close>

lemma builtin_get_auth:
  "Registry_Get ulower (builtin_reg ulower) ''auth'' =
     Some (mk_cmd ''auth'' (cmd_Help (builtin_commands ! 3)) levelUser BAuth)"
  by code_simp

text \<open>
  Authorisation. \<open>/auth 1\<close> sent by any client with an open connection, whatever its level,
  is handled without error and gives it the administrator level (so that every command of the
  registry is then allowed to it), \<open>/auth 0\<close> takes the level away; name, id and hub are unchanged.
\<close>

theorem auth_command:
  assumes "ctx_Client ctx = Some r" and "w_heap w r = Some c" and "is_open c" and "a = ''0'' \<or> a = ''1''"
  shows "\<exists>w' c'. execute_builtin ulower scan_err_text now [''/auth'', a] ctx w =
      (Ret (True, None, ctx\<lparr>ctx_Args := [a]\<rparr>), w') \<and>
    w_heap w' r = Some c' \<and> (level_allows (cl_Meta c') levelAdmin \<longleftrightarrow> a = ''1'') \<and>
    cl_Name c' = cl_Name c \<and> cl_ID c' = cl_ID c \<and> w_hub w' = w_hub w \<and>
    (a = ''1'' \<longrightarrow> (\<forall>cmd \<in> set builtin_commands. fst (Registry_checkPermission (Some r) (cmd_MinLevel cmd) w') = Ret True))"
proof -
  have "plain_word (CHR ''/'' # ''auth'')" "plain_word ''0''" "plain_word ''1''" by code_simp+
  then have ws: "list_all plain_word ((CHR ''/'' # ''auth'') # [a])" using assms(4) by auto
  have lvl: "level_allows (Some (m(''level'' \<mapsto> a))) levelAdmin \<longleftrightarrow> a = ''1''" for m
  proof -
    have "strconv_Atoi ''0'' = (0, None)" "strconv_Atoi ''1'' = (1, None)" by code_simp+
    then show ?thesis using assms(4) by (auto simp: level_allows_def levelAdmin_def)
  qed
  obtain m where m: "cl_Meta (ensure_meta c) = Some m" by (cases "cl_Meta c") (simp_all add: ensure_meta_def)
  let ?c1 = "(ensure_meta c)\<lparr>cl_Meta := Some (m(''level'' \<mapsto> a))\<rparr>"
  let ?w1 = "counted (CommandsTotal ''auth'') w\<lparr>w_heap := (w_heap w)(r \<mapsto> ?c1)\<rparr>"
  have send: "Client_Send r t ?w1 = (Ret (), ?w1\<lparr>w_heap := (w_heap w)(r \<mapsto> push_msg t ?c1),
      w_metrics := w_metrics ?w1 @ drop_calls ?c1\<rparr>)" for t
    using Send_open [of ?w1 r ?c1 t] assms(3) by simp
  have ex: "execute_builtin ulower scan_err_text now [''/auth'', a] ctx w =
      call_handler (builtin_run scan_err_text now (builtin_reg ulower))
        (mk_cmd ''auth'' (cmd_Help (builtin_commands ! 3)) levelUser BAuth) (ctx\<lparr>ctx_Args := [a]\<rparr>) w"
    by (rule Execute_words [OF ws builtin_get_auth assms(1,2)]) (simp add: mk_cmd_def)
  have adm: "level_allows (Some (m(''level'' \<mapsto> ''1''))) (cmd_MinLevel cmd)"
    if "a = ''1''" "cmd \<in> set builtin_commands" "\<not> cmd_MinLevel cmd \<le> levelUser" for cmd
    using builtin_level_cases [OF that(2)] that lvl [of m] by auto
  show ?thesis unfolding ex using assms m send lvl
    by (auto simp: adm mk_cmd_def IncCommand_def observe_call_def thenG_app bindG_app builtin_run_def auth_run_def
        auth_body_def ctx_withClient_def set_level_def setClient_def ctx_Send_def nil_def Registry_checkPermission_def)
qed

theorem auth_command_witness:
  "\<exists>w' c'. execute_builtin (\<lambda>r. r) (\<lambda>_. []) 9 [''/auth'', ''1''] demo_ctx (demo_world :: nat world) =
      (Ret (True, None, demo_ctx\<lparr>ctx_Args := [''1'']\<rparr>), w') \<and>
    w_heap w' 2 = Some c' \<and> level_allows (cl_Meta c') levelAdmin"
proof -
  have "ctx_Client demo_ctx = Some 2" by (simp add: demo_ctx_def)
  from auth_command [OF this demo_names(1) _, of "''1''" "\<lambda>r. r" "\<lambda>_. []" 9] show ?thesis
    by (auto simp del: strings_Join.simps)
qed

subsection \<open>The service with commands\<close>

text \<open>
  The steps of the chat service and the execution of command lines for any client, with any
  registry content; the operations a handler calls are also steps of their own.
\<close>

inductive service_step ::
  "(Time \<Rightarrow> int) \<Rightarrow> (rune \<Rightarrow> rune) \<Rightarrow> (scan_err \<Rightarrow> string) \<Rightarrow> sub_handler world \<Rightarrow> sub_handler world \<Rightarrow> bool"
  for tz ulower scan_err_text where
  chat: "sys_step (sub_run tz) w w' \<Longrightarrow> service_step tz ulower scan_err_text w w'"
| command: "service_step tz ulower scan_err_text w
     (snd (Registry_Execute ulower (builtin_run scan_err_text now reg) reg raw ctx w))"

interpretation svc: event_system "\<lambda>w. w = (empty_world :: sub_handler world)" "service_step tz ulower scan_err_text"
  for tz ulower scan_err_text .

text \<open>
  C16: the invariant with commands. Also when clients execute arbitrary command lines, with
  whatever arguments and levels and including handlers that panic, in every reachable state the
  online gauge equals the number of registered clients, and every registered id belongs to an
  open client of that id.
\<close>

theorem command_service_invariant:
  assumes "event_system.reachable (\<lambda>w. w = empty_world) (service_step tz ulower scan_err_text) w"
  shows "online (w_metrics w) = int (length (hub_clients (w_hub w))) \<and>
    (\<forall>k r. Load (hub_clients (w_hub w)) k = Some r \<longrightarrow> (\<exists>c. w_heap w r = Some c \<and> cl_ID c = k \<and> is_open c)) \<and>
    (\<forall>r c. w_heap w r = Some c \<longrightarrow> client_ok c)"
proof -
  have "sys_inv w" using assms
  proof (rule svc.reachable_invariant)
    show "sys_inv t" if "sys_inv s" "service_step tz ulower scan_err_text s t" for s t
      using that(2,1) by (cases) (auto intro: subs.sys_step_inv builtins.Execute_keeps)
  qed simp
  then show ?thesis by (auto simp: sys_inv_def gauge_ok_def hub_ok_def dest: heap_okD)
qed

theorem command_service_invariant_witness:
  "online (w_metrics joined_world) = int (length (hub_clients (w_hub joined_world)))"
proof -
  let ?w = "(empty_world :: sub_handler world)\<lparr>w_heap := [3 \<mapsto> NewClientWithBuffer ''a'' 2]\<rparr>"
  let ?reach = "event_system.reachable (\<lambda>w. w = (empty_world :: sub_handler world)) (service_step (\<lambda>_. 0) (\<lambda>r. r) (\<lambda>_. []))"
  have "sys_step (sub_run (\<lambda>_. 0)) empty_world ?w"
    using sys_step.connect [of "empty_world :: sub_handler world" 3 "sub_run (\<lambda>_. 0)" "''a''" 2]
    by (simp add: empty_world_def)
  moreover have "sys_step (sub_run (\<lambda>_. 0)) ?w joined_world" unfolding joined_world_def
    by (rule sys_step.register [where c = "NewClientWithBuffer ''a'' 2"])
      (simp_all add: empty_world_def NewHub_def Load_def)
  moreover have "?reach empty_world" by (rule svc.reach_start) simp
  ultimately have "?reach joined_world"
    by (auto intro: svc.reach_step [OF svc.reach_step] service_step.chat)
  from command_service_invariant [OF this] show ?thesis by simp
qed

end
