(* ===== verification/Frames.thy ===== *)
theory Frames
  imports Go_Strings
begin

section \<open>Length-prefixed frames (internal/transport/frame.go)\<close>

text \<open>
  A network connection is the bytes the peer has still to deliver and what a read gives after
  them (\<open>cn_end\<close>: end of file, or an error such as a timeout or a closed connection), the bytes
  written so far and how many more the peer accepts before a write fails (\<open>cn_room\<close>, \<open>None\<close> for
  no limit). Byte slices are \<open>string\<close>s. The buffer pool is the list of the capacities of the
  pooled buffers; the bytes of a pooled buffer are never read before they are overwritten.
\<close>

datatype io_err = EOF | ErrUnexpectedEOF | ConnError string

record conn =
  cn_in :: string
  cn_end :: io_err
  cn_out :: string
  cn_room :: "nat option"

datatype frame_err =
    FrameCodecNil
  | FrameCodecOrConnNil
  | FrameTooLarge int
  | InvalidFrameSize int
  | FrameIO io_err

definition io_err_text :: "io_err \<Rightarrow> string" where
  "io_err_text e = (case e of EOF \<Rightarrow> ''EOF'' | ErrUnexpectedEOF \<Rightarrow> ''unexpected EOF'' | ConnError s \<Rightarrow> s)"

subsection \<open>Reading and writing bytes\<close>

definition conn_Write :: "conn \<Rightarrow> string \<Rightarrow> io_err option \<times> conn" where
  "conn_Write c b = (case cn_room c of
     None \<Rightarrow> (None, c\<lparr>cn_out := cn_out c @ b\<rparr>)
   | Some n \<Rightarrow>
       if length b \<le> n then (None, c\<lparr>cn_out := cn_out c @ b, cn_room := Some (n - length b)\<rparr>)
       else (Some (ConnError ''write failed''), c\<lparr>cn_out := cn_out c @ take n b, cn_room := Some 0\<rparr>))"

text \<open>
  \<open>io.ReadFull\<close>: exactly \<open>n\<close> bytes or an error; an end of file after some bytes is an unexpected
  one.
\<close>

definition io_ReadFull :: "conn \<Rightarrow> nat \<Rightarrow> (io_err + string) \<times> conn" where
  "io_ReadFull c n =
     (if n \<le> length (cn_in c) then (Inr (take n (cn_in c)), c\<lparr>cn_in := drop n (cn_in c)\<rparr>)
      else (Inl (if cn_in c \<noteq> [] \<and> cn_end c = EOF then ErrUnexpectedEOF else cn_end c), c\<lparr>cn_in := []\<rparr>))"

text \<open>\<open>binary.BigEndian\<close> on 32 bits; \<open>uint32(n)\<close> keeps the low 32 bits.\<close>

definition BigEndian_PutUint32 :: "int \<Rightarrow> string" where
  "BigEndian_PutUint32 n = utf8 [n div 16777216 mod 256, n div 65536 mod 256, n div 256 mod 256, n mod 256]"

definition BigEndian_Uint32 :: "string \<Rightarrow> int" where
  "BigEndian_Uint32 h = foldl (\<lambda>acc c. acc * 256 + byte_of c) 0 (take 4 h)"

subsection \<open>The codec\<close>

definition MaxFrameSize :: int where
  "MaxFrameSize = 16 * 1024 * 1024"

record FrameCodec =
  fc_pool :: "nat list"

definition NewFrameCodec :: FrameCodec where
  "NewFrameCodec = \<lparr>fc_pool = []\<rparr>"

definition pool_size :: nat where
  "pool_size = 65536"

definition pool_Get :: "FrameCodec \<Rightarrow> nat \<times> FrameCodec" where
  "pool_Get fc = (case fc_pool fc of
     [] \<Rightarrow> (pool_size, fc)
   | b # bs \<Rightarrow> (b, fc\<lparr>fc_pool := bs\<rparr>))"

definition pool_Put :: "nat \<Rightarrow> FrameCodec \<Rightarrow> FrameCodec" where
  "pool_Put b fc = fc\<lparr>fc_pool := b # fc_pool fc\<rparr>"

definition WriteFrame :: "FrameCodec option \<Rightarrow> string \<Rightarrow> conn \<Rightarrow> frame_err option \<times> conn" where
  "WriteFrame codec payload c = (case codec of
     None \<Rightarrow> (Some FrameCodecNil, c)
   | Some _ \<Rightarrow>
      if 16 * 1024 * 1024 < int (length payload) then (Some (FrameTooLarge (int (length payload))), c)
      else
        let header = BigEndian_PutUint32 (int (length payload) mod 2 ^ 32) in
        (case conn_Write c header of
           (Some e, c') \<Rightarrow> (Some (FrameIO e), c')
         | (None, c') \<Rightarrow>
            (case conn_Write c' payload of
               (Some e, c'') \<Rightarrow> (Some (FrameIO e), c'')
             | (None, c'') \<Rightarrow> (None, c''))))"

text \<open>
  \<open>readFrameInternal\<close> returns the buffer's capacity, the length and the bytes it was filled with. The
  codec is a value here and not a pointer: the source also refuses a nil codec, which no caller has.
\<close>

definition readFrameInternal ::
  "FrameCodec \<Rightarrow> conn option \<Rightarrow> (frame_err + (nat \<times> int \<times> string)) \<times> FrameCodec \<times> conn option" where
  "readFrameInternal fc c0 = (case c0 of
     None \<Rightarrow> (Inl FrameCodecOrConnNil, fc, None)
   | Some c \<Rightarrow>
     (case io_ReadFull c 4 of
        (Inl e, c') \<Rightarrow> (Inl (FrameIO e), fc, Some c')
      | (Inr header, c') \<Rightarrow>
         (let length = BigEndian_Uint32 header in
          if length \<le> 0 \<or> MaxFrameSize < length then (Inl (InvalidFrameSize length), fc, Some c')
          else
            (case pool_Get fc of (bufcap, fc1) \<Rightarrow>
               let cap = (if int bufcap < length then nat length else bufcap) in
               (case io_ReadFull c' (nat length) of
                  (Inl e, c'') \<Rightarrow> (Inl (FrameIO e), pool_Put bufcap fc1, Some c'')
                | (Inr bytes, c'') \<Rightarrow> (Inr (cap, length, bytes), fc1, Some c''))))))"

definition ReadFrame ::
  "FrameCodec \<Rightarrow> conn option \<Rightarrow> (frame_err + string) \<times> FrameCodec \<times> conn option" where
  "ReadFrame fc c = (case readFrameInternal fc c of
     (Inl e, fc', c') \<Rightarrow> (Inl e, fc', c')
   | (Inr (buf, n, bytes), fc', c') \<Rightarrow> (Inr (take (nat n) bytes), pool_Put buf fc', c'))"


subsection \<open>The command-line client's framing (cmd/client/main.go)\<close>

text \<open>
  \<open>conn.Read\<close> returns at least one byte, at most as many as asked for, and as many as have
  arrived: \<open>arrived\<close> tells how many bytes of the remaining input are there, so that every way the
  network may split the stream is some \<open>arrived\<close>.
\<close>

definition conn_Read :: "(string \<Rightarrow> nat) \<Rightarrow> conn \<Rightarrow> nat \<Rightarrow> (io_err + string) \<times> conn" where
  "conn_Read arrived c n =
     (if n = 0 then (Inr [], c)
      else if cn_in c = [] then (Inl (cn_end c), c)
      else let k = min n (max 1 (arrived (cn_in c)))
           in (Inr (take k (cn_in c)), c\<lparr>cn_in := drop k (cn_in c)\<rparr>))"

definition client_writeFrame :: "string \<Rightarrow> conn \<Rightarrow> io_err option \<times> conn" where
  "client_writeFrame payload c =
     (case conn_Write c (BigEndian_PutUint32 (int (length payload) mod 2 ^ 32)) of
        (Some e, c') \<Rightarrow> (Some e, c')
      | (None, c') \<Rightarrow> conn_Write c' payload)"

text \<open>The loop of \<open>ioReadFull\<close>: what was read so far, and the error that ended it, if any.\<close>

function client_ioReadFull :: "(string \<Rightarrow> nat) \<Rightarrow> conn \<Rightarrow> nat \<Rightarrow> string \<Rightarrow> (string \<times> io_err option) \<times> conn" where
  "client_ioReadFull arrived c n got =
     (if length got < n then
        (case conn_Read arrived c (n - length got) of
           (Inl e, c') \<Rightarrow> ((got, Some e), c')
         | (Inr b, c') \<Rightarrow> client_ioReadFull arrived c' n (got @ b))
      else ((got, None), c))"
  by pat_completeness auto
termination
  by (relation "measure (\<lambda>(arrived, c, n, got). n - length got)")
    (auto simp: conn_Read_def Let_def intro!: diff_less_mono2 split: if_splits)

declare client_ioReadFull.simps [simp del]

text \<open>
  \<open>readFrame\<close> fills the header with a single \<open>Read\<close>: what does not arrive at once stays zero. The
  buffer is zero where the loop did not get to.
\<close>

definition client_readFrame :: "(string \<Rightarrow> nat) \<Rightarrow> conn \<Rightarrow> (io_err + (string \<times> io_err option)) \<times> conn" where
  "client_readFrame arrived c =
     (case conn_Read arrived c 4 of
        (Inl e, c') \<Rightarrow> (Inl e, c')
      | (Inr h, c') \<Rightarrow>
         (let header = h @ replicate (4 - length h) (char_of (0 :: int));
              n = nat (BigEndian_Uint32 header)
          in case client_ioReadFull arrived c' n [] of
               ((got, e), c'') \<Rightarrow> (Inr (got @ replicate (n - length got) (char_of (0 :: int)), e), c'')))"

end
