(* ===== verification/Frame_Properties.thy ===== *)
theory Frame_Properties
  imports Frames "HOL-Library.Sublist"
begin

section \<open>Properties of the framing\<close>

text \<open>
  What \<open>WriteFrame\<close> puts on the wire \<open>ReadFrame\<close> takes off it, frame by frame; the limits on both
  sides; what a failed write leaves behind; the client program's reader.
\<close>

subsection \<open>The header\<close>

lemma byte_char: "0 \<le> b \<Longrightarrow> b < 256 \<Longrightarrow> byte_of (char_of b) = b"
  by simp

lemma header_length [simp]: "length (BigEndian_PutUint32 n) = 4"
  by (simp add: BigEndian_PutUint32_def utf8_def)

lemma header_roundtrip:
  assumes "0 \<le> n" and "n < 2 ^ 32"
  shows "BigEndian_Uint32 (BigEndian_PutUint32 n) = n"
proof -
  have "BigEndian_Uint32 (BigEndian_PutUint32 n) =
      ((n div 16777216 mod 256 * 256 + n div 65536 mod 256) * 256 + n div 256 mod 256) * 256 + n mod 256"
    by (simp add: BigEndian_Uint32_def BigEndian_PutUint32_def utf8_def)
  also have "\<dots> = n"
  proof -
    define y z u where "y = n div 256" and "z = y div 256" and "u = z div 256"
    have d: "n div 65536 = z" "n div 16777216 = u"
      by (simp_all add: y_def z_def u_def zdiv_zmult2_eq [symmetric])
    have u: "u mod 256 = u" using assms by (simp add: d(2) [symmetric])
    have "u * 256 + z mod 256 = z" "z * 256 + y mod 256 = y" "y * 256 + n mod 256 = n"
      by (simp_all add: y_def z_def u_def)
    then show ?thesis unfolding d u y_def [symmetric] by simp
  qed
  finally show ?thesis .
qed

lemma foldl_bytes:
  assumes "0 \<le> a"
  shows "0 \<le> foldl (\<lambda>acc c. acc * 256 + byte_of c) a h \<and>
    foldl (\<lambda>acc c. acc * 256 + byte_of c) a h < (a + 1) * 256 ^ length h"
  using assms
proof (induction h arbitrary: a)
  case (Cons c h)
  have n: "0 \<le> a * 256 + byte_of c" using Cons.prems byte_of_bounds [of c] by simp
  have "(a * 256 + byte_of c + 1) * 256 ^ length h \<le> ((a + 1) * 256) * 256 ^ length h"
    using byte_of_bounds [of c] by (intro mult_right_mono) simp_all
  also have "\<dots> = (a + 1) * 256 ^ length (c # h)" by (simp only: mult.assoc power_Suc length_Cons)
  finally have "foldl (\<lambda>acc c. acc * 256 + byte_of c) (a * 256 + byte_of c) h < (a + 1) * 256 ^ length (c # h)"
    using Cons.IH [OF n] by (meson order_less_le_trans)
  with Cons.IH [OF n] show ?case unfolding foldl_Cons by blast
qed simp

lemma Uint32_bounds: "0 \<le> BigEndian_Uint32 h" "BigEndian_Uint32 h < 2 ^ 32"
proof -
  have "256 ^ length (take 4 h) \<le> (256 ^ 4 :: int)" by (intro power_increasing) simp_all
  then show "0 \<le> BigEndian_Uint32 h" "BigEndian_Uint32 h < 2 ^ 32"
    using foldl_bytes [of 0 "take 4 h"] by (simp_all add: BigEndian_Uint32_def)
qed

subsection \<open>The framing contract\<close>

text \<open>
  A framing encodes a payload as bytes that a reader recognises in front of the following bytes, where
  \<open>valid\<close> may restrict the payload and what follows; then a sequence of frames is read back as the
  sequence of payloads.
\<close>

locale framing =
  fixes enc :: "string \<Rightarrow> string"
    and dec :: "string \<Rightarrow> (string \<times> string) option"
    and valid :: "string \<Rightarrow> string \<Rightarrow> bool"
  assumes dec_enc: "valid p rest \<Longrightarrow> dec (enc p @ rest) = Some (p, rest)"
begin

fun read_many :: "nat \<Rightarrow> string \<Rightarrow> string list \<times> string" where
  "read_many 0 s = ([], s)"
| "read_many (Suc n) s = (case dec s of
     None \<Rightarrow> ([], s)
   | Some (p, rest) \<Rightarrow> (case read_many n rest of (ps, rest') \<Rightarrow> (p # ps, rest')))"

lemma read_many_enc:
  "(\<And>i. i < length ps \<Longrightarrow> valid (ps ! i) (concat (map enc (drop (Suc i) ps)) @ rest)) \<Longrightarrow>
     read_many (length ps) (concat (map enc ps) @ rest) = (ps, rest)"
proof (induction ps)
  case (Cons p ps)
  have "read_many (length ps) (concat (map enc ps) @ rest) = (ps, rest)"
    using Cons.prems [of "Suc i" for i] by (intro Cons.IH) simp
  then show ?case using Cons.prems [of 0] by (simp add: dec_enc)
qed simp

end

text \<open>The bytes of a frame, and what \<open>ReadFrame\<close> makes of a byte stream.\<close>

definition frame_bytes :: "string \<Rightarrow> string" where
  "frame_bytes p = BigEndian_PutUint32 (int (length p)) @ p"

definition frame_valid :: "string \<Rightarrow> bool" where
  "frame_valid p \<longleftrightarrow> 0 < length p \<and> int (length p) \<le> MaxFrameSize"

definition frame_read :: "string \<Rightarrow> (string \<times> string) option" where
  "frame_read s = (case ReadFrame NewFrameCodec (Some \<lparr>cn_in = s, cn_end = EOF, cn_out = [], cn_room = None\<rparr>) of
     (Inr p, _, Some c) \<Rightarrow> Some (p, cn_in c)
   | _ \<Rightarrow> None)"

lemma take_header [simp]:
  "take 4 (BigEndian_PutUint32 n @ s) = BigEndian_PutUint32 n" "drop 4 (BigEndian_PutUint32 n @ s) = s"
  by simp_all

lemma ReadFrame_ok:
  assumes "frame_valid p" and "cn_in c = frame_bytes p @ rest"
  shows "\<exists>fc'. ReadFrame fc (Some c) = (Inr p, fc', Some (c\<lparr>cn_in := rest\<rparr>))"
proof -
  have b: "int (length p) < 2 ^ 32" "0 < length p" "int (length p) \<le> MaxFrameSize"
    using assms(1) by (simp_all add: frame_valid_def MaxFrameSize_def)
  have h: "BigEndian_Uint32 (BigEndian_PutUint32 (int (length p))) = int (length p)"
    by (rule header_roundtrip) (use b in simp_all)
  obtain bc fc1 where g: "pool_Get fc = (bc, fc1)" by (cases "pool_Get fc")
  have r1: "io_ReadFull c 4 = (Inr (BigEndian_PutUint32 (int (length p))), c\<lparr>cn_in := p @ rest\<rparr>)"
    by (simp add: io_ReadFull_def assms(2) frame_bytes_def)
  have r2: "io_ReadFull (c\<lparr>cn_in := p @ rest\<rparr>) (length p) = (Inr p, c\<lparr>cn_in := rest\<rparr>)"
    by (simp add: io_ReadFull_def)
  show ?thesis using b by (simp add: ReadFrame_def readFrameInternal_def r1 r2 h g Let_def)
qed

interpretation server_framing: framing frame_bytes frame_read "\<lambda>p _. frame_valid p"
proof
  fix p rest
  assume p: "frame_valid p"
  let ?c = "\<lparr>cn_in = frame_bytes p @ rest, cn_end = EOF, cn_out = [], cn_room = None\<rparr>"
  obtain fc' where "ReadFrame NewFrameCodec (Some ?c) = (Inr p, fc', Some (?c\<lparr>cn_in := rest\<rparr>))"
    using ReadFrame_ok [OF p, of ?c rest NewFrameCodec] by auto
  then show "frame_read (frame_bytes p @ rest) = Some (p, rest)" by (simp add: frame_read_def)
qed


subsection \<open>Properties of the server's codec\<close>

fun send_frames :: "FrameCodec \<Rightarrow> string list \<Rightarrow> conn \<Rightarrow> frame_err option \<times> conn" where
  "send_frames fc [] c = (None, c)"
| "send_frames fc (p # ps) c = (case WriteFrame (Some fc) p c of
     (Some e, c') \<Rightarrow> (Some e, c')
   | (None, c') \<Rightarrow> send_frames fc ps c')"

fun receive_frames :: "nat \<Rightarrow> FrameCodec \<Rightarrow> conn \<Rightarrow> string list \<times> conn" where
  "receive_frames 0 fc c = ([], c)"
| "receive_frames (Suc n) fc c = (case ReadFrame fc (Some c) of
     (Inr p, fc', Some c') \<Rightarrow> (case receive_frames n fc' c' of (ps, d) \<Rightarrow> (p # ps, d))
   | _ \<Rightarrow> ([], c))"

lemma WriteFrame_ok:
  assumes "int (length p) \<le> MaxFrameSize" and "cn_room c = None"
  shows "WriteFrame (Some fc) p c = (None, c\<lparr>cn_out := cn_out c @ frame_bytes p\<rparr>)"
  using assms by (simp add: WriteFrame_def MaxFrameSize_def conn_Write_def frame_bytes_def Let_def)

lemma send_frames_ok:
  "list_all frame_valid ps \<Longrightarrow> cn_room c = None \<Longrightarrow>
     send_frames fc ps c = (None, c\<lparr>cn_out := cn_out c @ concat (map frame_bytes ps)\<rparr>)"
  by (induction ps arbitrary: c) (simp_all add: WriteFrame_ok frame_valid_def)

lemma receive_frames_ok:
  "list_all frame_valid ps \<Longrightarrow> cn_in d = concat (map frame_bytes ps) @ rest \<Longrightarrow>
     receive_frames (length ps) fc d = (ps, d\<lparr>cn_in := rest\<rparr>)"
proof (induction ps arbitrary: fc d)
  case (Cons p ps)
  then have p: "frame_valid p" "cn_in d = frame_bytes p @ concat (map frame_bytes ps) @ rest" by simp_all
  obtain fc' where r: "ReadFrame fc (Some d) = (Inr p, fc', Some (d\<lparr>cn_in := concat (map frame_bytes ps) @ rest\<rparr>))"
    using ReadFrame_ok [OF p] by blast
  have "receive_frames (length ps) fc' (d\<lparr>cn_in := concat (map frame_bytes ps) @ rest\<rparr>) = (ps, d\<lparr>cn_in := rest\<rparr>)"
    using Cons by simp
  then show ?case by (simp add: r)
qed simp

text \<open>
  C11: frames survive the wire. Any sequence of payloads of 1 byte to 16 MB is written without
  error, and a reader that is delivered those bytes, with whatever bytes following and whatever
  buffers in its pool, reads back exactly those payloads in order and leaves the following bytes
  unread.
\<close>

theorem frame_stream_roundtrip:
  assumes "list_all frame_valid ps" and "cn_room c = None"
  shows "\<exists>wire. send_frames fc ps c = (None, c\<lparr>cn_out := cn_out c @ wire\<rparr>) \<and>
    (\<forall>fc' d rest. cn_in d = wire @ rest \<longrightarrow>
       receive_frames (length ps) fc' d = (ps, d\<lparr>cn_in := rest\<rparr>))"
  using send_frames_ok [OF assms] receive_frames_ok [OF assms(1)] by blast

definition wire_conn :: "string \<Rightarrow> conn" where
  "wire_conn s = \<lparr>cn_in = s, cn_end = EOF, cn_out = [], cn_room = None\<rparr>"

theorem frame_stream_roundtrip_witness:
  "\<exists>wire. send_frames NewFrameCodec [''ab'', ''c''] (wire_conn []) = (None, (wire_conn [])\<lparr>cn_out := wire\<rparr>) \<and>
     receive_frames 2 NewFrameCodec (wire_conn (wire @ ''x'')) = ([''ab'', ''c''], wire_conn ''x'')"
proof -
  have "list_all frame_valid [''ab'', ''c'']" by (simp add: frame_valid_def MaxFrameSize_def)
  moreover have "cn_room (wire_conn []) = None" by (simp add: wire_conn_def)
  ultimately obtain wire where
    "send_frames NewFrameCodec [''ab'', ''c''] (wire_conn []) = (None, (wire_conn [])\<lparr>cn_out := cn_out (wire_conn []) @ wire\<rparr>)"
    and rd: "\<And>fc' d rest. cn_in d = wire @ rest \<Longrightarrow>
       receive_frames (length [''ab'', ''c'']) fc' d = ([''ab'', ''c''], d\<lparr>cn_in := rest\<rparr>)"
    using frame_stream_roundtrip by metis
  moreover have "receive_frames 2 NewFrameCodec (wire_conn (wire @ ''x'')) = ([''ab'', ''c''], wire_conn ''x'')"
    using rd [of "wire_conn (wire @ ''x'')" "''x''" NewFrameCodec] by (simp add: wire_conn_def numeral_2_eq_2)
  ultimately show ?thesis by (auto simp: wire_conn_def)
qed

lemma byte_step: "(y * 256 + byte_of d) mod 256 = byte_of d" "(y * 256 + byte_of d) div 256 = y"
  using byte_of_bounds [of d] by simp_all

lemma header_inverse:
  assumes "length h = 4"
  shows "BigEndian_PutUint32 (BigEndian_Uint32 h) = h"
proof -
  obtain a b c d where h: "h = [a, b, c, d]"
    using assms by (auto simp: numeral_eq_Suc length_Suc_conv)
  define n where "n = ((byte_of a * 256 + byte_of b) * 256 + byte_of c) * 256 + byte_of d"
  have n: "n mod 256 = byte_of d" "n div 256 = (byte_of a * 256 + byte_of b) * 256 + byte_of c"
    unfolding n_def by (rule byte_step)+
  have "n div 65536 = n div 256 div 256" "n div 16777216 = n div 256 div 256 div 256"
    by (simp_all add: zdiv_zmult2_eq [symmetric])
  then have m: "n div 65536 = byte_of a * 256 + byte_of b" "n div 16777216 = byte_of a"
    unfolding n(2) byte_step by simp_all
  have "n div 16777216 mod 256 = byte_of a" "n div 65536 mod 256 = byte_of b" "n div 256 mod 256 = byte_of c"
    unfolding m n(2) by (simp, (rule byte_step)+)
  then have "BigEndian_PutUint32 n = [a, b, c, d]" by (simp add: BigEndian_PutUint32_def utf8_def n(1))
  moreover have "BigEndian_Uint32 h = n" by (simp add: BigEndian_Uint32_def h n_def)
  ultimately show ?thesis by (simp add: h)
qed

lemma announced_length:
  assumes "frame_valid p" and "bs = frame_bytes p @ rest"
  shows "nat (BigEndian_Uint32 (take 4 bs)) = length p" and "length p \<le> length (drop 4 bs)"
proof -
  have "int (length p) < 2 ^ 32" using assms(1) by (simp add: frame_valid_def MaxFrameSize_def)
  then show "nat (BigEndian_Uint32 (take 4 bs)) = length p"
    unfolding assms(2) frame_bytes_def by (simp add: header_roundtrip)
  show "length p \<le> length (drop 4 bs)" unfolding assms(2) by (simp add: frame_bytes_def)
qed

text \<open>
  C28: \<open>ReadFrame\<close> accepts only frames. For every input and pool the call returns, and either it
  returns a payload of 1 byte to 16 MB such that the input was exactly its frame followed by what
  is left to read; or it refuses a header that announces 0 bytes or more than 16 MB, having
  consumed just the header; or the input ended (or failed) before the frame was complete.
\<close>

theorem ReadFrame_sound:
  "\<exists>res fc' c'. ReadFrame fc (Some c) = (res, fc', Some c') \<and>
    (case res of
       Inr p \<Rightarrow> frame_valid p \<and> cn_in c = frame_bytes p @ cn_in c'
     | Inl (InvalidFrameSize n) \<Rightarrow> (n = 0 \<or> MaxFrameSize < n) \<and> cn_in c = BigEndian_PutUint32 n @ cn_in c'
     | Inl (FrameIO e) \<Rightarrow> cn_in c' = [] \<and> (e = cn_end c \<or> e = ErrUnexpectedEOF \<and> cn_end c = EOF) \<and>
         \<not> (\<exists>p rest. frame_valid p \<and> cn_in c = frame_bytes p @ rest)
     | _ \<Rightarrow> False)"
proof (cases "length (cn_in c) < 4")
  case True
  have "cn_in c \<noteq> frame_bytes p @ rest" for p rest using True by (auto simp: frame_bytes_def)
  then show ?thesis using True
    by (auto simp: ReadFrame_def readFrameInternal_def io_ReadFull_def)
next
  case False
  define h t n where "h = take 4 (cn_in c)" and "t = drop 4 (cn_in c)" and "n = BigEndian_Uint32 h"
  have len: "length h = 4" using False by (simp add: h_def)
  have hd: "BigEndian_PutUint32 n = h" unfolding n_def by (rule header_inverse [OF len])
  have n0: "0 \<le> n" unfolding n_def by (rule Uint32_bounds)
  have inp: "cn_in c = h @ t" by (simp add: h_def t_def)
  have r1: "io_ReadFull c 4 = (Inr h, c\<lparr>cn_in := t\<rparr>)" using False by (simp add: io_ReadFull_def h_def t_def)
  obtain bc fc1 where g: "pool_Get fc = (bc, fc1)" by (cases "pool_Get fc")
  consider "n \<le> 0 \<or> MaxFrameSize < n" | "0 < n" "n \<le> MaxFrameSize" "nat n \<le> length t"
    | "0 < n" "n \<le> MaxFrameSize" "\<not> nat n \<le> length t" by linarith
  then show ?thesis
  proof cases
    case 1
    then show ?thesis using n0 inp hd
      by (auto simp: ReadFrame_def readFrameInternal_def r1 n_def [symmetric] Let_def)
  next
    case 2
    let ?p = "take (nat n) t"
    have "frame_valid ?p" "cn_in c = frame_bytes ?p @ drop (nat n) t"
      using 2 inp hd by (auto simp: frame_valid_def frame_bytes_def min_absorb2)
    moreover have "io_ReadFull (c\<lparr>cn_in := t\<rparr>) (nat n) =
        (Inr ?p, c\<lparr>cn_in := drop (nat n) t\<rparr>)"
      using 2(3) by (simp add: io_ReadFull_def)
    ultimately show ?thesis using 2(1,2)
      by (auto simp: ReadFrame_def readFrameInternal_def r1 n_def [symmetric] Let_def g)
  next
    case 3
    have no: "cn_in c \<noteq> frame_bytes p @ rest" if "frame_valid p" for p rest
      using announced_length [OF that] 3(3) unfolding n_def h_def t_def by metis
    have "io_ReadFull (c\<lparr>cn_in := t\<rparr>) (nat n) =
        (Inl (if t \<noteq> [] \<and> cn_end c = EOF then ErrUnexpectedEOF else cn_end c), c\<lparr>cn_in := []\<rparr>)"
      using 3(3) by (simp add: io_ReadFull_def)
    then show ?thesis using 3(1,2) no
      by (auto simp: ReadFrame_def readFrameInternal_def r1 n_def [symmetric] Let_def g)
  qed
qed

text \<open>
  C29: what a write leaves on the wire. Whatever the payload and however much the peer accepts,
  \<open>WriteFrame\<close> writes a prefix of the frame: all of it when there is no error, nothing when the
  payload exceeds 16 MB (the only payloads refused), and a proper prefix when the connection
  fails.
\<close>

theorem WriteFrame_prefix:
  "\<exists>q c'. WriteFrame (Some fc) p c =
       (if MaxFrameSize < int (length p) then Some (FrameTooLarge (int (length p)))
        else if q = frame_bytes p then None else Some (FrameIO (ConnError ''write failed'')), c') \<and>
     cn_out c' = cn_out c @ q \<and> prefix q (frame_bytes p) \<and> (q = [] \<or> int (length p) \<le> MaxFrameSize) \<and>
     cn_in c' = cn_in c"
proof (cases "MaxFrameSize < int (length p)")
  case True
  then show ?thesis by (auto simp: WriteFrame_def MaxFrameSize_def intro!: exI [of _ c] exI [of _ "[]"])
next
  case False
  have m: "int (length p) mod 4294967296 = int (length p)" using False by (simp add: MaxFrameSize_def)
  let ?h = "BigEndian_PutUint32 (int (length p))"
  have ne: "?h \<noteq> []" using header_length [of "int (length p)"] by (metis list.size(3) zero_neq_numeral)
  show ?thesis
  proof (cases "cn_room c")
    case None
    then show ?thesis using False WriteFrame_ok [of p c fc] by (auto intro!: exI [of _ "frame_bytes p"])
  next
    case (Some n)
    consider "n < 4" | "4 \<le> n" "n - 4 < length p" | "4 \<le> n" "length p \<le> n - 4" by linarith
    then show ?thesis
    proof cases
      case 1
      then show ?thesis using False Some ne m
        by (auto simp: WriteFrame_def conn_Write_def MaxFrameSize_def frame_bytes_def Let_def take_is_prefix
            intro!: exI [of _ "take n ?h"] prefix_append [THEN iffD2] dest: arg_cong [where f = length])
    next
      case 2
      then show ?thesis using False Some m
        by (auto simp: WriteFrame_def conn_Write_def MaxFrameSize_def frame_bytes_def Let_def take_is_prefix
            intro!: exI [of _ "?h @ take (n - 4) p"] dest: arg_cong [where f = length])
    next
      case 3
      then show ?thesis using False Some m
        by (auto simp: WriteFrame_def conn_Write_def MaxFrameSize_def frame_bytes_def Let_def
            intro!: exI [of _ "?h @ p"])
    qed
  qed
qed

text \<open>
  An empty payload is written but never read. \<open>WriteFrame\<close> accepts the empty payload, and
  \<open>ReadFrame\<close> refuses the frame it wrote.
\<close>

theorem empty_frame_rejected:
  "WriteFrame (Some fc) [] (wire_conn []) = (None, (wire_conn [])\<lparr>cn_out := frame_bytes []\<rparr>) \<and>
   fst (ReadFrame fc' (Some (wire_conn (frame_bytes [] @ rest)))) = Inl (InvalidFrameSize 0)"
proof
  show "WriteFrame (Some fc) [] (wire_conn []) = (None, (wire_conn [])\<lparr>cn_out := frame_bytes []\<rparr>)"
    by (subst WriteFrame_ok) (simp_all add: wire_conn_def MaxFrameSize_def)
  show "fst (ReadFrame fc' (Some (wire_conn (frame_bytes [] @ rest)))) = Inl (InvalidFrameSize 0)"
    by (simp add: ReadFrame_def readFrameInternal_def io_ReadFull_def wire_conn_def frame_bytes_def header_roundtrip)
qed


subsection \<open>The client program's reader\<close>

lemma client_ioReadFull_ok:
  "n - length got \<le> length (cn_in c) \<Longrightarrow> length got \<le> n \<Longrightarrow>
     client_ioReadFull arrived c n got =
       ((got @ take (n - length got) (cn_in c), None), c\<lparr>cn_in := drop (n - length got) (cn_in c)\<rparr>)"
proof (induction arrived c n got rule: client_ioReadFull.induct)
  case (1 arrived c n got)
  show ?case
  proof (cases "length got < n")
    case False
    then show ?thesis using "1.prems" by (subst client_ioReadFull.simps) simp
  next
    case True
    then have ne: "cn_in c \<noteq> []" using "1.prems" by auto
    define k where "k = min (n - length got) (max 1 (arrived (cn_in c)))"
    have k: "1 \<le> k" "k \<le> n - length got" "k \<le> length (cn_in c)" using True "1.prems" by (auto simp: k_def)
    have rd: "conn_Read arrived c (n - length got) = (Inr (take k (cn_in c)), c\<lparr>cn_in := drop k (cn_in c)\<rparr>)"
      using True ne by (simp add: conn_Read_def k_def Let_def)
    have ih: "client_ioReadFull arrived (c\<lparr>cn_in := drop k (cn_in c)\<rparr>) n (got @ take k (cn_in c)) =
        ((got @ take k (cn_in c) @ take (n - length got - k) (drop k (cn_in c)), None),
         c\<lparr>cn_in := drop (n - length got - k) (drop k (cn_in c))\<rparr>)"
      using "1.IH" [OF True rd [symmetric] refl] k "1.prems" by (simp add: min_absorb2)
    have "take k (cn_in c) @ take (n - length got - k) (drop k (cn_in c)) = take (n - length got) (cn_in c)"
      using k by (metis le_add_diff_inverse take_add)
    moreover have "drop (n - length got - k) (drop k (cn_in c)) = drop (n - length got) (cn_in c)" using k by simp
    ultimately show ?thesis using ih rd True by (subst client_ioReadFull.simps) simp
  qed
qed

definition client_read :: "(string \<Rightarrow> nat) \<Rightarrow> string \<Rightarrow> (string \<times> string) option" where
  "client_read arrived s = (case client_readFrame arrived (wire_conn s) of
     (Inr (p, None), c) \<Rightarrow> Some (p, cn_in c)
   | _ \<Rightarrow> None)"

lemma client_readFrame_ok:
  assumes "int (length p) < 2 ^ 32" and "4 \<le> arrived (frame_bytes p @ rest)" and "cn_in c = frame_bytes p @ rest"
  shows "client_readFrame arrived c = (Inr (p, None), c\<lparr>cn_in := rest\<rparr>)"
proof -
  have "conn_Read arrived c 4 = (Inr (BigEndian_PutUint32 (int (length p))), c\<lparr>cn_in := p @ rest\<rparr>)"
    using assms(2,3) header_length [of "int (length p)"]
    by (auto simp: conn_Read_def frame_bytes_def Let_def min_absorb1 simp del: header_length)
  then show ?thesis
    using assms(1) by (simp add: client_readFrame_def header_roundtrip Let_def client_ioReadFull_ok)
qed

interpretation client_framing: framing frame_bytes "client_read arrived"
  "\<lambda>p rest. int (length p) < 2 ^ 32 \<and> 4 \<le> arrived (frame_bytes p @ rest)" for arrived
proof
  fix p rest :: string
  assume "int (length p) < 2 ^ 32 \<and> 4 \<le> arrived (frame_bytes p @ rest)"
  then show "client_read arrived (frame_bytes p @ rest) = Some (p, rest)"
    using client_readFrame_ok [of p arrived rest "wire_conn (frame_bytes p @ rest)"]
    by (simp add: client_read_def wire_conn_def)
qed

text \<open>
  C25: server and client frames interoperate. The client program writes the same bytes as the
  server for every payload the server may send. When the four bytes of each header have arrived
  by the time the client starts to read that frame, and however the rest of the stream is cut into pieces, down to
  single bytes of a payload, the client reads
  any sequence of such frames back as the payloads, like the server does.
\<close>

theorem client_server_interop:
  assumes "list_all frame_valid ps"
    and "\<forall>i < length ps. 4 \<le> arrived (concat (map frame_bytes (drop i ps)) @ rest)"
  shows "framing.read_many (client_read arrived) (length ps) (concat (map frame_bytes ps) @ rest) = (ps, rest) \<and>
    framing.read_many frame_read (length ps) (concat (map frame_bytes ps) @ rest) = (ps, rest) \<and>
    list_all (\<lambda>p. client_writeFrame p (wire_conn []) = (None, (wire_conn [])\<lparr>cn_out := frame_bytes p\<rparr>) \<and>
      WriteFrame (Some fc) p (wire_conn []) = (None, (wire_conn [])\<lparr>cn_out := frame_bytes p\<rparr>)) ps"
proof -
  have "int (length (ps ! i)) < 2 ^ 32 \<and> 4 \<le> arrived (frame_bytes (ps ! i) @ concat (map frame_bytes (drop (Suc i) ps)) @ rest)"
    if "i < length ps" for i
    using assms that by (auto simp: list_all_length frame_valid_def MaxFrameSize_def Cons_nth_drop_Suc [symmetric])
  note client = client_framing.read_many_enc [OF this]
  have server: "framing.read_many frame_read (length ps) (concat (map frame_bytes ps) @ rest) = (ps, rest)"
    using assms(1) by (intro server_framing.read_many_enc) (simp add: list_all_length)
  have "client_writeFrame p (wire_conn []) = (None, (wire_conn [])\<lparr>cn_out := frame_bytes p\<rparr>)" if "frame_valid p" for p
    using that by (simp add: client_writeFrame_def conn_Write_def wire_conn_def frame_bytes_def frame_valid_def MaxFrameSize_def)
  moreover have "WriteFrame (Some fc) p (wire_conn []) = (None, (wire_conn [])\<lparr>cn_out := frame_bytes p\<rparr>)" if "frame_valid p" for p
    using that by (subst WriteFrame_ok) (simp_all add: wire_conn_def frame_valid_def)
  ultimately show ?thesis using client server assms(1) by (auto simp: list_all_iff)
qed

text \<open>The witness delivers the payloads byte by byte: more is there only where a header starts.\<close>

definition byte_wise :: "string \<Rightarrow> nat" where
  "byte_wise s = (if take 3 s = replicate 3 (char_of (0 :: int)) then 4 else 1)"

theorem client_server_interop_witness:
  "byte_wise (''ab'' @ concat (map frame_bytes [''c'']) @ ''x'') = 1 \<and>
   framing.read_many (client_read byte_wise) 2 (concat (map frame_bytes [''ab'', ''c'']) @ ''x'') = ([''ab'', ''c''], ''x'')"
proof -
  have "list_all frame_valid [''ab'', ''c'']" by (simp add: frame_valid_def MaxFrameSize_def)
  moreover have "4 \<le> byte_wise (concat (map frame_bytes (drop 0 [''ab'', ''c''])) @ ''x'')"
    "4 \<le> byte_wise (concat (map frame_bytes (drop 1 [''ab'', ''c''])) @ ''x'')" by code_simp+
  then have "\<forall>i < length [''ab'', ''c'']. 4 \<le> byte_wise (concat (map frame_bytes (drop i [''ab'', ''c''])) @ ''x'')"
    by (simp add: less_Suc_eq)
  moreover have "byte_wise (''ab'' @ concat (map frame_bytes [''c'']) @ ''x'') = 1" by code_simp
  ultimately show ?thesis using client_server_interop [of "[''ab'', ''c'']" byte_wise "''x''"] by (simp add: numeral_2_eq_2)
qed

text \<open>
  A split header breaks the client. The client reads the four header bytes with a single
  \<open>Read\<close>, which may return fewer: when only three have arrived, the reader takes a frame of 1 to
  255 bytes for an empty one, reports no error, and leaves the last header byte and the payload in
  the stream to be read as the next frame.
\<close>

theorem client_header_split:
  assumes "0 < length p" and "length p < 256" and "arrived (frame_bytes p @ rest) = 3"
  shows "client_readFrame arrived (wire_conn (frame_bytes p @ rest)) =
    (Inr ([], None), wire_conn (char_of (int (length p)) # p @ rest))"
proof -
  let ?z = "char_of (0 :: int)" and ?n = "int (length p)"
  have h: "BigEndian_PutUint32 ?n = [?z, ?z, ?z, char_of ?n]"
    using assms(2) by (simp add: BigEndian_PutUint32_def utf8_def)
  have "conn_Read arrived (wire_conn (frame_bytes p @ rest)) 4 = (Inr [?z, ?z, ?z], wire_conn (char_of ?n # p @ rest))"
    using assms(3) h by (simp add: conn_Read_def wire_conn_def frame_bytes_def numeral_3_eq_3)
  moreover have "BigEndian_Uint32 [?z, ?z, ?z, ?z] = 0" by code_simp
  ultimately show ?thesis
    by (simp add: client_readFrame_def client_ioReadFull.simps)
qed

theorem client_header_split_witness:
  "client_readFrame (\<lambda>_. 3) (wire_conn (frame_bytes ''hello'')) = (Inr ([], None), wire_conn (char_of (5 :: int) # ''hello''))"
  using client_header_split [of "''hello''" "\<lambda>_. 3" "[]"] by simp

end
