(* ===== verification/Go_Json.thy ===== *)
theory Go_Json
  imports Go_String_Lemmas
begin

section \<open>Package encoding/json and encoding/base64\<close>

text \<open>
  What the program uses of the standard library's JSON: the text of strings (with the HTML
  escapes that \<open>Marshal\<close> and \<open>Encoder\<close> apply), integers and byte slices; a parser of JSON values
  with the library's nesting limit; and the assignment of an object's members to the fields of a
  struct (exact name first, then ignoring case; \<open>null\<close> assigns nothing; the first mismatch is the
  error returned, the other members are still assigned).
\<close>

subsection \<open>Base64\<close>

definition b64_alphabet :: string where
  "b64_alphabet = ''ABCDEFGHIJKLMNOPQRSTUVWXYZabcdefghijklmnopqrstuvwxyz0123456789+/''"

definition b64_char :: "int \<Rightarrow> char" where
  "b64_char v = b64_alphabet ! nat v"

definition b64_val :: "char \<Rightarrow> int option" where
  "b64_val c = (let b = byte_of c in
     if 65 \<le> b \<and> b \<le> 90 then Some (b - 65)
     else if 97 \<le> b \<and> b \<le> 122 then Some (b - 71)
     else if 48 \<le> b \<and> b \<le> 57 then Some (b + 4)
     else if b = 43 then Some 62 else if b = 47 then Some 63 else None)"

fun b64_encode :: "string \<Rightarrow> string" where
  "b64_encode [] = []"
| "b64_encode [a] = (let x = byte_of a in
     [b64_char (x div 4), b64_char (x mod 4 * 16), CHR ''='', CHR ''=''])"
| "b64_encode [a, b] = (let x = byte_of a; y = byte_of b in
     [b64_char (x div 4), b64_char (x mod 4 * 16 + y div 16), b64_char (y mod 16 * 4), CHR ''=''])"
| "b64_encode (a # b # c # rest) = (let x = byte_of a; y = byte_of b; z = byte_of c in
     [b64_char (x div 4), b64_char (x mod 4 * 16 + y div 16), b64_char (y mod 16 * 4 + z div 64),
      b64_char (z mod 64)] @ b64_encode rest)"

text \<open>Line breaks are skipped; padding is required and ends the text.\<close>

fun b64_quads :: "string \<Rightarrow> string option" where
  "b64_quads [] = Some []"
| "b64_quads (a # b # c # d # rest) =
     (case (b64_val a, b64_val b) of
        (Some w, Some x) \<Rightarrow>
          if c = CHR ''='' then
            (if d = CHR ''='' \<and> rest = [] then Some [char_of (w * 4 + x div 16)] else None)
          else (case b64_val c of
              None \<Rightarrow> None
            | Some y \<Rightarrow>
                if d = CHR ''='' then
                  (if rest = [] then Some [char_of (w * 4 + x div 16), char_of (x mod 16 * 16 + y div 4)] else None)
                else (case b64_val d of
                    None \<Rightarrow> None
                  | Some z \<Rightarrow> map_option
                      (\<lambda>t. char_of (w * 4 + x div 16) # char_of (x mod 16 * 16 + y div 4) # char_of (y mod 4 * 64 + z) # t)
                      (b64_quads rest)))
      | _ \<Rightarrow> None)"
| "b64_quads _ = None"

definition b64_decode :: "string \<Rightarrow> string option" where
  "b64_decode s = b64_quads (filter (\<lambda>c. c \<noteq> CHR 0x0A \<and> c \<noteq> CHR 0x0D) s)"

subsection \<open>Output\<close>

definition hex_digit :: "int \<Rightarrow> char" where
  "hex_digit d = ''0123456789abcdef'' ! nat d"

definition quote_char :: char where "quote_char = CHR 0x22"
definition backslash :: char where "backslash = CHR 0x5C"

text \<open>One rune of a string literal; an invalid byte is written as the escaped error rune.\<close>

definition json_rune :: "rune \<Rightarrow> string \<Rightarrow> string" where
  "json_rune r bs =
     (if r = 34 then [backslash, quote_char]
      else if r = 92 then [backslash, backslash]
      else if r = 8 then [backslash, CHR ''b''] else if r = 12 then [backslash, CHR ''f'']
      else if r = 10 then [backslash, CHR ''n''] else if r = 13 then [backslash, CHR ''r'']
      else if r = 9 then [backslash, CHR ''t'']
      else if r < 32 \<or> r = 60 \<or> r = 62 \<or> r = 38
           then [backslash] @ ''u00'' @ [hex_digit (r div 16), hex_digit (r mod 16)]
      else if r < 128 then bs
      else if r = rune_error \<and> length bs = 1 then [backslash] @ ''ufffd''
      else if r = 8232 \<or> r = 8233 then [backslash] @ ''u202'' @ [hex_digit (r mod 16)]
      else bs)"

definition json_string :: "string \<Rightarrow> string" where
  "json_string s = [quote_char] @ concat (map (\<lambda>(r, bs). json_rune r bs) (runes s)) @ [quote_char]"

definition json_int :: "int64 \<Rightarrow> string" where
  "json_int i = strconv_Itoa (sint i)"

definition json_bool :: "bool \<Rightarrow> string" where
  "json_bool b = (if b then ''true'' else ''false'')"

text \<open>A byte slice and a slice of strings; \<open>None\<close> is the nil slice.\<close>

definition json_bytes :: "string option \<Rightarrow> string" where
  "json_bytes b = (case b of None \<Rightarrow> ''null'' | Some s \<Rightarrow> [quote_char] @ b64_encode s @ [quote_char])"

definition json_strings :: "string list option \<Rightarrow> string" where
  "json_strings xs = (case xs of None \<Rightarrow> ''null''
     | Some ss \<Rightarrow> ''['' @ strings_Join (map json_string ss) '','' @ '']'')"

definition json_member :: "string \<Rightarrow> string \<Rightarrow> string" where
  "json_member name v = [quote_char] @ name @ [quote_char] @ '':'' @ v"

definition json_object :: "string list \<Rightarrow> string" where
  "json_object ms = ''{'' @ strings_Join ms '','' @ ''}''"

text \<open>A string member with \<open>omitempty\<close>.\<close>

definition omitempty :: "string \<Rightarrow> string \<Rightarrow> string list" where
  "omitempty k v = (if v = [] then [] else [json_member k (json_string v)])"

subsection \<open>Input\<close>

datatype jval = JNull | JBool bool | JNum string | JStr string | JArr "jval list" | JObj "(string \<times> jval) list"

definition is_ws :: "char \<Rightarrow> bool" where
  "is_ws c \<longleftrightarrow> c = CHR '' '' \<or> c = CHR 0x09 \<or> c = CHR 0x0A \<or> c = CHR 0x0D"

definition skip_ws :: "string \<Rightarrow> string" where
  "skip_ws s = dropWhile is_ws s"

definition hex_val :: "char \<Rightarrow> int option" where
  "hex_val c = (let b = byte_of c in
     if 48 \<le> b \<and> b \<le> 57 then Some (b - 48)
     else if 97 \<le> b \<and> b \<le> 102 then Some (b - 87)
     else if 65 \<le> b \<and> b \<le> 70 then Some (b - 55) else None)"

fun hex4 :: "string \<Rightarrow> int option" where
  "hex4 (a # b # c # d # _) =
     (case (hex_val a, hex_val b, hex_val c, hex_val d) of
        (Some w, Some x, Some y, Some z) \<Rightarrow> Some (w * 4096 + x * 256 + y * 16 + z)
      | _ \<Rightarrow> None)"
| "hex4 _ = None"

definition is_surrogate :: "int \<Rightarrow> bool" where
  "is_surrogate r \<longleftrightarrow> 55296 \<le> r \<and> r \<le> 57343"

text \<open>\<open>utf16.DecodeRune\<close> of the escape that follows, if it completes the pair.\<close>

definition pair_rune :: "int \<Rightarrow> string \<Rightarrow> int option" where
  "pair_rune r s = (case s of
     x # y # t \<Rightarrow> if x = backslash \<and> y = CHR ''u'' then
         (case hex4 t of
            Some r2 \<Rightarrow> if r < 56320 \<and> 56320 \<le> r2 \<and> r2 \<le> 57343
                       then Some ((r - 55296) * 1024 + (r2 - 56320) + 65536) else None
          | None \<Rightarrow> None)
       else None
   | _ \<Rightarrow> None)"

definition simple_escape :: "char \<Rightarrow> char option" where
  "simple_escape e =
     (if e = quote_char \<or> e = backslash \<or> e = CHR ''/'' then Some e
      else if e = CHR ''b'' then Some (CHR 0x08) else if e = CHR ''f'' then Some (CHR 0x0C)
      else if e = CHR ''n'' then Some (CHR 0x0A) else if e = CHR ''r'' then Some (CHR 0x0D)
      else if e = CHR ''t'' then Some (CHR 0x09) else None)"

definition prepend :: "string \<Rightarrow> (string \<times> string) option \<Rightarrow> (string \<times> string) option" where
  "prepend p = map_option (\<lambda>(s, rest). (p @ s, rest))"

text \<open>The rest of a string literal after its opening quote: the string it denotes and what follows.\<close>

function (sequential) parse_str :: "string \<Rightarrow> (string \<times> string) option" where
  "parse_str [] = None"
| "parse_str (c # cs) =
     (if c = quote_char then Some ([], cs)
      else if c = backslash then
        (case cs of
           [] \<Rightarrow> None
         | e # rest \<Rightarrow>
             (case simple_escape e of
                Some x \<Rightarrow> prepend [x] (parse_str rest)
              | None \<Rightarrow>
                  if e = CHR ''u'' then
                    (case hex4 rest of
                       None \<Rightarrow> None
                     | Some r \<Rightarrow>
                         if is_surrogate r then
                           (case pair_rune r (drop 4 rest) of
                              Some q \<Rightarrow> prepend (encode_rune q) (parse_str (drop 10 rest))
                            | None \<Rightarrow> prepend (encode_rune rune_error) (parse_str (drop 4 rest)))
                         else prepend (encode_rune r) (parse_str (drop 4 rest)))
                  else None))
      else if byte_of c < 32 then None
      else if byte_of c < 128 then prepend [c] (parse_str cs)
      else (case decode_rune (c # cs) of (r, n) \<Rightarrow> prepend (encode_rune r) (parse_str (drop (n - 1) cs))))"
  by pat_completeness auto
termination
  by (relation "measure length") auto

declare parse_str.simps [simp del]

definition is_dec :: "char \<Rightarrow> bool" where
  "is_dec c \<longleftrightarrow> 48 \<le> byte_of c \<and> byte_of c \<le> 57"

definition int_part :: "string \<Rightarrow> (string \<times> string) option" where
  "int_part s = (case s of
     [] \<Rightarrow> None
   | d # t \<Rightarrow> if d = CHR ''0'' then Some ([d], t)
              else if is_dec d then Some (takeWhile is_dec s, dropWhile is_dec s) else None)"

definition frac_part :: "string \<Rightarrow> (string \<times> string) option" where
  "frac_part s = (case s of
     c # t \<Rightarrow> if c = CHR ''.'' then
        (if takeWhile is_dec t = [] then None else Some (c # takeWhile is_dec t, dropWhile is_dec t))
       else Some ([], s)
   | [] \<Rightarrow> Some ([], s))"

definition exp_part :: "string \<Rightarrow> (string \<times> string) option" where
  "exp_part s = (case s of
     c # t \<Rightarrow> if c = CHR ''e'' \<or> c = CHR ''E'' then
        (let (sgn, u) = (case t of x # t' \<Rightarrow> if x = CHR ''+'' \<or> x = CHR ''-'' then ([x], t') else ([], t) | [] \<Rightarrow> ([], t))
         in if takeWhile is_dec u = [] then None else Some (c # sgn @ takeWhile is_dec u, dropWhile is_dec u))
       else Some ([], s)
   | [] \<Rightarrow> Some ([], s))"

definition parse_num :: "string \<Rightarrow> (string \<times> string) option" where
  "parse_num s =
     (let (sgn, s0) = (case s of c # t \<Rightarrow> if c = CHR ''-'' then ([c], t) else ([], s) | [] \<Rightarrow> ([], s)) in
      case int_part s0 of None \<Rightarrow> None | Some (i, s1) \<Rightarrow>
      (case frac_part s1 of None \<Rightarrow> None | Some (f, s2) \<Rightarrow>
      (case exp_part s2 of None \<Rightarrow> None | Some (e, s3) \<Rightarrow> Some (sgn @ i @ f @ e, s3))))"

definition starts :: "string \<Rightarrow> string \<Rightarrow> bool" where
  "starts p s \<longleftrightarrow> take (length p) s = p"

lemma skip_ws_le: "length (skip_ws s) \<le> length s"
  by (simp add: skip_ws_def length_dropWhile_le)

lemma skip_ws_Cons: "skip_ws s = c # cs \<Longrightarrow> length cs < length s"
  using skip_ws_le [of s] by simp

lemma parse_str_le: "parse_str s = Some (t, rest) \<Longrightarrow> length rest < length s"
proof (induction s arbitrary: t rest rule: measure_induct_rule [of length])
  case (less s)
  show ?case
  proof (cases s)
    case Nil
    then show ?thesis using less.prems by (simp add: parse_str.simps)
  next
    case (Cons c cs)
    have IH: "length r' \<le> length cs" if "parse_str u = Some (t', r')" "length u \<le> length cs" for u t' r'
      using less.IH [of u t' r'] that Cons by simp
    have tails: "parse_str cs = Some (t', r') \<Longrightarrow> length r' \<le> length cs"
      "cs = e # u \<Longrightarrow> parse_str u = Some (t', r') \<Longrightarrow> length r' \<le> Suc (length u)"
      "cs = e # u \<Longrightarrow> parse_str (drop k u) = Some (t', r') \<Longrightarrow> length r' \<le> Suc (length u)"
      "parse_str (drop k cs) = Some (t', r') \<Longrightarrow> length r' \<le> length cs" for e k u t' r'
      using IH by fastforce+
    have "length rest \<le> length cs" using less.prems unfolding Cons parse_str.simps prepend_def
      by (auto split: if_splits list.splits option.splits prod.splits dest: tails)
    then show ?thesis by (simp add: Cons)
  qed
qed

subsection \<open>Values\<close>

text \<open>
  \<open>d\<close> is the number of levels that may still be opened. The guards on the lengths hold always (a
  value consumes input); they make the recursion well-founded.
\<close>

function (sequential) jvalue :: "nat \<Rightarrow> string \<Rightarrow> (jval \<times> string) option"
  and jelems :: "nat \<Rightarrow> string \<Rightarrow> (jval list \<times> string) option"
  and jmembers :: "nat \<Rightarrow> string \<Rightarrow> ((string \<times> jval) list \<times> string) option" where
  "jvalue d s0 = (case skip_ws s0 of
     [] \<Rightarrow> None
   | c # cs \<Rightarrow>
      if c = quote_char then map_option (\<lambda>(t, rest). (JStr t, rest)) (parse_str cs)
      else if c = CHR ''{'' then
        (if d = 0 then None
         else case skip_ws cs of
           [] \<Rightarrow> None
         | x # xs \<Rightarrow> if x = CHR ''}'' then Some (JObj [], xs)
                     else map_option (\<lambda>(ms, rest). (JObj ms, rest)) (jmembers (d - 1) (x # xs)))
      else if c = CHR ''['' then
        (if d = 0 then None
         else case skip_ws cs of
           [] \<Rightarrow> None
         | x # xs \<Rightarrow> if x = CHR '']'' then Some (JArr [], xs)
                     else map_option (\<lambda>(vs, rest). (JArr vs, rest)) (jelems (d - 1) (x # xs)))
      else if starts ''null'' (c # cs) then Some (JNull, drop 4 (c # cs))
      else if starts ''true'' (c # cs) then Some (JBool True, drop 4 (c # cs))
      else if starts ''false'' (c # cs) then Some (JBool False, drop 5 (c # cs))
      else map_option (\<lambda>(n, rest). (JNum n, rest)) (parse_num (c # cs)))"
| "jelems d s = (case jvalue d s of
     None \<Rightarrow> None
   | Some (v, rest) \<Rightarrow> (case skip_ws rest of
        [] \<Rightarrow> None
      | c # cs \<Rightarrow>
          if c = CHR '']'' then Some ([v], cs)
          else if c = CHR '','' \<and> length cs < length s then
            map_option (\<lambda>(vs, r). (v # vs, r)) (jelems d cs)
          else None))"
| "jmembers d s = (case skip_ws s of
     [] \<Rightarrow> None
   | q # s1 \<Rightarrow>
      if q \<noteq> quote_char then None
      else case parse_str s1 of
        None \<Rightarrow> None
      | Some (k, s2) \<Rightarrow> (case skip_ws s2 of
           [] \<Rightarrow> None
         | e # s3 \<Rightarrow>
            if e \<noteq> CHR '':'' then None
            else case jvalue d s3 of
              None \<Rightarrow> None
            | Some (v, rest) \<Rightarrow> (case skip_ws rest of
                 [] \<Rightarrow> None
               | c # cs \<Rightarrow>
                   if c = CHR ''}'' then Some ([(k, v)], cs)
                   else if c = CHR '','' \<and> length cs < length s then
                     map_option (\<lambda>(ms, r). ((k, v) # ms, r)) (jmembers d cs)
                   else None)))"
  by pat_completeness auto
termination
  by (relation "measure (\<lambda>x. case x of Inl (d, s) \<Rightarrow> 2 * length s | Inr (Inl (d, s)) \<Rightarrow> 2 * length s + 1
    | Inr (Inr (d, s)) \<Rightarrow> 2 * length s + 1)")
    (auto dest!: parse_str_le skip_ws_Cons)

declare jvalue.simps [simp del] jelems.simps [simp del] jmembers.simps [simp del]


text \<open>Every value consumes input, so the guards above never refuse a text.\<close>

lemma int_part_le: "int_part s = Some (i, r) \<Longrightarrow> length r < length s"
  by (auto simp: int_part_def split: list.splits if_splits intro: le_less_trans [OF length_dropWhile_le])

lemma frac_part_le: "frac_part s = Some (i, r) \<Longrightarrow> length r \<le> length s"
  by (auto simp: frac_part_def split: list.splits if_splits intro: le_trans [OF length_dropWhile_le] le_SucI)

lemma exp_part_le: "exp_part s = Some (i, r) \<Longrightarrow> length r \<le> length s"
  by (auto simp: exp_part_def Let_def split: list.splits if_splits prod.splits
      intro: le_trans [OF length_dropWhile_le] le_SucI)

lemma parse_num_le: "parse_num s = Some (n, r) \<Longrightarrow> length r < length s"
  by (auto simp: parse_num_def Let_def split: list.splits if_splits prod.splits option.splits
      dest!: int_part_le frac_part_le exp_part_le)

text \<open>One level each: the rest is shorter when that holds for what is read on the way.\<close>

lemma jvalue_shorter:
  assumes "\<And>d u vs r. length u < length s \<Longrightarrow> jelems d u = Some (vs, r) \<Longrightarrow> length r < length u"
    and "\<And>d u ms r. length u < length s \<Longrightarrow> jmembers d u = Some (ms, r) \<Longrightarrow> length r < length u"
    and "jvalue d s = Some (v, rest)"
  shows "length rest < length s"
proof (cases "skip_ws s")
  case (Cons c cs)
  have len: "length cs < length s" by (rule skip_ws_Cons [OF Cons])
  have inner: "Suc (length xs) < length s" if "skip_ws cs = x # xs" for x xs using skip_ws_le [of cs] that len by simp
  consider "c = quote_char" | "c \<noteq> quote_char" "c = CHR ''{''" | "c \<noteq> quote_char" "c = CHR ''[''"
    | "c \<noteq> quote_char" "c \<noteq> CHR ''{''" "c \<noteq> CHR ''[''" by blast
  then show ?thesis
  proof cases
    case 2
    then show ?thesis using assms(3) Cons inner
      by (auto simp: jvalue.simps split: list.splits if_splits dest!: assms(2) [rotated])
  next
    case 3
    then show ?thesis using assms(3) Cons inner
      by (auto simp: jvalue.simps split: list.splits if_splits dest!: assms(1) [rotated])
  qed (use assms(3) Cons len in \<open>auto simp: jvalue.simps split: if_splits dest!: parse_str_le parse_num_le\<close>)
qed (use assms(3) in \<open>simp add: jvalue.simps\<close>)

lemma jelems_shorter:
  assumes "\<And>v r. jvalue d s = Some (v, r) \<Longrightarrow> length r < length s"
    and "\<And>d u vs r. length u < length s \<Longrightarrow> jelems d u = Some (vs, r) \<Longrightarrow> length r < length u"
    and "jelems d s = Some (vs, rest)"
  shows "length rest < length s"
proof -
  obtain v b where v: "jvalue d s = Some (v, b)"
    using assms(3) by (auto simp: jelems.simps split: option.splits)
  obtain c cs where c: "skip_ws b = c # cs"
    using assms(3) v by (auto simp: jelems.simps split: list.splits)
  have "length cs < length s" using assms(1) [OF v] skip_ws_Cons [OF c] by simp
  then show ?thesis using assms(3) v c assms(2) [of cs d _ rest]
    by (auto simp: jelems.simps [of d s] split: if_splits)
qed

lemma jmembers_shorter:
  assumes "\<And>d u v r. length u < length s \<Longrightarrow> jvalue d u = Some (v, r) \<Longrightarrow> length r < length u"
    and "\<And>d u ms r. length u < length s \<Longrightarrow> jmembers d u = Some (ms, r) \<Longrightarrow> length r < length u"
    and "jmembers d s = Some (ms, rest)"
  shows "length rest < length s"
proof -
  obtain q s1 where q: "skip_ws s = q # s1" "q = quote_char"
    using assms(3) by (auto simp: jmembers.simps split: list.splits if_splits)
  obtain k s2 where k: "parse_str s1 = Some (k, s2)"
    using assms(3) q by (auto simp: jmembers.simps split: option.splits)
  obtain e s3 where e: "skip_ws s2 = e # s3" "e = CHR '':''"
    using assms(3) q k by (auto simp: jmembers.simps split: list.splits if_splits)
  obtain v b where v: "jvalue d s3 = Some (v, b)"
    using assms(3) q k e by (auto simp: jmembers.simps split: option.splits)
  obtain c cs where c: "skip_ws b = c # cs"
    using assms(3) q k e v by (auto simp: jmembers.simps split: list.splits)
  have "length s3 < length s" using skip_ws_Cons [OF q(1)] parse_str_le [OF k] skip_ws_Cons [OF e(1)] by simp
  then have "length cs < length s" using assms(1) [OF _ v] skip_ws_Cons [OF c] by simp
  then show ?thesis using assms(3) q k e v c assms(2) [of cs d _ rest]
    by (auto simp: jmembers.simps [of d s] split: if_splits)
qed

lemma parse_consumes:
  "(\<forall>d v rest. jvalue d s = Some (v, rest) \<longrightarrow> length rest < length s) \<and>
   (\<forall>d vs rest. jelems d s = Some (vs, rest) \<longrightarrow> length rest < length s) \<and>
   (\<forall>d ms rest. jmembers d s = Some (ms, rest) \<longrightarrow> length rest < length s)"
proof (induction s rule: length_induct)
  case (1 s)
  have val: "length rest < length s" if "jvalue d s = Some (v, rest)" for d v rest
    by (rule jvalue_shorter [OF _ _ that]) (use 1 in blast)+
  moreover have "length rest < length s" if "jelems d s = Some (vs, rest)" for d vs rest
    by (rule jelems_shorter [OF val _ that]) (use 1 in blast)+
  moreover have "length rest < length s" if "jmembers d s = Some (ms, rest)" for d ms rest
    by (rule jmembers_shorter [OF _ _ that]) (use 1 in blast)+
  ultimately show ?case by blast
qed

subsection \<open>Structs\<close>

datatype json_err = JSyntax | JTypeMismatch | JBase64

definition json_depth :: nat where
  "json_depth = 10000"

text \<open>\<open>foldName\<close>: ASCII letters in upper case; of the other runes only two fold to ASCII.\<close>

definition fold_rune :: "rune \<times> string \<Rightarrow> string" where
  "fold_rune x = (case x of (r, bs) \<Rightarrow>
     if 97 \<le> r \<and> r \<le> 122 then [char_of (r - 32)]
     else if r = 383 then ''S'' else if r = 8490 then ''K''
     else if r = rune_error then encode_rune rune_error else bs)"

definition fold_name :: "string \<Rightarrow> string" where
  "fold_name s = concat (map fold_rune (runes s))"

text \<open>A field: its name and how a JSON value is assigned to it.\<close>

type_synonym 'a json_field = "string \<times> (jval \<Rightarrow> 'a \<Rightarrow> json_err option \<times> 'a)"

definition set_string :: "(string \<Rightarrow> 'a \<Rightarrow> 'a) \<Rightarrow> jval \<Rightarrow> 'a \<Rightarrow> json_err option \<times> 'a" where
  "set_string upd v x = (case v of
     JStr s \<Rightarrow> (None, upd s x) | JNull \<Rightarrow> (None, x) | _ \<Rightarrow> (Some JTypeMismatch, x))"

definition set_int64 :: "(int64 \<Rightarrow> 'a \<Rightarrow> 'a) \<Rightarrow> jval \<Rightarrow> 'a \<Rightarrow> json_err option \<times> 'a" where
  "set_int64 upd v x = (case v of
     JNum lit \<Rightarrow> (case strconv_Atoi lit of
        (i, None) \<Rightarrow> (None, upd (of_int i) x)
      | (_, Some _) \<Rightarrow> (Some JTypeMismatch, x))
   | JNull \<Rightarrow> (None, x) | _ \<Rightarrow> (Some JTypeMismatch, x))"

text \<open>
  A byte slice: base64 text, or an array of numbers below 256. A \<open>null\<close> element leaves the zero
  of a new slice.
\<close>

fun byte_elems :: "jval list \<Rightarrow> json_err option \<times> string" where
  "byte_elems [] = (None, [])"
| "byte_elems (v # vs) =
     (let (e, b) = (case v of
          JNum lit \<Rightarrow> (case uint_loop 10 False 0 lit of
             Inr n \<Rightarrow> if n < 256 then (None, char_of n) else (Some JTypeMismatch, CHR 0x00)
           | Inl _ \<Rightarrow> (Some JTypeMismatch, CHR 0x00))
        | JNull \<Rightarrow> (None, CHR 0x00) | _ \<Rightarrow> (Some JTypeMismatch, CHR 0x00));
        (e', bs) = byte_elems vs
      in (if e = None then e' else e, b # bs))"

definition set_bytes :: "(string \<Rightarrow> 'a \<Rightarrow> 'a) \<Rightarrow> jval \<Rightarrow> 'a \<Rightarrow> json_err option \<times> 'a" where
  "set_bytes upd v x = (case v of
     JStr s \<Rightarrow> (case b64_decode s of Some b \<Rightarrow> (None, upd b x) | None \<Rightarrow> (Some JBase64, x))
   | JNull \<Rightarrow> (None, upd [] x)
   | JArr vs \<Rightarrow> (case byte_elems vs of (e, b) \<Rightarrow> (e, upd b x))
   | _ \<Rightarrow> (Some JTypeMismatch, x))"

definition set_bool :: "(bool \<Rightarrow> 'a \<Rightarrow> 'a) \<Rightarrow> jval \<Rightarrow> 'a \<Rightarrow> json_err option \<times> 'a" where
  "set_bool upd v x = (case v of
     JBool b \<Rightarrow> (None, upd b x) | JNull \<Rightarrow> (None, x) | _ \<Rightarrow> (Some JTypeMismatch, x))"

text \<open>A slice that is told apart from \<open>nil\<close>, and a new slice of strings.\<close>

definition set_nil_bytes :: "(string option \<Rightarrow> 'a \<Rightarrow> 'a) \<Rightarrow> jval \<Rightarrow> 'a \<Rightarrow> json_err option \<times> 'a" where
  "set_nil_bytes upd v x = (case v of JNull \<Rightarrow> (None, upd None x) | _ \<Rightarrow> set_bytes (\<lambda>b. upd (Some b)) v x)"

fun string_elems :: "jval list \<Rightarrow> json_err option \<times> string list" where
  "string_elems [] = (None, [])"
| "string_elems (v # vs) =
     (let (e, s) = set_string (\<lambda>s _. s) v []; (e', ss) = string_elems vs
      in (if e = None then e' else e, s # ss))"

definition set_strings :: "(string list option \<Rightarrow> 'a \<Rightarrow> 'a) \<Rightarrow> jval \<Rightarrow> 'a \<Rightarrow> json_err option \<times> 'a" where
  "set_strings upd v x = (case v of
     JNull \<Rightarrow> (None, upd None x)
   | JArr vs \<Rightarrow> (case string_elems vs of (e, ss) \<Rightarrow> (e, upd (Some ss) x))
   | _ \<Rightarrow> (Some JTypeMismatch, x))"

definition find_field :: "'a json_field list \<Rightarrow> string \<Rightarrow> 'a json_field option" where
  "find_field fs key = (case find (\<lambda>(n, _). n = key) fs of
     Some f \<Rightarrow> Some f
   | None \<Rightarrow> find (\<lambda>(n, _). fold_name n = fold_name key) fs)"

fun set_members :: "'a json_field list \<Rightarrow> (string \<times> jval) list \<Rightarrow> json_err option \<Rightarrow> 'a \<Rightarrow> json_err option \<times> 'a" where
  "set_members fs [] e x = (e, x)"
| "set_members fs ((k, v) # ms) e x = (case find_field fs k of
     None \<Rightarrow> set_members fs ms e x
   | Some (_, assign) \<Rightarrow> (case assign v x of
        (e', x') \<Rightarrow> set_members fs ms (if e = None then e' else e) x'))"

definition set_struct :: "'a json_field list \<Rightarrow> jval \<Rightarrow> 'a \<Rightarrow> json_err option \<times> 'a" where
  "set_struct fs v x = (case v of
     JObj ms \<Rightarrow> set_members fs ms None x
   | JNull \<Rightarrow> (None, x)
   | _ \<Rightarrow> (Some JTypeMismatch, x))"

text \<open>
  \<open>Decoder.Decode\<close> takes the first value of the stream; \<open>json.Unmarshal\<close> wants nothing but white
  space after it and assigns nothing to an invalid text.
\<close>

definition json_Decode :: "'a json_field list \<Rightarrow> string \<Rightarrow> 'a \<Rightarrow> json_err option \<times> 'a" where
  "json_Decode fs s x = (case jvalue json_depth s of
     None \<Rightarrow> (Some JSyntax, x)
   | Some (v, _) \<Rightarrow> set_struct fs v x)"

definition json_Unmarshal :: "'a json_field list \<Rightarrow> string \<Rightarrow> 'a \<Rightarrow> json_err option \<times> 'a" where
  "json_Unmarshal fs s x = (case jvalue json_depth s of
     None \<Rightarrow> (Some JSyntax, x)
   | Some (v, rest) \<Rightarrow> if skip_ws rest = [] then set_struct fs v x else (Some JSyntax, x))"

end
