(* ===== verification/Protocol.thy ===== *)
theory Protocol
  imports Go_Json
begin

section \<open>The protocol layer (internal/protocol)\<close>

text \<open>
  Envelopes and payloads, the message factory, the JSON and the protobuf codec and the manager
  that holds one of them. Identifiers (\<open>uuid\<close>) and clock readings are arguments of the factory
  methods; the protobuf library (\<open>proto.Marshal\<close>, \<open>proto.Unmarshal\<close>) is a parameter. Writers and
  readers are the bytes written and the bytes to read: every caller encodes into a buffer and
  decodes from the bytes of one frame.
\<close>

subsection \<open>Envelopes and payloads (envelope.go, protocol.go)\<close>

record Envelope =
  e_Version :: string
  e_Type :: string
  e_Encoding :: string
  e_From :: string
  e_Mid :: string
  e_Correlation :: string
  e_Ts :: int64
  e_Data :: string

definition zero_Envelope :: Envelope where
  "zero_Envelope = \<lparr>e_Version = [], e_Type = [], e_Encoding = [], e_From = [], e_Mid = [],
     e_Correlation = [], e_Ts = 0, e_Data = []\<rparr>"

record TextPayload =
  tp_Text :: string

record SetNickPayload =
  np_Nick :: string

record ChatPayload =
  hp_Content :: string

record CommandPayload =
  cp_Raw :: string

record AckPayload =
  ap_Status :: string

record DirectPayload =
  dp_To :: "string list option"
  dp_Content :: string

record PingPayload =
  pg_Seq :: int64
  pg_Timestamp :: int64

record FileMetaPayload =
  fm_Name :: string
  fm_Size :: int64
  fm_MimeType :: string
  fm_Checksum :: string

record FileChunkPayload =
  fk_FileID :: string
  fk_ChunkID :: int64
  fk_Data :: "string option"
  fk_IsLast :: bool
  fk_Checksum :: string

definition EncodingJSON :: string where "EncodingJSON = ''json''"
definition EncodingProtobuf :: string where "EncodingProtobuf = ''protobuf''"

definition MsgNick :: string where "MsgNick = ''nick''"
definition MsgText :: string where "MsgText = ''text''"
definition MsgCommand :: string where "MsgCommand = ''command''"
definition MsgFileMeta :: string where "MsgFileMeta = ''file_meta''"
definition MsgFileChunk :: string where "MsgFileChunk = ''file_chunk''"
definition MsgAck :: string where "MsgAck = ''ack''"
definition MsgPing :: string where "MsgPing = ''ping''"
definition MsgPong :: string where "MsgPong = ''pong''"
definition MsgHeartbeat :: string where "MsgHeartbeat = ''heartbeat''"

lemmas msg_type_defs =
  MsgNick_def MsgText_def MsgCommand_def MsgFileMeta_def MsgFileChunk_def MsgAck_def MsgPing_def
  MsgPong_def MsgHeartbeat_def EncodingJSON_def EncodingProtobuf_def

subsection \<open>The message factory (message_factory.go)\<close>

text \<open>\<open>json.Marshal\<close> of the payloads never fails.\<close>

definition json_text :: "TextPayload \<Rightarrow> string" where
  "json_text p = json_object [json_member ''text'' (json_string (tp_Text p))]"

definition json_nick :: "SetNickPayload \<Rightarrow> string" where
  "json_nick p = json_object [json_member ''nick'' (json_string (np_Nick p))]"

definition json_command :: "CommandPayload \<Rightarrow> string" where
  "json_command p = json_object [json_member ''raw'' (json_string (cp_Raw p))]"

definition json_ack :: "AckPayload \<Rightarrow> string" where
  "json_ack p = json_object [json_member ''status'' (json_string (ap_Status p))]"

definition json_direct :: "DirectPayload \<Rightarrow> string" where
  "json_direct p = json_object [json_member ''to'' (json_strings (dp_To p)), json_member ''content'' (json_string (dp_Content p))]"

definition json_ping :: "int64 \<Rightarrow> int64 \<Rightarrow> string" where
  "json_ping seq ts = json_object [json_member ''seq'' (json_int seq), json_member ''timestamp'' (json_int ts)]"

definition ping_fields :: "PingPayload json_field list" where
  "ping_fields = [(''seq'', set_int64 (\<lambda>v p. p\<lparr>pg_Seq := v\<rparr>)),
     (''timestamp'', set_int64 (\<lambda>v p. p\<lparr>pg_Timestamp := v\<rparr>))]"

definition json_file_meta :: "FileMetaPayload \<Rightarrow> string" where
  "json_file_meta m = json_object [json_member ''name'' (json_string (fm_Name m)),
     json_member ''size'' (json_int (fm_Size m)), json_member ''mime_type'' (json_string (fm_MimeType m)),
     json_member ''checksum'' (json_string (fm_Checksum m))]"

definition json_file_chunk :: "FileChunkPayload \<Rightarrow> string" where
  "json_file_chunk m = json_object [json_member ''file_id'' (json_string (fk_FileID m)),
     json_member ''chunk_id'' (json_int (fk_ChunkID m)), json_member ''data'' (json_bytes (fk_Data m)),
     json_member ''is_last'' (json_bool (fk_IsLast m)), json_member ''checksum'' (json_string (fk_Checksum m))]"

record MessageFactory =
  mf_version :: string

definition NewMessageFactory :: MessageFactory where
  "NewMessageFactory = \<lparr>mf_version = ''1.0''\<rparr>"

definition CreateTextMessage :: "MessageFactory \<Rightarrow> string \<Rightarrow> int64 \<Rightarrow> string \<Rightarrow> Envelope" where
  "CreateTextMessage f uuid now txt = zero_Envelope\<lparr>e_Version := mf_version f, e_Type := MsgText,
     e_Encoding := EncodingJSON, e_Mid := uuid, e_Ts := now,
     e_Data := json_text \<lparr>tp_Text = txt\<rparr>\<rparr>"

definition CreateSetNickMessage :: "MessageFactory \<Rightarrow> string \<Rightarrow> int64 \<Rightarrow> string \<Rightarrow> Envelope" where
  "CreateSetNickMessage f uuid now nick = zero_Envelope\<lparr>e_Version := mf_version f, e_Type := MsgText,
     e_Encoding := EncodingJSON, e_Mid := uuid, e_Ts := now,
     e_Data := json_nick \<lparr>np_Nick = nick\<rparr>\<rparr>"

definition CreateCommandMessage :: "MessageFactory \<Rightarrow> string \<Rightarrow> int64 \<Rightarrow> string \<Rightarrow> Envelope" where
  "CreateCommandMessage f uuid now cmd = zero_Envelope\<lparr>e_Version := mf_version f, e_Type := MsgCommand,
     e_Encoding := EncodingJSON, e_Mid := uuid, e_Ts := now,
     e_Data := json_command \<lparr>cp_Raw = cmd\<rparr>\<rparr>"

definition CreateAckMessage :: "MessageFactory \<Rightarrow> string \<Rightarrow> int64 \<Rightarrow> string \<Rightarrow> string \<Rightarrow> Envelope" where
  "CreateAckMessage f uuid now status correlationID = zero_Envelope\<lparr>e_Version := mf_version f, e_Type := MsgAck,
     e_Encoding := EncodingJSON, e_Mid := uuid, e_Correlation := correlationID, e_Ts := now,
     e_Data := json_ack \<lparr>ap_Status = status\<rparr>\<rparr>"

text \<open>Ping and pong read the clock twice: for the payload and for the envelope.\<close>

definition CreatePingMessage :: "MessageFactory \<Rightarrow> string \<Rightarrow> int64 \<Rightarrow> int64 \<Rightarrow> int64 \<Rightarrow> Envelope" where
  "CreatePingMessage f uuid now1 now2 seq = zero_Envelope\<lparr>e_Version := mf_version f, e_Type := MsgPing,
     e_Encoding := EncodingJSON, e_Mid := uuid, e_Ts := now2, e_Data := json_ping seq now1\<rparr>"

definition CreatePongMessage :: "MessageFactory \<Rightarrow> string \<Rightarrow> int64 \<Rightarrow> int64 \<Rightarrow> int64 \<Rightarrow> string \<Rightarrow> Envelope" where
  "CreatePongMessage f uuid now1 now2 seq correlationID = zero_Envelope\<lparr>e_Version := mf_version f, e_Type := MsgPong,
     e_Encoding := EncodingJSON, e_Mid := uuid, e_Correlation := correlationID, e_Ts := now2,
     e_Data := json_ping seq now1\<rparr>"

definition CreateDirectMessage ::
  "MessageFactory \<Rightarrow> string \<Rightarrow> int64 \<Rightarrow> string \<Rightarrow> string list option \<Rightarrow> string \<Rightarrow> Envelope" where
  "CreateDirectMessage f uuid now from dest content = zero_Envelope\<lparr>e_Version := mf_version f, e_Type := MsgText,
     e_Encoding := EncodingJSON, e_From := from, e_Mid := uuid, e_Ts := now,
     e_Data := json_direct \<lparr>dp_To = dest, dp_Content = content\<rparr>\<rparr>"

definition CreateFileMetaMessage :: "MessageFactory \<Rightarrow> string \<Rightarrow> int64 \<Rightarrow> string \<Rightarrow> FileMetaPayload \<Rightarrow> Envelope" where
  "CreateFileMetaMessage f uuid now from meta = zero_Envelope\<lparr>e_Version := mf_version f, e_Type := MsgFileMeta,
     e_Encoding := EncodingJSON, e_Mid := uuid, e_From := from, e_Ts := now, e_Data := json_file_meta meta\<rparr>"

definition CreateFileChunkMessage :: "MessageFactory \<Rightarrow> string \<Rightarrow> int64 \<Rightarrow> string \<Rightarrow> FileChunkPayload \<Rightarrow> Envelope" where
  "CreateFileChunkMessage f uuid now from chunk = zero_Envelope\<lparr>e_Version := mf_version f, e_Type := MsgFileChunk,
     e_Encoding := EncodingJSON, e_Mid := uuid, e_From := from, e_Ts := now, e_Data := json_file_chunk chunk\<rparr>"

subsection \<open>The JSON codec (json_codec.go)\<close>

text \<open>\<open>Encoder.Encode\<close> of an envelope ends with a line break; an empty \<open>Data\<close> is left out.\<close>

definition json_envelope :: "Envelope \<Rightarrow> string" where
  "json_envelope e = json_object
     ([json_member ''version'' (json_string (e_Version e)),
       json_member ''type'' (json_string (e_Type e)),
       json_member ''encoding'' (json_string (e_Encoding e)),
       json_member ''from'' (json_string (e_From e)),
       json_member ''mid'' (json_string (e_Mid e)),
       json_member ''correlation_id'' (json_string (e_Correlation e)),
       json_member ''ts'' (json_int (e_Ts e))] @
      (if e_Data e = [] then [] else [json_member ''data'' (json_bytes (Some (e_Data e)))]))"

definition JSONCodec_Encode :: "Envelope \<Rightarrow> string" where
  "JSONCodec_Encode e = json_envelope e @ [CHR 0x0A]"

definition envelope_fields :: "Envelope json_field list" where
  "envelope_fields =
     [(''version'', set_string (\<lambda>s e. e\<lparr>e_Version := s\<rparr>)),
      (''type'', set_string (\<lambda>s e. e\<lparr>e_Type := s\<rparr>)),
      (''encoding'', set_string (\<lambda>s e. e\<lparr>e_Encoding := s\<rparr>)),
      (''from'', set_string (\<lambda>s e. e\<lparr>e_From := s\<rparr>)),
      (''mid'', set_string (\<lambda>s e. e\<lparr>e_Mid := s\<rparr>)),
      (''correlation_id'', set_string (\<lambda>s e. e\<lparr>e_Correlation := s\<rparr>)),
      (''ts'', set_int64 (\<lambda>i e. e\<lparr>e_Ts := i\<rparr>)),
      (''data'', set_bytes (\<lambda>s e. e\<lparr>e_Data := s\<rparr>))]"

datatype codec_err =
    ReadFirstByteEOF
  | PayloadNotObject
  | JsonDecode json_err
  | MissingType
  | ProtoUnmarshal
  | ProtoMarshal

definition limit_reader :: "int \<Rightarrow> string \<Rightarrow> string" where
  "limit_reader maxSize r = (if 0 < maxSize then take (nat maxSize) r else r)"

definition JSONCodec_Decode :: "string \<Rightarrow> Envelope \<Rightarrow> int \<Rightarrow> codec_err option \<times> Envelope" where
  "JSONCodec_Decode r e maxSize = (case limit_reader maxSize r of
     [] \<Rightarrow> (Some ReadFirstByteEOF, e)
   | c # cs \<Rightarrow>
       if c \<noteq> CHR ''{'' then (Some PayloadNotObject, e)
       else (case json_Decode envelope_fields (c # cs) e of
          (Some err, e') \<Rightarrow> (Some (JsonDecode err), e')
        | (None, e') \<Rightarrow> if e_Type e' = [] then (Some MissingType, e') else (None, e')))"


subsection \<open>The protobuf codec (protobuf_codec.go, pb/envelope.pb.go)\<close>

record pb_Envelope =
  pb_Version :: string
  pb_Type :: int
  pb_Encoding :: int
  pb_MessageId :: string
  pb_CorrelationId :: string
  pb_From :: string
  pb_To :: string
  pb_Timestamp :: int64
  pb_Data :: string

definition ENCODING_UNSPECIFIED :: int where "ENCODING_UNSPECIFIED = 0"
definition ENCODING_JSON :: int where "ENCODING_JSON = 1"
definition ENCODING_PROTOBUF :: int where "ENCODING_PROTOBUF = 2"

definition MSG_TYPE_UNSPECIFIED :: int where "MSG_TYPE_UNSPECIFIED = 0"
definition MSG_TYPE_TEXT :: int where "MSG_TYPE_TEXT = 1"
definition MSG_TYPE_COMMAND :: int where "MSG_TYPE_COMMAND = 2"
definition MSG_TYPE_FILE_META :: int where "MSG_TYPE_FILE_META = 3"
definition MSG_TYPE_FILE_CHUNK :: int where "MSG_TYPE_FILE_CHUNK = 4"
definition MSG_TYPE_ACK :: int where "MSG_TYPE_ACK = 5"
definition MSG_TYPE_PING :: int where "MSG_TYPE_PING = 6"
definition MSG_TYPE_PONG :: int where "MSG_TYPE_PONG = 7"

lemmas pb_enum_defs =
  ENCODING_UNSPECIFIED_def ENCODING_JSON_def ENCODING_PROTOBUF_def MSG_TYPE_UNSPECIFIED_def
  MSG_TYPE_TEXT_def MSG_TYPE_COMMAND_def MSG_TYPE_FILE_META_def MSG_TYPE_FILE_CHUNK_def
  MSG_TYPE_ACK_def MSG_TYPE_PING_def MSG_TYPE_PONG_def

definition toPBEncoding :: "string \<Rightarrow> int" where
  "toPBEncoding enc = (if enc = EncodingJSON then ENCODING_JSON
     else if enc = EncodingProtobuf then ENCODING_PROTOBUF else ENCODING_UNSPECIFIED)"

definition fromPBEncoding :: "int \<Rightarrow> string" where
  "fromPBEncoding enc = (if enc = ENCODING_JSON then EncodingJSON
     else if enc = ENCODING_PROTOBUF then EncodingProtobuf else [])"

definition toPBMsgType :: "string \<Rightarrow> int" where
  "toPBMsgType t =
     (if t = MsgText then MSG_TYPE_TEXT else if t = MsgCommand then MSG_TYPE_COMMAND
      else if t = MsgFileMeta then MSG_TYPE_FILE_META else if t = MsgFileChunk then MSG_TYPE_FILE_CHUNK
      else if t = MsgAck then MSG_TYPE_ACK else if t = MsgPing then MSG_TYPE_PING
      else if t = MsgPong then MSG_TYPE_PONG else MSG_TYPE_UNSPECIFIED)"

definition fromPBMsgType :: "int \<Rightarrow> string" where
  "fromPBMsgType t =
     (if t = MSG_TYPE_TEXT then MsgText else if t = MSG_TYPE_COMMAND then MsgCommand
      else if t = MSG_TYPE_FILE_META then MsgFileMeta else if t = MSG_TYPE_FILE_CHUNK then MsgFileChunk
      else if t = MSG_TYPE_ACK then MsgAck else if t = MSG_TYPE_PING then MsgPing
      else if t = MSG_TYPE_PONG then MsgPong else [])"

text \<open>The protobuf library: \<open>None\<close> is an error.\<close>

record proto_lib =
  proto_Marshal :: "pb_Envelope \<Rightarrow> string option"
  proto_Unmarshal :: "string \<Rightarrow> pb_Envelope option"

definition pb_of_envelope :: "Envelope \<Rightarrow> pb_Envelope" where
  "pb_of_envelope e = \<lparr>pb_Version = e_Version e, pb_Type = toPBMsgType (e_Type e),
     pb_Encoding = toPBEncoding (e_Encoding e), pb_MessageId = e_Mid e, pb_CorrelationId = e_Correlation e,
     pb_From = [], pb_To = [], pb_Timestamp = e_Ts e, pb_Data = e_Data e\<rparr>"

definition envelope_of_pb :: "pb_Envelope \<Rightarrow> Envelope" where
  "envelope_of_pb m = zero_Envelope\<lparr>e_Version := pb_Version m, e_Type := fromPBMsgType (pb_Type m),
     e_Encoding := fromPBEncoding (pb_Encoding m), e_Mid := pb_MessageId m,
     e_Correlation := pb_CorrelationId m, e_Ts := pb_Timestamp m, e_Data := pb_Data m\<rparr>"

definition ProtobufCodec_Encode :: "proto_lib \<Rightarrow> Envelope \<Rightarrow> codec_err + string" where
  "ProtobufCodec_Encode pl e = (case proto_Marshal pl (pb_of_envelope e) of
     None \<Rightarrow> Inl ProtoMarshal | Some d \<Rightarrow> Inr d)"

text \<open>
  The buffer has \<open>maxSize\<close> bytes and is filled by one \<open>Read\<close>: what does not fit is not read, a
  size of 0 reads nothing, a negative size panics.
\<close>

definition ProtobufCodec_Decode ::
  "proto_lib \<Rightarrow> string \<Rightarrow> Envelope \<Rightarrow> int \<Rightarrow> (codec_err option \<times> Envelope) outcome" where
  "ProtobufCodec_Decode pl r e maxSize =
     (if maxSize < 0 then Panic MakeSliceLenOutOfRange
      else case proto_Unmarshal pl (take (nat maxSize) (limit_reader maxSize r)) of
        None \<Rightarrow> Ret (Some ProtoUnmarshal, e)
      | Some m \<Rightarrow> Ret (None, envelope_of_pb m))"

subsection \<open>Codecs and the manager (codec.go, protocol.go)\<close>

datatype MessageCodec = JSONCodec | ProtobufCodec

definition Codec_Name :: "MessageCodec \<Rightarrow> string" where
  "Codec_Name c = (case c of JSONCodec \<Rightarrow> ''json'' | ProtobufCodec \<Rightarrow> ''protobuf'')"

definition Codec_Encode :: "proto_lib \<Rightarrow> MessageCodec \<Rightarrow> Envelope \<Rightarrow> codec_err + string" where
  "Codec_Encode pl c e = (case c of
     JSONCodec \<Rightarrow> Inr (JSONCodec_Encode e) | ProtobufCodec \<Rightarrow> ProtobufCodec_Encode pl e)"

definition Codec_Decode ::
  "proto_lib \<Rightarrow> MessageCodec \<Rightarrow> string \<Rightarrow> Envelope \<Rightarrow> int \<Rightarrow> (codec_err option \<times> Envelope) outcome" where
  "Codec_Decode pl c r e maxSize = (case c of
     JSONCodec \<Rightarrow> Ret (JSONCodec_Decode r e maxSize)
   | ProtobufCodec \<Rightarrow> ProtobufCodec_Decode pl r e maxSize)"

definition CodecJson :: int where "CodecJson = 0"
definition CodecProtobuf :: int where "CodecProtobuf = 1"
definition CodecMsgpack :: int where "CodecMsgpack = 2"

definition CodecFactories :: "int \<rightharpoonup> MessageCodec" where
  "CodecFactories = [CodecJson \<mapsto> JSONCodec, CodecProtobuf \<mapsto> ProtobufCodec]"

definition NewCodec :: "int \<Rightarrow> string + MessageCodec" where
  "NewCodec c = (case CodecFactories c of
     Some f \<Rightarrow> Inr f
   | None \<Rightarrow> Inl (''unsupported codec type: '' @ strconv_Itoa c))"

record Manager =
  pm_codec :: MessageCodec
  pm_factory :: MessageFactory

definition NewProtocolManager :: "int \<Rightarrow> Manager" where
  "NewProtocolManager codecType =
     (let codec = (case NewCodec codecType of Inl _ \<Rightarrow> JSONCodec | Inr c \<Rightarrow> c)
      in \<lparr>pm_codec = codec, pm_factory = NewMessageFactory\<rparr>)"

definition Manager_GetCodec :: "Manager \<Rightarrow> MessageCodec" where
  "Manager_GetCodec p = pm_codec p"

definition Manager_GetMessageFactory :: "Manager \<Rightarrow> MessageFactory" where
  "Manager_GetMessageFactory p = pm_factory p"

definition Manager_EncodeMessage :: "proto_lib \<Rightarrow> Manager \<Rightarrow> Envelope \<Rightarrow> codec_err + string" where
  "Manager_EncodeMessage pl p e = Codec_Encode pl (pm_codec p) e"

definition Manager_DecodeMessage ::
  "proto_lib \<Rightarrow> Manager \<Rightarrow> string \<Rightarrow> Envelope \<Rightarrow> int \<Rightarrow> (codec_err option \<times> Envelope) outcome" where
  "Manager_DecodeMessage pl p r e maxSize = Codec_Decode pl (pm_codec p) r e maxSize"

end
