(* ===== verification/Json_Lemmas.thy ===== *)
theory Json_Lemmas
  imports Go_Json
begin

section \<open>JSON texts are read back\<close>

text \<open>
  The literals that the encoder writes (strings, integers, base64 text) and objects made of them
  are parsed to the values they stand for. A string comes back with every invalid byte replaced
  by the error rune (\<open>to_valid\<close>), so a valid UTF-8 string comes back as it was.
\<close>

subsection \<open>Runes\<close>

lemma decode_rune_cases:
  assumes "decode_rune s = (r, n)" and "s \<noteq> []"
  obtains (ascii) c t where "s = c # t" "byte_of c < 128" "r = byte_of c" "n = 1"
  | (error) c t where "s = c # t" "\<not> byte_of c < 128" "r = rune_error" "n = 1"
  | (two) c0 c1 t where "s = c0 # c1 # t" "n = 2" "194 \<le> byte_of c0" "byte_of c0 \<le> 223"
      "128 \<le> byte_of c1" "byte_of c1 \<le> 191" "r = (byte_of c0 mod 32) * 64 + byte_of c1 mod 64"
  | (three) c0 c1 c2 t where "s = c0 # c1 # c2 # t" "n = 3" "224 \<le> byte_of c0" "byte_of c0 \<le> 239"
      "(if byte_of c0 = 224 then 160 else 128) \<le> byte_of c1" "byte_of c1 \<le> (if byte_of c0 = 237 then 159 else 191)"
      "128 \<le> byte_of c2" "byte_of c2 \<le> 191"
      "r = (byte_of c0 mod 16) * 4096 + (byte_of c1 mod 64) * 64 + byte_of c2 mod 64"
  | (four) c0 c1 c2 c3 t where "s = c0 # c1 # c2 # c3 # t" "n = 4" "240 \<le> byte_of c0" "byte_of c0 \<le> 244"
      "(if byte_of c0 = 240 then 144 else 128) \<le> byte_of c1" "byte_of c1 \<le> (if byte_of c0 = 244 then 143 else 191)"
      "128 \<le> byte_of c2" "byte_of c2 \<le> 191" "128 \<le> byte_of c3" "byte_of c3 \<le> 191"
      "r = (byte_of c0 mod 8) * 262144 + (byte_of c1 mod 64) * 4096 + (byte_of c2 mod 64) * 64 + byte_of c3 mod 64"
proof -
  obtain c0 t0 where s: "s = c0 # t0" using assms(2) by (cases s) auto
  consider "byte_of c0 < 128" | "\<not> byte_of c0 < 128" "n = 1" | "\<not> byte_of c0 < 128" "n \<noteq> 1" by blast
  then show thesis
  proof cases
    case 1
    then show ?thesis using assms(1) s by (intro ascii) (auto simp: decode_rune_def)
  next
    case 2
    then have "r = rune_error" using assms(1) s
      by (auto simp: decode_rune_def split: list.splits if_splits)
    with 2 show ?thesis using s by (intro error) auto
  next
    case 3
    consider (a) "194 \<le> byte_of c0 \<and> byte_of c0 \<le> 223" | (b) "224 \<le> byte_of c0 \<and> byte_of c0 \<le> 239"
      | (c) "240 \<le> byte_of c0 \<and> byte_of c0 \<le> 244"
      | (d) "\<not> (194 \<le> byte_of c0 \<and> byte_of c0 \<le> 223)" "\<not> (224 \<le> byte_of c0 \<and> byte_of c0 \<le> 239)"
          "\<not> (240 \<le> byte_of c0 \<and> byte_of c0 \<le> 244)" by blast
    then show ?thesis
    proof cases
      case a
      then obtain c1 t1 where t: "t0 = c1 # t1" using 3 assms(1) s by (cases t0) (auto simp: decode_rune_def)
      show ?thesis using a 3 assms(1) s t
        by (intro two [of c0 c1 t1]) (auto simp: decode_rune_def cont_byte_def split: if_splits)
    next
      case b
      then obtain c1 c2 t1 where t: "t0 = c1 # c2 # t1"
        using 3 assms(1) s by (cases t0; cases "tl t0") (auto simp: decode_rune_def)
      show ?thesis using b 3 assms(1) s t
        by (intro three [of c0 c1 c2 t1]) (auto simp: decode_rune_def cont_byte_def split: if_splits)
    next
      case c
      then obtain c1 c2 c3 t1 where t: "t0 = c1 # c2 # c3 # t1"
        using 3 assms(1) s by (cases t0; cases "tl t0"; cases "tl (tl t0)") (auto simp: decode_rune_def)
      show ?thesis using c 3 assms(1) s t
        by (intro four [of c0 c1 c2 c3 t1]) (auto simp: decode_rune_def cont_byte_def split: if_splits)
    next
      case d
      then show ?thesis using 3 assms(1) s by (auto simp: decode_rune_def)
    qed
  qed
qed


text \<open>Reading does not look beyond the bytes of the rune, and writing the rune gives them back.\<close>

lemma decode_rune_prefix:
  assumes "decode_rune s = (r, n)" and "n \<noteq> 1" and "s \<noteq> []"
  shows "decode_rune (take n s @ X) = (r, n) \<and> n = length (take n s)"
  using assms(1,3)
proof (cases rule: decode_rune_cases)
  case (two c0 c1 t)
  then show ?thesis by (simp add: decode_rune_def cont_byte_def)
next
  case (three c0 c1 c2 t)
  then show ?thesis by (simp add: decode_rune_def cont_byte_def)
next
  case (four c0 c1 c2 c3 t)
  then show ?thesis by (simp add: decode_rune_def cont_byte_def)
qed (use assms in simp_all)

lemma shift_byte: "0 \<le> v \<Longrightarrow> v < m \<Longrightarrow> (u * m + v) div m = u \<and> (u * m + v) mod m = (v :: int)"
  by simp

lemma encode_rune_valid:
  assumes "r \<le> 1114111" and "\<not> (55296 \<le> r \<and> r \<le> 57343)"
  shows "encode_rune r = utf8 (if r < 128 then [r]
    else if r < 2048 then [192 + r div 64, 128 + r mod 64]
    else if r < 65536 then [224 + r div 4096, 128 + r div 64 mod 64, 128 + r mod 64]
    else [240 + r div 262144, 128 + r div 4096 mod 64, 128 + r div 64 mod 64, 128 + r mod 64])"
proof -
  have "(if 1114111 < r \<or> (55296 \<le> r \<and> r \<le> 57343) then rune_error else r) = r" using assms by auto
  then show ?thesis by (simp add: encode_rune_def Let_def)
qed

lemma encode_two:
  assumes "2 \<le> u" "u < 32" "0 \<le> v" "v < 64"
  shows "encode_rune (u * 64 + v) = utf8 [192 + u, 128 + v]"
  using assms shift_byte [of v 64 u] by (subst encode_rune_valid) auto

lemma encode_three:
  assumes "0 \<le> u" "u < 16" "0 \<le> v" "v < 64" "0 \<le> w" "w < 64" "u = 0 \<longrightarrow> 32 \<le> v" "u = 13 \<longrightarrow> v < 32"
  shows "encode_rune (u * 4096 + v * 64 + w) = utf8 [224 + u, 128 + v, 128 + w]"
proof -
  let ?r = "u * 4096 + v * 64 + w"
  have low: "2048 \<le> ?r" using assms by (cases "u = 0") auto
  have high: "?r < 65536" using assms by auto
  have nosur: "\<not> (55296 \<le> ?r \<and> ?r \<le> 57343)"
  proof (cases "u = 13")
    case False
    then have "u \<le> 12 \<or> 14 \<le> u" by linarith
    then show ?thesis using assms by auto
  qed (use assms in auto)
  have r: "?r = (u * 64 + v) * 64 + w" by simp
  have "?r mod 64 = w" "?r div 64 = u * 64 + v" unfolding r using assms shift_byte [of w 64 "u * 64 + v"] by blast+
  moreover have "?r div 4096 = ?r div 64 div 64" by (simp add: zdiv_zmult2_eq [symmetric])
  ultimately have "?r mod 64 = w" "?r div 64 mod 64 = v" "?r div 4096 = u"
    using assms shift_byte [of v 64 u] by simp_all
  moreover have "?r \<le> 1114111" "\<not> ?r < 128" "\<not> ?r < 2048" using low high by auto
  ultimately show ?thesis using high by (simp only: encode_rune_valid [OF _ nosur] if_True if_False)
qed

lemma encode_four:
  assumes "0 \<le> u" "u \<le> 4" "0 \<le> v" "v < 64" "0 \<le> w" "w < 64" "0 \<le> x" "x < 64" "u = 0 \<longrightarrow> 16 \<le> v" "u = 4 \<longrightarrow> v < 16"
  shows "encode_rune (u * 262144 + v * 4096 + w * 64 + x) = utf8 [240 + u, 128 + v, 128 + w, 128 + x]"
proof -
  let ?r = "u * 262144 + v * 4096 + w * 64 + x"
  have low: "65536 \<le> ?r" using assms by (cases "u = 0") auto
  have high: "?r \<le> 1114111" using assms by (cases "u = 4") auto
  have r: "?r = ((u * 64 + v) * 64 + w) * 64 + x" by simp
  have 1: "?r mod 64 = x" "?r div 64 = (u * 64 + v) * 64 + w"
    unfolding r using assms shift_byte [of x 64 "(u * 64 + v) * 64 + w"] by blast+
  have d: "?r div 4096 = ?r div 64 div 64" "?r div 262144 = ?r div 64 div 64 div 64"
    by (simp_all add: zdiv_zmult2_eq [symmetric])
  have "?r div 64 mod 64 = w" "?r div 4096 = u * 64 + v"
    unfolding d 1 using assms shift_byte [of w 64 "u * 64 + v"] by blast+
  moreover have "?r div 262144 = u" "(u * 64 + v) mod 64 = v"
    unfolding d 1 using assms shift_byte [of w 64 "u * 64 + v"] shift_byte [of v 64 u] by simp_all
  moreover have nosur: "\<not> (55296 \<le> ?r \<and> ?r \<le> 57343)" using low by auto
  moreover have "\<not> ?r < 128" "\<not> ?r < 2048" "\<not> ?r < 65536" using low by auto
  ultimately show ?thesis using 1(1) by (simp only: encode_rune_valid [OF high nosur] if_False)
qed

lemma utf8_bytes: "utf8 (map byte_of s) = s"
  by (simp add: utf8_def comp_def)

lemma mod_offset:
  "194 \<le> b \<Longrightarrow> b \<le> 223 \<Longrightarrow> b mod 32 = b - 192" "224 \<le> b \<Longrightarrow> b \<le> 239 \<Longrightarrow> b mod 16 = b - 224"
  "240 \<le> b \<Longrightarrow> b \<le> 244 \<Longrightarrow> b mod 8 = b - 240" "128 \<le> b \<Longrightarrow> b \<le> 191 \<Longrightarrow> b mod 64 = b - 128" for b :: int
  by presburger+

lemma encode_decode_rune:
  assumes "decode_rune s = (r, n)" and "n \<noteq> 1" and "s \<noteq> []"
  shows "encode_rune r = take n s"
  using assms(1,3)
proof (cases rule: decode_rune_cases)
  case (two c0 c1 t)
  have "encode_rune r = utf8 [192 + (byte_of c0 - 192), 128 + (byte_of c1 - 128)]"
    unfolding two mod_offset(1) [OF two(3,4)] mod_offset(4) [OF two(5,6)] using two by (intro encode_two) simp_all
  then show ?thesis using two(1,2) by (simp add: utf8_def)
next
  case (three c0 c1 c2 t)
  have b1: "128 \<le> byte_of c1" "byte_of c1 \<le> 191" using three(5,6) by (auto split: if_splits)
  have "encode_rune r = utf8 [224 + (byte_of c0 - 224), 128 + (byte_of c1 - 128), 128 + (byte_of c2 - 128)]"
    unfolding three(9) mod_offset(2) [OF three(3,4)] mod_offset(4) [OF b1] mod_offset(4) [OF three(7,8)]
    using three b1 by (intro encode_three) (auto split: if_splits)
  then show ?thesis using three(1,2) by (simp add: utf8_def)
next
  case (four c0 c1 c2 c3 t)
  have b1: "128 \<le> byte_of c1" "byte_of c1 \<le> 191" using four(5,6) by (auto split: if_splits)
  have "encode_rune r = utf8 [240 + (byte_of c0 - 240), 128 + (byte_of c1 - 128), 128 + (byte_of c2 - 128), 128 + (byte_of c3 - 128)]"
    unfolding four(11) mod_offset(3) [OF four(3,4)] mod_offset(4) [OF b1] mod_offset(4) [OF four(7,8)] mod_offset(4) [OF four(9,10)]
    using four b1 by (intro encode_four) (auto split: if_splits)
  then show ?thesis using four(1,2) by (simp add: utf8_def)
qed (use assms in simp_all)


subsection \<open>String literals\<close>

lemma backslash_neq_quote: "backslash \<noteq> quote_char"
  by (simp add: backslash_def quote_char_def)

lemma parse_str_escape:
  "simple_escape e = Some x \<Longrightarrow> parse_str (backslash # e # Y) = prepend [x] (parse_str Y)"
  by (simp add: parse_str.simps(2) [of backslash] backslash_neq_quote)

lemma parse_str_u:
  assumes "hex4 Y = Some r" and "\<not> is_surrogate r"
  shows "parse_str (backslash # CHR ''u'' # Y) = prepend (encode_rune r) (parse_str (drop 4 Y))"
proof -
  have "simple_escape (CHR ''u'') = None" by code_simp
  then show ?thesis using assms by (simp add: parse_str.simps(2) [of backslash] backslash_neq_quote)
qed

lemma parse_str_plain:
  "c \<noteq> quote_char \<Longrightarrow> c \<noteq> backslash \<Longrightarrow> 32 \<le> byte_of c \<Longrightarrow> byte_of c < 128 \<Longrightarrow>
     parse_str (c # Y) = prepend [c] (parse_str Y)"
  by (simp add: parse_str.simps(2))

lemma parse_str_multi:
  assumes "\<not> byte_of c < 128" and "decode_rune (c # cs) = (r, n)"
  shows "parse_str (c # cs) = prepend (encode_rune r) (parse_str (drop (n - 1) cs))"
proof -
  have "c \<noteq> quote_char" "c \<noteq> backslash" using assms(1) by (auto simp: quote_char_def backslash_def)
  then show ?thesis using assms by (simp add: parse_str.simps(2))
qed

lemma parse_str_quote: "parse_str (quote_char # Y) = Some ([], Y)"
  by (simp add: parse_str.simps(2))

lemma prepend_prepend [simp]: "prepend p (prepend q x) = prepend (p @ q) x"
  by (cases x) (auto simp: prepend_def)

lemma prepend_Some [simp]: "prepend p (Some (s, rest)) = Some (p @ s, rest)"
  by (simp add: prepend_def)

lemma prepend_Nil [simp]: "prepend [] x = x"
  by (cases x) (auto simp: prepend_def)

text \<open>What an invalid byte becomes.\<close>

definition valid_bytes :: "rune \<times> string \<Rightarrow> string" where
  "valid_bytes x = (case x of (r, bs) \<Rightarrow> if r = rune_error \<and> length bs = 1 then encode_rune rune_error else bs)"

definition to_valid :: "string \<Rightarrow> string" where
  "to_valid s = concat (map valid_bytes (runes s))"

definition utf8_valid :: "string \<Rightarrow> bool" where
  "utf8_valid s \<longleftrightarrow> list_all (\<lambda>(r, bs). \<not> (r = rune_error \<and> length bs = 1)) (runes s)"

lemma to_valid_id:
  assumes "utf8_valid s"
  shows "to_valid s = s"
proof -
  have "map valid_bytes (runes s) = map snd (runes s)"
    using assms by (auto simp: utf8_valid_def valid_bytes_def list_all_iff)
  then show ?thesis by (simp only: to_valid_def runes_concat)
qed

lemma ascii_utf8_valid: "is_ascii s \<Longrightarrow> utf8_valid s"
  by (auto simp: utf8_valid_def runes_ascii list_all_iff is_ascii_def rune_error_def)

lemma hex_digits: "list_all (\<lambda>d. hex_val (hex_digit d) = Some d) (map int [0..<16])"
  by code_simp

lemma hex_val_digit: "0 \<le> d \<Longrightarrow> d < 16 \<Longrightarrow> hex_val (hex_digit d) = Some d"
  using hex_digits by (auto simp: list_all_iff dest!: bspec [of _ _ "nat d"])

lemma byte_of_eq: "byte_of c = k \<Longrightarrow> c = char_of k"
  by auto

lemma encode_ascii: "byte_of c < 128 \<Longrightarrow> encode_rune (byte_of c) = [c]"
  by (subst encode_rune_valid) (auto simp: utf8_def)

lemma hex4_00:
  assumes "0 \<le> r" and "r < 256"
  shows "hex4 (''00'' @ [hex_digit (r div 16), hex_digit (r mod 16)] @ X) = Some r"
proof -
  have "hex_val (hex_digit (r div 16)) = Some (r div 16)" "hex_val (hex_digit (r mod 16)) = Some (r mod 16)"
    by (rule hex_val_digit; use assms in simp)+
  moreover have "hex_val (CHR ''0'') = Some 0" by code_simp
  ultimately show ?thesis by simp
qed

lemma parse_ascii_rune:
  assumes "byte_of c < 128"
  shows "parse_str (json_rune (byte_of c) [c] @ X) = prepend [c] (parse_str X)"
proof -
  let ?r = "byte_of c"
  have se: "simple_escape quote_char = Some quote_char" "simple_escape backslash = Some backslash"
    "simple_escape (CHR ''b'') = Some (CHR 0x08)" "simple_escape (CHR ''f'') = Some (CHR 0x0C)"
    "simple_escape (CHR ''n'') = Some (CHR 0x0A)" "simple_escape (CHR ''r'') = Some (CHR 0x0D)"
    "simple_escape (CHR ''t'') = Some (CHR 0x09)" by code_simp+
  have ch: "char_of (34 :: int) = quote_char" "char_of (92 :: int) = backslash" "char_of (8 :: int) = CHR 0x08"
    "char_of (12 :: int) = CHR 0x0C" "char_of (10 :: int) = CHR 0x0A" "char_of (13 :: int) = CHR 0x0D"
    "char_of (9 :: int) = CHR 0x09" by code_simp+
  consider (esc) "?r \<in> {34, 92, 8, 12, 10, 13, 9}"
    | (hex) "?r \<notin> {34, 92, 8, 12, 10, 13, 9}" "?r < 32 \<or> ?r = 60 \<or> ?r = 62 \<or> ?r = 38"
    | (plain) "?r \<notin> {34, 92, 8, 12, 10, 13, 9}" "\<not> (?r < 32 \<or> ?r = 60 \<or> ?r = 62 \<or> ?r = 38)" by blast
  then show ?thesis
  proof cases
    case esc
    then have "c = quote_char \<or> c = backslash \<or> c = CHR 0x08 \<or> c = CHR 0x0C \<or> c = CHR 0x0A \<or> c = CHR 0x0D \<or> c = CHR 0x09"
      unfolding ch [symmetric] insert_iff empty_iff using byte_of_eq by blast
    then show ?thesis
    proof (elim disjE)
      assume "c = quote_char"
      then show ?thesis using parse_str_escape [OF se(1)] by (simp add: json_rune_def quote_char_def)
    next
      assume "c = backslash"
      then show ?thesis using parse_str_escape [OF se(2)] by (simp add: json_rune_def backslash_def)
    qed (simp_all add: json_rune_def parse_str_escape se)
  next
    case hex
    have "json_rune ?r [c] = backslash # CHR ''u'' # ''00'' @ [hex_digit (?r div 16), hex_digit (?r mod 16)]"
      using hex by (simp add: json_rune_def)
    moreover have "hex4 (''00'' @ [hex_digit (?r div 16), hex_digit (?r mod 16)] @ X) = Some ?r"
      by (rule hex4_00) (use byte_of_bounds in auto)
    moreover have "\<not> is_surrogate ?r" using assms by (simp add: is_surrogate_def)
    ultimately show ?thesis using parse_str_u [of "''00'' @ [hex_digit (?r div 16), hex_digit (?r mod 16)] @ X" ?r]
      by (simp add: encode_ascii [OF assms])
  next
    case plain
    have "c \<noteq> quote_char" "c \<noteq> backslash" using plain(1) by (auto simp: quote_char_def backslash_def)
    then show ?thesis using plain assms by (simp add: json_rune_def parse_str_plain)
  qed
qed


lemma parse_json_rune:
  assumes "decode_rune s = (r, n)" and "s \<noteq> []"
  shows "parse_str (json_rune r (take n s) @ X) = prepend (valid_bytes (r, take n s)) (parse_str X)"
proof -
  consider "n = 1" | "n \<noteq> 1" by blast
  then show ?thesis
  proof cases
    case 1
    show ?thesis
      using assms
    proof (cases rule: decode_rune_cases)
      case (ascii c t)
      then have "byte_of c \<noteq> rune_error" by (simp add: rune_error_def)
      then show ?thesis using ascii parse_ascii_rune [of c X] by (simp add: valid_bytes_def)
    next
      case (error c t)
      have "hex4 (''fffd'' @ X) = Some 65533" by (simp add: hex_val_def)
      from parse_str_u [OF this] error show ?thesis
        by (simp add: json_rune_def valid_bytes_def rune_error_def is_surrogate_def)
    qed (use 1 in simp_all)
  next
    case 2
    have enc: "encode_rune r = take n s" by (rule encode_decode_rune [OF assms(1) 2 assms(2)])
    have pre: "decode_rune (take n s @ X) = (r, n)" "n = length (take n s)"
      using decode_rune_prefix [OF assms(1) 2 assms(2)] by auto
    have big: "\<not> r < 128" "2 \<le> n"
      using assms by (cases rule: decode_rune_cases; use 2 mod_offset in \<open>auto split: if_splits\<close>)+
    then have v: "valid_bytes (r, take n s) = take n s" using pre(2) by (simp add: valid_bytes_def)
    show ?thesis
    proof (cases "r = 8232 \<or> r = 8233")
      case True
      then have "hex4 (''202'' @ [hex_digit (r mod 16)] @ X) = Some r"
        by (auto simp: hex_val_def hex_digit_def)
      from parse_str_u [OF this] True enc v show ?thesis
        by (auto simp: json_rune_def rune_error_def is_surrogate_def)
    next
      case False
      obtain c cs where c: "take n s = c # cs" using pre(2) big(2) by (cases "take n s") auto
      have nb: "\<not> byte_of c < 128" using pre(1) big(2) c decode_rune_ascii [of c "cs @ X"] by auto
      have "json_rune r (take n s) = take n s" using False big pre(2) by (simp add: json_rune_def)
      moreover have "parse_str (c # cs @ X) = prepend (encode_rune r) (parse_str (drop (n - 1) (cs @ X)))"
        by (rule parse_str_multi [OF nb]) (use pre c in simp)
      ultimately show ?thesis using c enc v pre(2) by simp
    qed
  qed
qed

lemma parse_json_runes:
  "parse_str (concat (map (\<lambda>(r, bs). json_rune r bs) (runes s)) @ quote_char # X) = Some (to_valid s, X)"
proof (induction s rule: runes.induct)
  case 1
  then show ?case by (simp add: runes.simps to_valid_def parse_str_quote)
next
  case (2 c cs)
  obtain r n where rn: "decode_rune (c # cs) = (r, n)" by (cases "decode_rune (c # cs)")
  have runes: "runes (c # cs) = (r, take n (c # cs)) # runes (drop (n - 1) cs)" by (simp add: runes.simps rn)
  define J where "J = concat (map (\<lambda>(r, bs). json_rune r bs) (runes (drop (n - 1) cs)))"
  have ih: "parse_str (J @ quote_char # X) = Some (to_valid (drop (n - 1) cs), X)"
    unfolding J_def using "2.IH" [OF rn [symmetric] refl] .
  have "concat (map (\<lambda>(r, bs). json_rune r bs) (runes (c # cs))) = json_rune r (take n (c # cs)) @ J"
    unfolding runes J_def by simp
  moreover have "to_valid (c # cs) = valid_bytes (r, take n (c # cs)) @ to_valid (drop (n - 1) cs)"
    unfolding to_valid_def runes by simp
  ultimately show ?case
    using parse_json_rune [OF rn, of "J @ quote_char # X"] ih by simp
qed

subsection \<open>Values\<close>

text \<open>\<open>parses d t v\<close>: in front of a comma or a closing brace the text \<open>t\<close> is read as \<open>v\<close>.\<close>

definition parses :: "nat \<Rightarrow> string \<Rightarrow> jval \<Rightarrow> bool" where
  "parses d t v \<longleftrightarrow> (\<forall>c X. c = CHR '','' \<or> c = CHR ''}'' \<longrightarrow> jvalue d (t @ c # X) = Some (v, c # X))"

lemma skip_ws_non [simp]: "\<not> is_ws c \<Longrightarrow> skip_ws (c # cs) = c # cs"
  by (simp add: skip_ws_def)

lemma not_ws:
  "\<not> is_ws quote_char" "\<not> is_ws (CHR ''{'')" "\<not> is_ws (CHR ''}'')" "\<not> is_ws (CHR '','')" "\<not> is_ws (CHR '':'')"
  "\<not> is_ws (CHR ''-'')"
  by (simp_all add: is_ws_def quote_char_def)

lemma jvalue_string: "parse_str cs = Some (t, rest) \<Longrightarrow> jvalue d (quote_char # cs) = Some (JStr t, rest)"
  by (simp add: jvalue.simps not_ws)

lemma parses_string: "parses d (json_string s) (JStr (to_valid s))"
  by (simp add: parses_def json_string_def jvalue_string parse_json_runes)


lemma parse_num_digits:
  assumes "ds \<noteq> []" and "list_all is_dec ds" and "hd ds = CHR ''0'' \<longrightarrow> ds = ''0''" and "c = CHR '','' \<or> c = CHR ''}''"
  shows "parse_num (ds @ c # X) = Some (ds, c # X)" "parse_num (CHR ''-'' # ds @ c # X) = Some (CHR ''-'' # ds, c # X)"
proof -
  obtain d ds' where ds: "ds = d # ds'" using assms(1) by (cases ds) auto
  have nc: "\<not> is_dec c" "c \<noteq> CHR ''.''" "c \<noteq> CHR ''e''" "c \<noteq> CHR ''E''" using assms(4) by (auto simp: is_dec_def)
  have dm: "d \<noteq> CHR ''-''" using assms(2) ds by (auto simp: is_dec_def)
  have tw: "takeWhile is_dec (ds @ c # X) = ds" "dropWhile is_dec (ds @ c # X) = c # X"
    using assms(2) nc(1) by (simp_all add: takeWhile_append2 dropWhile_append2 list_all_iff)
  have ip: "int_part (ds @ c # X) = Some (ds, c # X)"
  proof (cases "d = CHR ''0''")
    case True
    then show ?thesis using assms(3) ds by (simp add: int_part_def)
  next
    case False
    then show ?thesis using assms(2) ds tw by (simp add: int_part_def)
  qed
  have rest: "frac_part (c # X) = Some ([], c # X)" "exp_part (c # X) = Some ([], c # X)"
    using nc by (simp_all add: frac_part_def exp_part_def)
  show "parse_num (ds @ c # X) = Some (ds, c # X)" using ip rest dm ds by (simp add: parse_num_def)
  show "parse_num (CHR ''-'' # ds @ c # X) = Some (CHR ''-'' # ds, c # X)" using ip rest by (simp add: parse_num_def)
qed

lemma jvalue_num:
  assumes "parse_num (x # t) = Some (n, rest)" and "x = CHR ''-'' \<or> is_dec x"
  shows "jvalue d (x # t) = Some (JNum n, rest)"
proof -
  have "\<not> is_ws x" "x \<noteq> quote_char" "x \<noteq> CHR ''{''" "x \<noteq> CHR ''[''" "x \<noteq> CHR ''n''" "x \<noteq> CHR ''t''" "x \<noteq> CHR ''f''"
    using assms(2) by (auto simp: is_ws_def is_dec_def quote_char_def)
  then show ?thesis using assms(1) by (simp add: jvalue.simps starts_def)
qed

lemma digits_dec: "0 \<le> n \<Longrightarrow> list_all is_dec (int_digits n)"
  using int_digits_digits [of n] by (auto simp: list_all_iff is_digit_def is_dec_def dest!: bspec)

lemma digits_zero: "0 \<le> n \<Longrightarrow> hd (int_digits n) = CHR ''0'' \<longrightarrow> int_digits n = ''0''"
proof (cases "n = 0")
  case True
  have "int_digits 0 = ''0''" by code_simp
  with True show ?thesis by simp
next
  case False
  assume "0 \<le> n"
  then show ?thesis using int_digits_first [of n] False by auto
qed

lemma parses_int: "parses d (json_int i) (JNum (json_int i))"
  unfolding parses_def
proof (intro allI impI)
  fix c :: char and X
  assume c: "c = CHR '','' \<or> c = CHR ''}''"
  show "jvalue d (json_int i @ c # X) = Some (JNum (json_int i), c # X)"
  proof (cases "sint i < 0")
    case True
    note p = parse_num_digits(2) [OF int_digits_nonempty digits_dec digits_zero c, of "- sint i"]
    then show ?thesis using True by (simp add: json_int_def strconv_Itoa_def jvalue_num)
  next
    case False
    then have "0 \<le> sint i" by simp
    note p = parse_num_digits(1) [OF int_digits_nonempty digits_dec [OF this] digits_zero [OF this] c]
    obtain x t where x: "int_digits (sint i) = x # t" by (cases "int_digits (sint i)") (simp_all add: int_digits_nonempty)
    have "is_dec x" using digits_dec [of "sint i"] False x by simp
    then show ?thesis using False p x jvalue_num [of x "t @ c # X"] by (simp add: json_int_def strconv_Itoa_def)
  qed
qed


subsection \<open>Base64\<close>

definition b64_ok :: "char \<Rightarrow> bool" where
  "b64_ok c \<longleftrightarrow> c \<noteq> CHR ''='' \<and> c \<noteq> CHR 0x0A \<and> c \<noteq> CHR 0x0D \<and> c \<noteq> quote_char \<and> c \<noteq> backslash \<and>
     32 \<le> byte_of c \<and> byte_of c < 128"

lemma b64_table: "list_all (\<lambda>v. b64_val (b64_char v) = Some v \<and> b64_ok (b64_char v)) (map int [0..<64])"
  by code_simp

lemma b64_char_ok:
  assumes "0 \<le> v" and "v < 64"
  shows "b64_val (b64_char v) = Some v" "b64_ok (b64_char v)"
  using b64_table assms by (auto simp: list_all_iff dest!: bspec [of _ _ "nat v"])

text \<open>The sextets of one to three bytes, and the bytes put together again.\<close>

lemma sextet1: "0 \<le> byte_of a div 4" "byte_of a div 4 < 64"
  using byte_of_bounds [of a] by presburger+

lemma sextet2:
  assumes "0 \<le> q" "q < 16"
  shows "0 \<le> byte_of a mod 4 * 16 + q" "byte_of a mod 4 * 16 + q < 64"
    "byte_of a div 4 * 4 + (byte_of a mod 4 * 16 + q) div 16 = byte_of a" "(byte_of a mod 4 * 16 + q) mod 16 = q"
proof -
  have "0 \<le> byte_of a mod 4" "byte_of a mod 4 \<le> 3" using pos_mod_bound [of 4 "byte_of a"] by simp_all
  then show "0 \<le> byte_of a mod 4 * 16 + q" "byte_of a mod 4 * 16 + q < 64" using assms by linarith+
  show "byte_of a div 4 * 4 + (byte_of a mod 4 * 16 + q) div 16 = byte_of a" "(byte_of a mod 4 * 16 + q) mod 16 = q"
    using shift_byte [of q 16 "byte_of a mod 4"] assms by simp_all
qed

lemma sextet3:
  assumes "0 \<le> q" "q < 4"
  shows "0 \<le> byte_of b mod 16 * 4 + q" "byte_of b mod 16 * 4 + q < 64"
    "byte_of b div 16 * 16 + (byte_of b mod 16 * 4 + q) div 4 = byte_of b" "(byte_of b mod 16 * 4 + q) mod 4 = q"
proof -
  have "0 \<le> byte_of b mod 16" "byte_of b mod 16 \<le> 15" using pos_mod_bound [of 16 "byte_of b"] by simp_all
  then show "0 \<le> byte_of b mod 16 * 4 + q" "byte_of b mod 16 * 4 + q < 64" using assms by linarith+
  show "byte_of b div 16 * 16 + (byte_of b mod 16 * 4 + q) div 4 = byte_of b" "(byte_of b mod 16 * 4 + q) mod 4 = q"
    using shift_byte [of q 4 "byte_of b mod 16"] assms by simp_all
qed

lemma quarter: "0 \<le> byte_of b div 16" "byte_of b div 16 < 16" "0 \<le> byte_of c div 64" "byte_of c div 64 < 4"
  "0 \<le> byte_of c mod 64" "byte_of c mod 64 < 64"
  using byte_of_bounds [of b] byte_of_bounds [of c] by presburger+

lemma b64_step:
  assumes "0 \<le> w" "w < 64" "0 \<le> x" "x < 64"
  shows "b64_quads [b64_char w, b64_char x, CHR ''='', CHR ''=''] = Some [char_of (w * 4 + x div 16)]"
    and "0 \<le> y \<Longrightarrow> y < 64 \<Longrightarrow> b64_quads [b64_char w, b64_char x, b64_char y, CHR ''=''] =
      Some [char_of (w * 4 + x div 16), char_of (x mod 16 * 16 + y div 4)]"
    and "0 \<le> y \<Longrightarrow> y < 64 \<Longrightarrow> 0 \<le> z \<Longrightarrow> z < 64 \<Longrightarrow>
      b64_quads (b64_char w # b64_char x # b64_char y # b64_char z # rest) = map_option
        (\<lambda>t. char_of (w * 4 + x div 16) # char_of (x mod 16 * 16 + y div 4) # char_of (y mod 4 * 64 + z) # t) (b64_quads rest)"
proof -
  have ne: "b64_char v \<noteq> CHR ''=''" if "0 \<le> v" "v < 64" for v using b64_char_ok(2) [OF that] by (simp add: b64_ok_def)
  note val = b64_char_ok(1)
  show "b64_quads [b64_char w, b64_char x, CHR ''='', CHR ''=''] = Some [char_of (w * 4 + x div 16)]"
    using assms by (simp add: val)
  show "b64_quads [b64_char w, b64_char x, b64_char y, CHR ''=''] =
      Some [char_of (w * 4 + x div 16), char_of (x mod 16 * 16 + y div 4)]" if "0 \<le> y" "y < 64"
    using assms that by (simp add: val ne)
  show "b64_quads (b64_char w # b64_char x # b64_char y # b64_char z # rest) = map_option
        (\<lambda>t. char_of (w * 4 + x div 16) # char_of (x mod 16 * 16 + y div 4) # char_of (y mod 4 * 64 + z) # t) (b64_quads rest)"
    if "0 \<le> y" "y < 64" "0 \<le> z" "z < 64"
    using assms that by (simp add: val ne)
qed

lemma b64_quads_encode: "b64_quads (b64_encode s) = Some s"
proof (induction s rule: b64_encode.induct)
  case (2 a)
  have "b64_quads (b64_encode [a]) = Some [char_of (byte_of a div 4 * 4 + (byte_of a mod 4 * 16 + 0) div 16)]"
    using b64_step(1) [OF sextet1 sextet2(1,2) [of 0 a]] by (simp add: Let_def)
  then show ?case unfolding sextet2(3) [of 0, OF order_refl zero_less_numeral] by simp
next
  case (3 a b)
  note q = quarter(1,2) [of b]
  have "b64_quads (b64_encode [a, b]) =
      Some [char_of (byte_of a div 4 * 4 + (byte_of a mod 4 * 16 + byte_of b div 16) div 16),
        char_of ((byte_of a mod 4 * 16 + byte_of b div 16) mod 16 * 16 + (byte_of b mod 16 * 4 + 0) div 4)]"
    using b64_step(2) [OF sextet1 sextet2(1,2) [OF q] sextet3(1,2) [of 0 b]] by (simp add: Let_def)
  then show ?case
    unfolding sextet2(3) [OF q] sextet2(4) [OF q] sextet3(3) [of 0, OF order_refl zero_less_numeral] by simp
next
  case (4 a b c rest)
  note q = quarter(1,2) [of b] and q' = quarter(3,4) [of c]
  have "b64_quads (b64_encode (a # b # c # rest)) = map_option (\<lambda>t.
      char_of (byte_of a div 4 * 4 + (byte_of a mod 4 * 16 + byte_of b div 16) div 16) #
      char_of ((byte_of a mod 4 * 16 + byte_of b div 16) mod 16 * 16 + (byte_of b mod 16 * 4 + byte_of c div 64) div 4) #
      char_of ((byte_of b mod 16 * 4 + byte_of c div 64) mod 4 * 64 + byte_of c mod 64) # t) (b64_quads (b64_encode rest))"
    using b64_step(3) [OF sextet1 sextet2(1,2) [OF q] sextet3(1,2) [OF q'] quarter(5,6)] by (simp add: Let_def)
  then show ?case
    unfolding sextet2(3) [OF q] sextet2(4) [OF q] sextet3(3) [OF q'] sextet3(4) [OF q'] 4 [OF refl refl refl] by simp
qed simp

lemma b64_encode_chars: "list_all (\<lambda>c. b64_ok c \<or> c = CHR ''='') (b64_encode s)"
proof (induction s rule: b64_encode.induct)
  case (2 a)
  then show ?case using b64_char_ok(2) [OF sextet1 [of a]] b64_char_ok(2) [OF sextet2(1,2) [of 0 a]] by (simp add: Let_def)
next
  case (3 a b)
  then show ?case using b64_char_ok(2) [OF sextet1 [of a]] b64_char_ok(2) [OF sextet2(1,2) [OF quarter(1,2), of a b]]
      b64_char_ok(2) [OF sextet3(1,2) [of 0 b]] by (simp add: Let_def)
next
  case (4 a b c rest)
  then show ?case using b64_char_ok(2) [OF sextet1 [of a]] b64_char_ok(2) [OF sextet2(1,2) [OF quarter(1,2), of a b]]
      b64_char_ok(2) [OF sextet3(1,2) [OF quarter(3,4), of b c]] b64_char_ok(2) [OF quarter(5,6) [of c]] by (simp add: Let_def)
qed simp

lemma b64_roundtrip: "b64_decode (b64_encode s) = Some s"
proof -
  have "filter (\<lambda>c. c \<noteq> CHR 0x0A \<and> c \<noteq> CHR 0x0D) (b64_encode s) = b64_encode s"
    using b64_encode_chars [of s] by (auto simp: filter_id_conv list_all_iff b64_ok_def)
  then show ?thesis by (simp add: b64_decode_def b64_quads_encode)
qed

lemma parse_str_plain_list:
  "list_all (\<lambda>c. c \<noteq> quote_char \<and> c \<noteq> backslash \<and> 32 \<le> byte_of c \<and> byte_of c < 128) s \<Longrightarrow>
     parse_str (s @ quote_char # X) = Some (s, X)"
  by (induction s) (simp_all add: parse_str_quote parse_str_plain)

lemma parses_bytes: "parses d (json_bytes (Some s)) (JStr (b64_encode s))"
proof -
  have "list_all (\<lambda>c. c \<noteq> quote_char \<and> c \<noteq> backslash \<and> 32 \<le> byte_of c \<and> byte_of c < 128) (b64_encode s)"
  proof (rule list.pred_mono_strong [OF b64_encode_chars])
    fix c
    have "CHR ''='' \<noteq> quote_char" "CHR ''='' \<noteq> backslash" by (simp_all add: quote_char_def backslash_def)
    moreover assume "b64_ok c \<or> c = CHR ''=''"
    ultimately show "c \<noteq> quote_char \<and> c \<noteq> backslash \<and> 32 \<le> byte_of c \<and> byte_of c < 128"
      by (elim disjE) (simp_all add: b64_ok_def)
  qed
  then show ?thesis by (simp add: parses_def json_bytes_def jvalue_string parse_str_plain_list)
qed

subsection \<open>Objects\<close>

definition plain_key :: "string \<Rightarrow> bool" where
  "plain_key k \<longleftrightarrow> list_all (\<lambda>c. c \<noteq> quote_char \<and> c \<noteq> backslash \<and> 32 \<le> byte_of c \<and> byte_of c < 128) k"

lemma jmembers_join:
  assumes "ms \<noteq> []" and "list_all (\<lambda>(k, t, v). plain_key k \<and> parses d t v) ms"
  shows "jmembers d (strings_Join (map (\<lambda>(k, t, v). json_member k t) ms) '','' @ CHR ''}'' # X) =
    Some (map (\<lambda>(k, t, v). (k, v)) ms, X)"
  using assms
proof (induction ms)
  case (Cons m ms)
  obtain k t v where m: "m = (k, t, v)" by (cases m)
  have k: "parse_str (k @ quote_char # Y) = Some (k, Y)" for Y
    using Cons.prems(2) m by (simp add: plain_key_def parse_str_plain_list)
  have t: "jvalue d (t @ c # Y) = Some (v, c # Y)" if "c = CHR '','' \<or> c = CHR ''}''" for c Y
    using Cons.prems(2) m that unfolding parses_def by simp blast
  have t': "jvalue d (t @ CHR '','' # Y) = Some (v, CHR '','' # Y)" "jvalue d (t @ CHR ''}'' # Y) = Some (v, CHR ''}'' # Y)" for Y
    using t by simp_all
  show ?case
  proof (cases ms)
    case Nil
    then show ?thesis by (simp add: m json_member_def jmembers.simps not_ws k t')
  next
    case (Cons m2 ms2)
    obtain k2 t2 v2 where m2: "m2 = (k2, t2, v2)" by (cases m2)
    have ih: "jmembers d (strings_Join (map (\<lambda>(k, t, v). json_member k t) ms) '','' @ CHR ''}'' # X) =
        Some (map (\<lambda>(k, t, v). (k, v)) ms, X)"
      using Cons.IH Cons.prems(2) Cons by simp
    show ?thesis using ih by (simp add: Cons m m2 json_member_def jmembers.simps [of d "quote_char # _"] not_ws k t')
  qed
qed simp

lemma jvalue_object:
  assumes "ms \<noteq> []" and "list_all (\<lambda>(k, t, v). plain_key k \<and> parses d t v) ms"
  shows "jvalue (Suc d) (json_object (map (\<lambda>(k, t, v). json_member k t) ms) @ X) =
    Some (JObj (map (\<lambda>(k, t, v). (k, v)) ms), X)"
proof -
  obtain k t v ms' where ms: "ms = (k, t, v) # ms'" using assms(1) by (cases ms) auto
  let ?J = "strings_Join (map (\<lambda>(k, t, v). json_member k t) ms) '',''"
  obtain u where u: "?J = quote_char # u"
    by (cases ms') (auto simp: ms json_member_def)
  have q: "CHR ''{'' \<noteq> quote_char" "quote_char \<noteq> CHR ''}''" by (simp_all add: quote_char_def)
  have "jmembers d (quote_char # u @ CHR ''}'' # X) = Some (map (\<lambda>(k, t, v). (k, v)) ms, X)"
    using jmembers_join [OF assms, of X] u by simp
  then show ?thesis using u q by (simp add: json_object_def jvalue.simps not_ws)
qed

text \<open>Reading an object into a struct assigns its members in order.\<close>

lemma json_object_reads:
  assumes "ms \<noteq> []" and "list_all (\<lambda>(k, t, v). plain_key k \<and> parses (json_depth - 1) t v) ms"
  shows "json_Decode fs (json_object (map (\<lambda>(k, t, v). json_member k t) ms) @ X) x =
      set_members fs (map (\<lambda>(k, t, v). (k, v)) ms) None x"
    and "skip_ws X = [] \<Longrightarrow> json_Unmarshal fs (json_object (map (\<lambda>(k, t, v). json_member k t) ms) @ X) x =
      set_members fs (map (\<lambda>(k, t, v). (k, v)) ms) None x"
proof -
  have d: "json_depth = Suc (json_depth - 1)" by (simp add: json_depth_def)
  have "jvalue json_depth (json_object (map (\<lambda>(k, t, v). json_member k t) ms) @ X) =
      Some (JObj (map (\<lambda>(k, t, v). (k, v)) ms), X)"
    by (subst d, rule jvalue_object [OF assms])
  then show "json_Decode fs (json_object (map (\<lambda>(k, t, v). json_member k t) ms) @ X) x =
      set_members fs (map (\<lambda>(k, t, v). (k, v)) ms) None x"
    and "skip_ws X = [] \<Longrightarrow> json_Unmarshal fs (json_object (map (\<lambda>(k, t, v). json_member k t) ms) @ X) x =
      set_members fs (map (\<lambda>(k, t, v). (k, v)) ms) None x"
    by (simp_all add: json_Decode_def json_Unmarshal_def set_struct_def)
qed

end
