(* ===== verification/Codec_Properties.thy ===== *)
theory Codec_Properties
  imports Protocol Json_Lemmas
begin

section \<open>Properties of the codecs\<close>

text \<open>
  What a codec encodes it decodes to the same envelope, up to what the format cannot carry: for
  JSON invalid UTF-8 in the text fields, for protobuf the sender and the message types that the
  enumeration lacks. The interface of the codecs is the locale \<open>message_codec\<close>.
\<close>

subsection \<open>JSON\<close>

definition valid_envelope :: "Envelope \<Rightarrow> Envelope" where
  "valid_envelope e = e\<lparr>e_Version := to_valid (e_Version e), e_Type := to_valid (e_Type e),
     e_Encoding := to_valid (e_Encoding e), e_From := to_valid (e_From e), e_Mid := to_valid (e_Mid e),
     e_Correlation := to_valid (e_Correlation e)\<rparr>"

definition envelope_members :: "Envelope \<Rightarrow> (string \<times> string \<times> jval) list" where
  "envelope_members e =
     [(''version'', json_string (e_Version e), JStr (to_valid (e_Version e))),
      (''type'', json_string (e_Type e), JStr (to_valid (e_Type e))),
      (''encoding'', json_string (e_Encoding e), JStr (to_valid (e_Encoding e))),
      (''from'', json_string (e_From e), JStr (to_valid (e_From e))),
      (''mid'', json_string (e_Mid e), JStr (to_valid (e_Mid e))),
      (''correlation_id'', json_string (e_Correlation e), JStr (to_valid (e_Correlation e))),
      (''ts'', json_int (e_Ts e), JNum (json_int (e_Ts e)))] @
     (if e_Data e = [] then [] else [(''data'', json_bytes (Some (e_Data e)), JStr (b64_encode (e_Data e)))])"

lemma json_envelope_members:
  "json_envelope e = json_object (map (\<lambda>(k, t, v). json_member k t) (envelope_members e))"
  by (simp add: json_envelope_def envelope_members_def)

lemma envelope_keys: "list_all plain_key [''version'', ''type'', ''encoding'', ''from'', ''mid'', ''correlation_id'', ''ts'', ''data'']"
  by code_simp

lemma envelope_members_parse: "list_all (\<lambda>(k, t, v). plain_key k \<and> parses d t v) (envelope_members e)"
  using envelope_keys by (simp add: envelope_members_def parses_string parses_int parses_bytes)

lemma Atoi_json_int: "strconv_Atoi (json_int i) = (sint i, None)"
proof -
  have "- (2 ^ 63) \<le> sint i" "sint i < 2 ^ 63" using sint_ge [of i] sint_lt [of i] by simp_all
  then show ?thesis unfolding json_int_def by (rule Atoi_Itoa)
qed

lemma set_string_JStr [simp]: "set_string upd (JStr s) x = (None, upd s x)"
  by (simp add: set_string_def)

lemma set_int64_json [simp]: "set_int64 upd (JNum (json_int i)) x = (None, upd i x)"
  by (simp add: set_int64_def Atoi_json_int)

lemma set_bytes_b64 [simp]: "set_bytes upd (JStr (b64_encode s)) x = (None, upd s x)"
  by (simp add: set_bytes_def b64_roundtrip)

lemma json_Decode_envelope:
  "json_Decode envelope_fields (json_envelope e @ X) zero_Envelope = (None, valid_envelope e)"
proof -
  have ne: "envelope_members e \<noteq> []" by (simp add: envelope_members_def)
  have "set_members envelope_fields (map (\<lambda>(k, t, v). (k, v)) (envelope_members e)) None zero_Envelope =
      (None, valid_envelope e)"
    by (cases "e_Data e = []")
      (simp_all add: envelope_members_def envelope_fields_def find_field_def zero_Envelope_def valid_envelope_def)
  then show ?thesis unfolding json_envelope_members json_object_reads(1) [OF ne envelope_members_parse] .
qed

lemma to_valid_nonempty: "s \<noteq> [] \<Longrightarrow> to_valid s \<noteq> []"
proof -
  assume "s \<noteq> []"
  then obtain c cs where s: "s = c # cs" by (cases s) auto
  obtain r n where rn: "decode_rune (c # cs) = (r, n)" by (cases "decode_rune (c # cs)")
  have "1 \<le> n" using decode_rune_width [of "c # cs"] rn by simp
  then have "take n (c # cs) \<noteq> []" by (cases n) auto
  moreover have "encode_rune rune_error \<noteq> []" by code_simp
  ultimately have "valid_bytes (r, take n (c # cs)) \<noteq> []" by (simp add: valid_bytes_def)
  then show ?thesis unfolding s to_valid_def runes.simps(2) rn by simp
qed

lemma json_envelope_brace: "\<exists>t. json_envelope e = CHR ''{'' # t"
  by (simp add: json_envelope_def json_object_def)

lemma limit_reader_append:
  assumes "m \<le> 0 \<or> int (length s) \<le> m"
  shows "\<exists>Y. limit_reader m (s @ X) = s @ Y"
proof (cases "0 < m")
  case True
  then have "length s \<le> nat m" using assms by linarith
  then show ?thesis using True by (simp add: limit_reader_def)
qed (simp add: limit_reader_def)

lemma JSONCodec_Decode_Encode:
  assumes "e_Type e \<noteq> []" and "maxSize \<le> 0 \<or> int (length (json_envelope e)) \<le> maxSize"
  shows "JSONCodec_Decode (JSONCodec_Encode e @ X) zero_Envelope maxSize = (None, valid_envelope e)"
proof -
  obtain Y where Y: "limit_reader maxSize (json_envelope e @ [CHR 0x0A] @ X) = json_envelope e @ Y"
    using limit_reader_append [OF assms(2)] by metis
  obtain t where t: "json_envelope e = CHR ''{'' # t" using json_envelope_brace by blast
  have ty: "e_Type (valid_envelope e) \<noteq> []" using to_valid_nonempty [OF assms(1)] by (simp add: valid_envelope_def)
  have dec: "json_Decode envelope_fields (CHR ''{'' # t @ Y) zero_Envelope = (None, valid_envelope e)"
    using json_Decode_envelope [of e Y] t by simp
  have "limit_reader maxSize (JSONCodec_Encode e @ X) = CHR ''{'' # t @ Y" using Y t by (simp add: JSONCodec_Encode_def)
  then show ?thesis using dec ty by (simp add: JSONCodec_Decode_def)
qed

text \<open>
  C12: the JSON codec round trip. Decoding what was encoded, with any bytes following it and any
  limit that admits the envelope's text (or none), succeeds and gives the envelope back: the
  payload bytes and the timestamp exactly, each text field with its invalid UTF-8 bytes replaced,
  so exactly when the field is valid UTF-8. Only the type must not be empty.
\<close>

theorem json_codec_roundtrip:
  assumes "e_Type e \<noteq> []" and "maxSize \<le> 0 \<or> int (length (json_envelope e)) \<le> maxSize"
  shows "JSONCodec_Decode (JSONCodec_Encode e @ X) zero_Envelope maxSize = (None, valid_envelope e) \<and>
    e_Data (valid_envelope e) = e_Data e \<and> e_Ts (valid_envelope e) = e_Ts e \<and>
    (list_all utf8_valid [e_Version e, e_Type e, e_Encoding e, e_From e, e_Mid e, e_Correlation e] \<longrightarrow> valid_envelope e = e)"
  using JSONCodec_Decode_Encode [OF assms] by (simp add: valid_envelope_def to_valid_id)

definition demo_envelope :: Envelope where
  "demo_envelope = CreatePongMessage NewMessageFactory ''id-1'' 5 6 (-7) ''id-0''"

theorem json_codec_roundtrip_witness:
  "JSONCodec_Decode (JSONCodec_Encode demo_envelope @ ''x'') zero_Envelope 1048576 = (None, demo_envelope)"
proof -
  have ty: "e_Type demo_envelope \<noteq> []" by code_simp
  have len: "int (length (json_envelope demo_envelope)) \<le> 1048576" by code_simp
  have "list_all is_ascii [e_Version demo_envelope, e_Type demo_envelope, e_Encoding demo_envelope, e_From demo_envelope,
      e_Mid demo_envelope, e_Correlation demo_envelope]" by code_simp
  then have "list_all utf8_valid [e_Version demo_envelope, e_Type demo_envelope, e_Encoding demo_envelope, e_From demo_envelope,
      e_Mid demo_envelope, e_Correlation demo_envelope]" by (simp add: ascii_utf8_valid)
  then show ?thesis using json_codec_roundtrip [OF ty disjI2 [OF len], of "''x''"] by simp
qed

text \<open>
  C31: what the JSON codec accepts. For every input, limit and target, a decode without error
  means that the input starts with a brace, that a complete JSON object lies within the limit,
  and that the resulting envelope has a type; bytes beyond the limit make no difference.
\<close>

theorem json_decode_accepts:
  assumes "JSONCodec_Decode r e maxSize = (None, e')"
  shows "e_Type e' \<noteq> [] \<and> take 1 r = ''{'' \<and>
    (\<exists>ms rest. jvalue json_depth (limit_reader maxSize r) = Some (JObj ms, rest)) \<and>
    (\<forall>X. 0 < maxSize \<longrightarrow> maxSize \<le> int (length r) \<longrightarrow> JSONCodec_Decode (r @ X) e maxSize = (None, e'))"
proof -
  obtain t where t: "limit_reader maxSize r = CHR ''{'' # t"
    using assms by (auto simp: JSONCodec_Decode_def split: list.splits if_splits)
  obtain v rest where v: "jvalue json_depth (CHR ''{'' # t) = Some (v, rest)"
    using assms t by (auto simp: JSONCodec_Decode_def json_Decode_def split: option.splits prod.splits)
  have "\<exists>ms. v = JObj ms" using v
    by (auto simp: jvalue.simps not_ws quote_char_def split: list.splits if_splits)
  moreover have "take 1 r = ''{''" using t by (cases r; cases "nat maxSize") (auto simp: limit_reader_def split: if_splits)
  moreover have "e_Type e' \<noteq> []"
    using assms t by (auto simp: JSONCodec_Decode_def split: prod.splits option.splits if_splits)
  moreover have "JSONCodec_Decode (r @ X) e maxSize = (None, e')" if "0 < maxSize" "maxSize \<le> int (length r)" for X
  proof -
    have "limit_reader maxSize (r @ X) = limit_reader maxSize r" using that by (simp add: limit_reader_def)
    then show ?thesis using assms by (simp add: JSONCodec_Decode_def)
  qed
  ultimately show ?thesis using v t by auto
qed


theorem json_decode_accepts_witness:
  "\<exists>ms rest. jvalue json_depth (limit_reader 1048576 (JSONCodec_Encode demo_envelope)) = Some (JObj ms, rest)"
proof -
  have "e_Type demo_envelope \<noteq> []" "int (length (json_envelope demo_envelope)) \<le> 1048576" by code_simp+
  then have "JSONCodec_Decode (JSONCodec_Encode demo_envelope @ []) zero_Envelope 1048576 = (None, valid_envelope demo_envelope)"
    by (intro JSONCodec_Decode_Encode) simp_all
  from json_decode_accepts [OF this] show ?thesis by simp
qed

subsection \<open>Protobuf\<close>

text \<open>What a message keeps on its way through the protobuf message.\<close>

definition pb_known_type :: "string \<Rightarrow> bool" where
  "pb_known_type t \<longleftrightarrow> t \<in> {MsgText, MsgCommand, MsgFileMeta, MsgFileChunk, MsgAck, MsgPing, MsgPong}"

lemma pb_type_roundtrip: "fromPBMsgType (toPBMsgType t) = (if pb_known_type t then t else [])"
  by (auto simp: fromPBMsgType_def toPBMsgType_def pb_known_type_def pb_enum_defs)

lemma pb_encoding_roundtrip:
  "fromPBEncoding (toPBEncoding c) = (if c = EncodingJSON \<or> c = EncodingProtobuf then c else [])"
  by (auto simp: fromPBEncoding_def toPBEncoding_def pb_enum_defs)

lemma pb_envelope_roundtrip:
  "envelope_of_pb (pb_of_envelope e) = e\<lparr>e_From := [], e_Type := (if pb_known_type (e_Type e) then e_Type e else []),
     e_Encoding := (if e_Encoding e = EncodingJSON \<or> e_Encoding e = EncodingProtobuf then e_Encoding e else [])\<rparr>"
  by (simp add: envelope_of_pb_def pb_of_envelope_def pb_type_roundtrip pb_encoding_roundtrip zero_Envelope_def)

text \<open>
  C30: what the protobuf codec keeps. If the protobuf library reads back what it marshals, then
  an envelope that was encoded and whose bytes fit the limit decodes without error, with the same
  version, message id, correlation id, timestamp and payload bytes; the type is kept if it is one
  of the seven the enumeration has and empty otherwise (\<open>nick\<close> and \<open>heartbeat\<close> are lost), the
  encoding if it is json or protobuf, and the sender is always lost. So the envelope comes back
  unchanged exactly when it has no sender and a type and an encoding that the enumerations have. This is a defect of
  the code: the test \<open>TestCodecInteroperability\<close> (internal/protocol/codec_test.go, lines 92 to 129) asserts for an
  envelope with sender alice that the decoded sender is alice, and here it is empty.
\<close>

theorem protobuf_codec_roundtrip:
  assumes proto_reads_back: "\<And>m d. proto_Marshal pl m = Some d \<Longrightarrow> proto_Unmarshal pl d = Some m"
    and "ProtobufCodec_Encode pl e = Inr d" and "int (length d) \<le> maxSize"
  shows "ProtobufCodec_Decode pl d e0 maxSize =
    Ret (None, e\<lparr>e_From := [], e_Type := (if pb_known_type (e_Type e) then e_Type e else []),
      e_Encoding := (if e_Encoding e = EncodingJSON \<or> e_Encoding e = EncodingProtobuf then e_Encoding e else [])\<rparr>) \<and>
    (ProtobufCodec_Decode pl d e0 maxSize = Ret (None, e) \<longleftrightarrow> e_From e = [] \<and> (pb_known_type (e_Type e) \<or> e_Type e = []) \<and>
      e_Encoding e \<in> {EncodingJSON, EncodingProtobuf, []})"
proof -
  have "proto_Marshal pl (pb_of_envelope e) = Some d"
    using assms(2) by (auto simp: ProtobufCodec_Encode_def split: option.splits)
  then have "proto_Unmarshal pl d = Some (pb_of_envelope e)" by (rule proto_reads_back)
  moreover have "0 \<le> maxSize" using assms(3) by simp
  moreover have "take (nat maxSize) (limit_reader maxSize d) = d"
    using assms(3) by (simp add: limit_reader_def le_nat_iff take_all)
  ultimately have "ProtobufCodec_Decode pl d e0 maxSize = Ret (None, envelope_of_pb (pb_of_envelope e))"
    by (simp add: ProtobufCodec_Decode_def)
  then show ?thesis unfolding pb_envelope_roundtrip by (cases e) auto
qed

text \<open>A library that knows one message, to evaluate the codec on.\<close>

definition demo_proto :: proto_lib where
  "demo_proto = \<lparr>proto_Marshal = (\<lambda>m. if m = pb_of_envelope demo_envelope then Some ''pb'' else None),
     proto_Unmarshal = (\<lambda>d. if d = ''pb'' then Some (pb_of_envelope demo_envelope) else None)\<rparr>"

theorem protobuf_codec_roundtrip_witness:
  "ProtobufCodec_Decode demo_proto ''pb'' zero_Envelope 64 = Ret (None, demo_envelope)"
proof -
  have law: "proto_Unmarshal demo_proto d = Some m" if "proto_Marshal demo_proto m = Some d" for m d
    using that by (auto simp: demo_proto_def split: if_splits)
  have enc: "ProtobufCodec_Encode demo_proto demo_envelope = Inr ''pb''"
    by (simp add: ProtobufCodec_Encode_def demo_proto_def)
  have "pb_known_type (e_Type demo_envelope)" "e_Encoding demo_envelope = EncodingJSON" "e_From demo_envelope = []"
    by (simp_all add: demo_envelope_def CreatePongMessage_def pb_known_type_def zero_Envelope_def)
  then show ?thesis using protobuf_codec_roundtrip [OF law enc, of 64 zero_Envelope] by simp
qed

text \<open>
  A limit of zero hides every protobuf message. With \<open>maxSize\<close> 0, which the other codec takes
  for no limit, the protobuf codec decodes the empty message whatever the input is, and a negative
  limit panics.
\<close>

theorem protobuf_zero_limit:
  "ProtobufCodec_Decode pl r e 0 = ProtobufCodec_Decode pl [] e 0 \<and>
   ProtobufCodec_Decode pl r e (-1) = Panic MakeSliceLenOutOfRange"
  by (simp add: ProtobufCodec_Decode_def)

subsection \<open>The codec interface\<close>

text \<open>
  What the transports rely on: an envelope the codec can carry is encoded, and decoding the bytes
  under a limit that admits them gives it back.
\<close>

locale message_codec =
  fixes encode :: "Envelope \<Rightarrow> codec_err + string"
    and decode :: "string \<Rightarrow> int \<Rightarrow> (codec_err option \<times> Envelope) outcome"
    and carries :: "Envelope \<Rightarrow> bool"
  assumes encodes: "carries e \<Longrightarrow> \<exists>d. encode e = Inr d"
    and reads_back: "carries e \<Longrightarrow> encode e = Inr d \<Longrightarrow> 0 < m \<Longrightarrow> int (length d) \<le> m \<Longrightarrow> decode d m = Ret (None, e)"
begin

lemma encode_inj:
  assumes "carries e" and "carries f" and "encode e = Inr d" and "encode f = Inr d"
  shows "e = f"
proof -
  have "decode d (int (length d) + 1) = Ret (None, e)" by (rule reads_back [OF assms(1,3)]) simp_all
  moreover have "decode d (int (length d) + 1) = Ret (None, f)" by (rule reads_back [OF assms(2,4)]) simp_all
  ultimately show ?thesis by simp
qed

end

definition json_carries :: "Envelope \<Rightarrow> bool" where
  "json_carries e \<longleftrightarrow> e_Type e \<noteq> [] \<and>
     list_all utf8_valid [e_Version e, e_Type e, e_Encoding e, e_From e, e_Mid e, e_Correlation e]"

definition pb_carries :: "proto_lib \<Rightarrow> Envelope \<Rightarrow> bool" where
  "pb_carries pl e \<longleftrightarrow> pb_known_type (e_Type e) \<and> (e_Encoding e = EncodingJSON \<or> e_Encoding e = EncodingProtobuf) \<and>
     e_From e = [] \<and> (\<exists>d. proto_Marshal pl (pb_of_envelope e) = Some d \<and> proto_Unmarshal pl d = Some (pb_of_envelope e))"

definition codec_carries :: "proto_lib \<Rightarrow> MessageCodec \<Rightarrow> Envelope \<Rightarrow> bool" where
  "codec_carries pl c e = (case c of JSONCodec \<Rightarrow> json_carries e | ProtobufCodec \<Rightarrow> pb_carries pl e)"

interpretation codec: message_codec "Codec_Encode pl c" "\<lambda>d m. Codec_Decode pl c d zero_Envelope m" "codec_carries pl c"
  for pl c
proof
  fix e d m
  assume e: "codec_carries pl c e"
  show "\<exists>d. Codec_Encode pl c e = Inr d"
    using e by (cases c) (auto simp: Codec_Encode_def codec_carries_def pb_carries_def ProtobufCodec_Encode_def)
  assume d: "Codec_Encode pl c e = Inr d" and m: "0 < m" "int (length d) \<le> m"
  show "Codec_Decode pl c d zero_Envelope m = Ret (None, e)"
  proof (cases c)
    case JSONCodec
    then have "e_Type e \<noteq> []" "valid_envelope e = e" "d = JSONCodec_Encode e"
      using e d by (simp_all add: codec_carries_def json_carries_def valid_envelope_def to_valid_id Codec_Encode_def)
    moreover from this have "int (length (json_envelope e)) \<le> m" using m by (simp add: JSONCodec_Encode_def)
    ultimately show ?thesis using JSONCodec JSONCodec_Decode_Encode [of e m "[]"] by (simp add: Codec_Decode_def)
  next
    case ProtobufCodec
    then have "proto_Unmarshal pl d = Some (pb_of_envelope e)" "envelope_of_pb (pb_of_envelope e) = e"
      using e d by (auto simp: codec_carries_def pb_carries_def Codec_Encode_def ProtobufCodec_Encode_def pb_envelope_roundtrip)
    then show ?thesis using ProtobufCodec m by (simp add: Codec_Decode_def ProtobufCodec_Decode_def limit_reader_def)
  qed
qed

end
