(* ===== verification/Sessions.thy ===== *)
theory Sessions
  imports Frames Protocol
begin

section \<open>Sessions (internal/transport: session.go, session_manager.go, errors.go, options.go, and the session objects of tcp.go and ws.go)\<close>

text \<open>
  The objects below the gateway. A session is a TCP or a WebSocket session with its connection;
  a session context wraps a session and is what the gateway and the session manager hold. Objects
  live on a heap: a pointer is an index into the list of allocated objects, and using an index that
  was never allocated is a nil dereference. A \<open>sync.Once\<close> is the flag that it has run.

  The world \<open>net\<close> is one transport server with its gateway. The clock and the identifiers of the
  \<open>uuid\<close> package are sequences, and each call takes the next element, so that nothing is assumed
  of them where nothing is stated. The WebSocket connection belongs to the package gorilla/websocket:
  its methods are a parameter (\<open>ws_lib\<close>) on a connection state of any type \<open>'c\<close>. Log lines keep
  the message key and the session id.
\<close>

subsection \<open>Errors (errors.go)\<close>

record tpError =
  tp_code :: int
  tp_msg :: string
  tp_context :: string

definition newTpError :: "int \<Rightarrow> string \<Rightarrow> string \<Rightarrow> tpError" where
  "newTpError code message context = \<lparr>tp_code = code, tp_msg = message, tp_context = context\<rparr>"

definition tpError_Error :: "tpError \<Rightarrow> string" where
  "tpError_Error e =
     (if tp_context e \<noteq> [] then
        ''Error '' @ strconv_Itoa (tp_code e) @ '': '' @ tp_msg e @ '' (context: '' @ tp_context e @ '')''
      else ''Error '' @ strconv_Itoa (tp_code e) @ '': '' @ tp_msg e)"

datatype trans_err =
    ErrSessionClosed
  | TpErr tpError
  | EncodeErr codec_err
  | FrameErr frame_err
  | ConnErr io_err

definition ErrSessionContextClosed :: trans_err where
  "ErrSessionContextClosed = TpErr (newTpError 1001 ''Session context is closed'' [])"

subsection \<open>Options (options.go, transport.go)\<close>

record Options =
  o_OutBuffer :: int
  o_ReadTimeout :: Duration
  o_WriteTimeout :: Duration
  o_HeartbeatInterval :: Duration
  o_HeartbeatTimeout :: Duration
  o_MaxFrameSize :: int
  o_TCPProtocolManager :: "Manager option"
  o_WSProtocolManager :: "Manager option"

definition GetTCPProtocolManager :: "Options \<Rightarrow> Manager option" where
  "GetTCPProtocolManager opt = o_TCPProtocolManager opt"

definition GetWSProtocolManager :: "Options \<Rightarrow> Manager option" where
  "GetWSProtocolManager opt = o_WSProtocolManager opt"

definition Tcp :: string where "Tcp = ''tcp''"
definition WebSocket :: string where "WebSocket = ''websocket''"

subsection \<open>The base session (session.go)\<close>

datatype SessionState = SessionStateActive | SessionStateClosed

definition SessionContextUnClosed :: int where "SessionContextUnClosed = 0"
definition SessionContextClosed :: int where "SessionContextClosed = 1"

record Base =
  b_id :: string
  b_remoteAddr :: string
  b_state :: SessionState
  b_closeOnce :: bool

definition NewBase :: "string \<Rightarrow> string \<Rightarrow> Base" where
  "NewBase uid remoteAddr = \<lparr>b_id = uid, b_remoteAddr = remoteAddr, b_state = SessionStateActive, b_closeOnce = False\<rparr>"

definition Base_ID :: "Base \<Rightarrow> string" where "Base_ID s = b_id s"
definition Base_RemoteAddr :: "Base \<Rightarrow> string" where "Base_RemoteAddr s = b_remoteAddr s"
definition Base_State :: "Base \<Rightarrow> SessionState" where "Base_State s = b_state s"

lemmas base_defs = NewBase_def Base_ID_def Base_RemoteAddr_def Base_State_def

subsection \<open>TCP sessions (tcp.go)\<close>

text \<open>
  A network connection is its byte stream, whether \<open>Close\<close> was called, what \<open>Close\<close> reports, and
  the read deadline. After \<open>Close\<close> every read and write fails.
\<close>

record net_conn =
  nc_stream :: conn
  nc_remote :: string
  nc_closed :: bool
  nc_closeErr :: "io_err option"
  nc_deadline :: "Time option"

definition closed_text :: string where
  "closed_text = ''use of closed network connection''"

definition timeout_text :: string where
  "timeout_text = ''i/o timeout''"

definition net_Close :: "net_conn \<Rightarrow> io_err option \<times> net_conn" where
  "net_Close c = (if nc_closed c then (Some (ConnError closed_text), c)
     else (nc_closeErr c, c\<lparr>nc_closed := True,
       nc_stream := (nc_stream c)\<lparr>cn_in := [], cn_end := ConnError closed_text, cn_room := Some 0\<rparr>\<rparr>))"

definition net_SetReadDeadline :: "Time \<Rightarrow> net_conn \<Rightarrow> net_conn" where
  "net_SetReadDeadline t c = (if nc_closed c then c else c\<lparr>nc_deadline := Some t\<rparr>)"

record tcpSession =
  ts_base :: Base
  ts_conn :: net_conn
  ts_frameCodec :: FrameCodec
  ts_protocolManager :: "Manager option"
  ts_closeChan :: "unit chan"
  ts_lastActive :: Time

definition newTcpSession :: "string \<Rightarrow> net_conn \<Rightarrow> Manager option \<Rightarrow> Time \<Rightarrow> tcpSession" where
  "newTcpSession uid c pm now = \<lparr>ts_base = NewBase uid (nc_remote c), ts_conn = c,
     ts_frameCodec = NewFrameCodec, ts_protocolManager = pm, ts_closeChan = make_chan 0, ts_lastActive = now\<rparr>"

text \<open>The methods return the outcome and the session afterwards; a nil manager is dereferenced.\<close>

definition tcpSession_SendEnvelope ::
  "proto_lib \<Rightarrow> Envelope \<Rightarrow> tcpSession \<Rightarrow> trans_err option outcome \<times> tcpSession" where
  "tcpSession_SendEnvelope pl e s =
     (if Base_State (ts_base s) = SessionStateClosed then (Ret (Some ErrSessionClosed), s)
      else case ts_protocolManager s of
        None \<Rightarrow> (Panic NilDereference, s)
      | Some pm \<Rightarrow>
         (case Manager_EncodeMessage pl pm e of
            Inl err \<Rightarrow> (Ret (Some (EncodeErr err)), s)
          | Inr buff \<Rightarrow>
             (case WriteFrame (Some (ts_frameCodec s)) buff (nc_stream (ts_conn s)) of
                (err, st) \<Rightarrow> (Ret (map_option FrameErr err), s\<lparr>ts_conn := (ts_conn s)\<lparr>nc_stream := st\<rparr>\<rparr>))))"

definition tcpSession_Close :: "tcpSession \<Rightarrow> trans_err option outcome \<times> tcpSession" where
  "tcpSession_Close s =
     (if b_closeOnce (ts_base s) then (Ret None, s)
      else
        (case net_Close (ts_conn s) of (err, c) \<Rightarrow>
           (let s' = s\<lparr>ts_base := (ts_base s)\<lparr>b_closeOnce := True\<rparr>, ts_conn := c\<rparr>
            in case close_chan (ts_closeChan s) of
                 None \<Rightarrow> (Panic CloseOfClosedChannel, s')
               | Some ch \<Rightarrow> (Ret (map_option ConnErr err), s'\<lparr>ts_closeChan := ch\<rparr>))))"

subsection \<open>WebSocket sessions (ws.go)\<close>

definition TextMessage :: int where "TextMessage = 1"
definition PingMessage :: int where "PingMessage = 9"

record 'c ws_lib =
  ws_RemoteAddr :: "'c \<Rightarrow> string"
  ws_WriteMessage :: "int \<Rightarrow> string \<Rightarrow> 'c \<Rightarrow> io_err option \<times> 'c"
  ws_ReadMessage :: "'c \<Rightarrow> (io_err + int \<times> string) \<times> 'c"
  ws_WriteControl :: "int \<Rightarrow> string \<Rightarrow> Time \<Rightarrow> 'c \<Rightarrow> io_err option \<times> 'c"
  ws_SetReadDeadline :: "Time \<Rightarrow> 'c \<Rightarrow> io_err option \<times> 'c"
  ws_Close :: "'c \<Rightarrow> io_err option \<times> 'c"

text \<open>
  The pong handler is the timeout its closure captured; the library calls the handler when a
  pong arrives.
\<close>

record 'c wsSession =
  wss_base :: Base
  wss_conn :: 'c
  wss_protocolManager :: "Manager option"
  wss_closeChan :: "unit chan"
  wss_pongTimeout :: "Duration option"

definition newWsSession :: "'c ws_lib \<Rightarrow> string \<Rightarrow> 'c \<Rightarrow> Manager option \<Rightarrow> 'c wsSession" where
  "newWsSession wl uid c pm = \<lparr>wss_base = NewBase uid (ws_RemoteAddr wl c), wss_conn = c,
     wss_protocolManager = pm, wss_closeChan = make_chan 0, wss_pongTimeout = None\<rparr>"

definition wsSession_SendEnvelope ::
  "proto_lib \<Rightarrow> 'c ws_lib \<Rightarrow> Envelope \<Rightarrow> 'c wsSession \<Rightarrow> trans_err option outcome \<times> 'c wsSession" where
  "wsSession_SendEnvelope pl wl e s =
     (if Base_State (wss_base s) = SessionStateClosed then (Ret (Some ErrSessionClosed), s)
      else case wss_protocolManager s of
        None \<Rightarrow> (Panic NilDereference, s)
      | Some pm \<Rightarrow>
         (case Manager_EncodeMessage pl pm e of
            Inl err \<Rightarrow> (Ret (Some (EncodeErr err)), s)
          | Inr buffer \<Rightarrow>
             (case ws_WriteMessage wl TextMessage buffer (wss_conn s) of
                (err, c) \<Rightarrow> (Ret (map_option ConnErr err), s\<lparr>wss_conn := c\<rparr>))))"

definition wsSession_Close :: "'c ws_lib \<Rightarrow> 'c wsSession \<Rightarrow> trans_err option outcome \<times> 'c wsSession" where
  "wsSession_Close wl s =
     (if b_closeOnce (wss_base s) then (Ret None, s)
      else
        (case ws_Close wl (wss_conn s) of (err, c) \<Rightarrow>
           (let s' = s\<lparr>wss_base := (wss_base s)\<lparr>b_closeOnce := True\<rparr>, wss_conn := c\<rparr>
            in case close_chan (wss_closeChan s) of
                 None \<Rightarrow> (Panic CloseOfClosedChannel, s')
               | Some ch \<Rightarrow> (Ret (map_option ConnErr err), s'\<lparr>wss_closeChan := ch\<rparr>))))"

subsection \<open>The session interface (session.go)\<close>

datatype 'c Session = TcpSession tcpSession | WsSession "'c wsSession"

record 'c libs =
  lib_proto :: proto_lib
  lib_ws :: "'c ws_lib"

definition Session_base :: "'c Session \<Rightarrow> Base" where
  "Session_base s = (case s of TcpSession t \<Rightarrow> ts_base t | WsSession v \<Rightarrow> wss_base v)"

definition Session_ID :: "'c Session \<Rightarrow> string" where
  "Session_ID s = Base_ID (Session_base s)"

definition Session_RemoteAddr :: "'c Session \<Rightarrow> string" where
  "Session_RemoteAddr s = Base_RemoteAddr (Session_base s)"

definition Session_SendEnvelope ::
  "'c libs \<Rightarrow> Envelope \<Rightarrow> 'c Session \<Rightarrow> trans_err option outcome \<times> 'c Session" where
  "Session_SendEnvelope lib e s = (case s of
     TcpSession t \<Rightarrow> map_prod id TcpSession (tcpSession_SendEnvelope (lib_proto lib) e t)
   | WsSession v \<Rightarrow> map_prod id WsSession (wsSession_SendEnvelope (lib_proto lib) (lib_ws lib) e v))"

definition Session_Close :: "'c libs \<Rightarrow> 'c Session \<Rightarrow> trans_err option outcome \<times> 'c Session" where
  "Session_Close lib s = (case s of
     TcpSession t \<Rightarrow> map_prod id TcpSession (tcpSession_Close t)
   | WsSession v \<Rightarrow> map_prod id WsSession (wsSession_Close (lib_ws lib) v))"

definition Session_closeChan :: "'c Session \<Rightarrow> unit chan" where
  "Session_closeChan s = (case s of TcpSession t \<Rightarrow> ts_closeChan t | WsSession v \<Rightarrow> wss_closeChan v)"

record SessionContext =
  sc_Id :: string
  sc_RemoteAddr :: string
  sc_sess :: nat
  sc_closed :: int
  sc_closeOnce :: bool

end
