(* ===== verification/Gateways.thy ===== *)
theory Gateways
  imports Sessions
begin

section \<open>Session contexts, the session manager and the gateway (internal/transport: session.go, session_manager.go, gateway_dispatcher.go, gateway.go)\<close>

text \<open>
  The heap of a transport server and the operations of the gateway on it. \<open>SessionContext\<close>
  methods, the manager and the dispatcher are computations on the world; the only handler the
  program registers is the one that answers a ping.
\<close>

subsection \<open>The world of one server\<close>

record SessionManager =
  sm_Map :: "(string, nat) syncmap"
  sm_count :: int64

definition NewSessionManager :: SessionManager where
  "NewSessionManager = \<lparr>sm_Map = [], sm_count = 0\<rparr>"

datatype HandlerFunc = PingHandler

record dispatcher =
  d_handlers :: "string \<rightharpoonup> HandlerFunc"

definition newDispatcher :: dispatcher where
  "newDispatcher = \<lparr>d_handlers = Map.empty\<rparr>"

record SimpleGateway =
  g_sessionManager :: SessionManager
  g_disp :: dispatcher
  g_initOnce :: bool

definition NewSimpleGateway :: SimpleGateway where
  "NewSimpleGateway = \<lparr>g_sessionManager = NewSessionManager, g_disp = newDispatcher, g_initOnce = False\<rparr>"

text \<open>The goroutines that a connection starts beside its reader: session, and context for the first.\<close>

datatype tcp_goroutine = LifecycleWatcher nat nat | HeartbeatWatcher nat

record 'c net =
  n_sess :: "'c Session list"
  n_ctx :: "SessionContext list"
  n_gw :: SimpleGateway
  n_log :: "(string \<times> string) list"
  n_uuid :: "nat \<Rightarrow> string"
  n_uuids :: nat
  n_clock :: "nat \<Rightarrow> Time"
  n_reads :: nat
  n_go :: "tcp_goroutine list"

definition new_net :: "(nat \<Rightarrow> string) \<Rightarrow> (nat \<Rightarrow> Time) \<Rightarrow> 'c net" where
  "new_net u clk = \<lparr>n_sess = [], n_ctx = [], n_gw = NewSimpleGateway, n_log = [],
     n_uuid = u, n_uuids = 0, n_clock = clk, n_reads = 0, n_go = []\<rparr>"

definition uuid_New :: "('c net, string) go" where
  "uuid_New = bindG (getG (\<lambda>w. n_uuid w (n_uuids w))) (\<lambda>u.
     thenG (modifyG (\<lambda>w. w\<lparr>n_uuids := Suc (n_uuids w)\<rparr>)) (ret u))"

definition time_Now :: "('c net, Time) go" where
  "time_Now = bindG (getG (\<lambda>w. n_clock w (n_reads w))) (\<lambda>t.
     thenG (modifyG (\<lambda>w. w\<lparr>n_reads := Suc (n_reads w)\<rparr>)) (ret t))"

text \<open>Milliseconds since 1970; the zero time is 62135596800 seconds earlier.\<close>

definition Time_UnixMilli :: "Time \<Rightarrow> int64" where
  "Time_UnixMilli t = of_int ((t - 62135596800000000000) div 1000000)"

definition log_line :: "string \<Rightarrow> string \<Rightarrow> ('c net, unit) go" where
  "log_line key arg = modifyG (\<lambda>w. w\<lparr>n_log := n_log w @ [(key, arg)]\<rparr>)"

definition deref_ctx :: "nat \<Rightarrow> ('c net, SessionContext) go" where
  "deref_ctx a = (\<lambda>w. if a < length (n_ctx w) then (Ret (n_ctx w ! a), w) else (Panic NilDereference, w))"

definition deref_sess :: "nat \<Rightarrow> ('c net, 'c Session) go" where
  "deref_sess a = (\<lambda>w. if a < length (n_sess w) then (Ret (n_sess w ! a), w) else (Panic NilDereference, w))"

definition set_ctx :: "nat \<Rightarrow> SessionContext \<Rightarrow> ('c net, unit) go" where
  "set_ctx a c = modifyG (\<lambda>w. w\<lparr>n_ctx := (n_ctx w)[a := c]\<rparr>)"

definition set_sess :: "nat \<Rightarrow> 'c Session \<Rightarrow> ('c net, unit) go" where
  "set_sess a s = modifyG (\<lambda>w. w\<lparr>n_sess := (n_sess w)[a := s]\<rparr>)"

text \<open>A method of a session object, called through its pointer.\<close>

definition on_sess :: "nat \<Rightarrow> ('c Session \<Rightarrow> 'a outcome \<times> 'c Session) \<Rightarrow> ('c net, 'a) go" where
  "on_sess a m = (\<lambda>w. if a < length (n_sess w)
     then (case m (n_sess w ! a) of (r, s) \<Rightarrow> (r, w\<lparr>n_sess := (n_sess w)[a := s]\<rparr>))
     else (Panic NilDereference, w))"

subsection \<open>Session contexts (session.go)\<close>

definition NewSessionContext :: "nat \<Rightarrow> ('c net, nat) go" where
  "NewSessionContext s = bindG (deref_sess s) (\<lambda>v. bindG (getG (\<lambda>w. length (n_ctx w))) (\<lambda>a.
     thenG (modifyG (\<lambda>w. w\<lparr>n_ctx := n_ctx w @ [\<lparr>sc_Id = Session_ID v, sc_RemoteAddr = Session_RemoteAddr v,
        sc_sess = s, sc_closed = SessionContextUnClosed, sc_closeOnce = False\<rparr>]\<rparr>)) (ret a)))"

definition SessionContext_Send :: "'c libs \<Rightarrow> nat \<Rightarrow> Envelope \<Rightarrow> ('c net, trans_err option) go" where
  "SessionContext_Send lib a e = bindG (deref_ctx a) (\<lambda>sc.
     if sc_closed sc = SessionContextClosed then ret (Some ErrSessionContextClosed)
     else on_sess (sc_sess sc) (Session_SendEnvelope lib e))"

definition SessionContext_Close :: "'c libs \<Rightarrow> nat \<Rightarrow> ('c net, trans_err option) go" where
  "SessionContext_Close lib a = bindG (deref_ctx a) (\<lambda>sc.
     if sc_closeOnce sc then ret None
     else thenG (set_ctx a (sc\<lparr>sc_closeOnce := True, sc_closed := SessionContextClosed\<rparr>))
       (on_sess (sc_sess sc) (Session_Close lib)))"

subsection \<open>The session manager (session_manager.go)\<close>

definition upd_sm :: "(SessionManager \<Rightarrow> SessionManager) \<Rightarrow> ('c net, unit) go" where
  "upd_sm f = modifyG (\<lambda>w. w\<lparr>n_gw := (n_gw w)\<lparr>g_sessionManager := f (g_sessionManager (n_gw w))\<rparr>\<rparr>)"

definition SessionManager_AddContext :: "nat option \<Rightarrow> ('c net, nat option) go" where
  "SessionManager_AddContext sc = (case sc of
     None \<Rightarrow> ret None
   | Some a \<Rightarrow> bindG (deref_ctx a) (\<lambda>c.
       thenG (upd_sm (\<lambda>sm. sm\<lparr>sm_Map := Store (sc_Id c) a (sm_Map sm), sm_count := sm_count sm + 1\<rparr>))
         (ret (Some a))))"

definition SessionManager_Remove :: "string \<Rightarrow> ('c net, unit) go" where
  "SessionManager_Remove uid =
     upd_sm (\<lambda>sm. sm\<lparr>sm_Map := Delete uid (sm_Map sm), sm_count := sm_count sm - 1\<rparr>)"

definition SessionManager_Count :: "SessionManager \<Rightarrow> int64" where
  "SessionManager_Count sm = sm_count sm"

definition SessionManager_Get :: "SessionManager \<Rightarrow> string \<Rightarrow> nat option" where
  "SessionManager_Get sm uid = Load (sm_Map sm) uid"

definition SessionManager_GetAll :: "SessionManager \<Rightarrow> nat list" where
  "SessionManager_GetAll sm = map snd (sm_Map sm)"

subsection \<open>The dispatcher and the ping handler (gateway_dispatcher.go, gateway.go)\<close>

definition dispatcher_Register :: "string \<Rightarrow> HandlerFunc \<Rightarrow> dispatcher \<Rightarrow> dispatcher" where
  "dispatcher_Register msgType handler d = d\<lparr>d_handlers := (d_handlers d)(msgType \<mapsto> handler)\<rparr>"

text \<open>The sequence number a ping carries; 0 when its payload does not parse or has none.\<close>

definition ping_seq :: "string \<Rightarrow> int64" where
  "ping_seq d = pg_Seq (snd (json_Unmarshal ping_fields d \<lparr>pg_Seq = 0, pg_Timestamp = 0\<rparr>))"

definition log_err :: "string \<Rightarrow> nat \<Rightarrow> trans_err option \<Rightarrow> ('c net, unit) go" where
  "log_err key a err = (case err of
     None \<Rightarrow> ret ()
   | Some _ \<Rightarrow> bindG (deref_ctx a) (\<lambda>sc. log_line key (sc_Id sc)))"

definition ping_handler :: "'c libs \<Rightarrow> nat \<Rightarrow> Envelope \<Rightarrow> ('c net, unit) go" where
  "ping_handler lib a msg =
     bindG time_Now (\<lambda>t1. bindG uuid_New (\<lambda>u. bindG time_Now (\<lambda>t2.
       bindG (SessionContext_Send lib a
           (CreatePongMessage NewMessageFactory u (Time_UnixMilli t1) (Time_UnixMilli t2) (ping_seq (e_Data msg)) (e_Mid msg)))
         (log_err ''send_pong_failed'' a))))"

definition run_handler :: "'c libs \<Rightarrow> HandlerFunc \<Rightarrow> nat \<Rightarrow> Envelope \<Rightarrow> ('c net, unit) go" where
  "run_handler lib h a msg = (case h of PingHandler \<Rightarrow> ping_handler lib a msg)"

definition dispatcher_Dispatch :: "'c libs \<Rightarrow> nat \<Rightarrow> Envelope \<Rightarrow> ('c net, unit) go" where
  "dispatcher_Dispatch lib a msg = bindG (getG (\<lambda>w. d_handlers (g_disp (n_gw w)) (e_Type msg))) (\<lambda>h.
     case h of
       Some f \<Rightarrow> run_handler lib f a msg
     | None \<Rightarrow> log_line ''no handler for message type'' (e_Type msg))"

subsection \<open>The gateway (gateway.go)\<close>

definition register_ping :: "('c net, unit) go" where
  "register_ping = modifyG (\<lambda>w. if g_initOnce (n_gw w) then w
     else w\<lparr>n_gw := (n_gw w)\<lparr>g_initOnce := True, g_disp := dispatcher_Register MsgPing PingHandler (g_disp (n_gw w))\<rparr>\<rparr>)"

definition welcome_text :: string where
  "welcome_text = ''Welcome to Chat-Go!''"

definition send_welcome :: "'c libs \<Rightarrow> nat \<Rightarrow> ('c net, unit) go" where
  "send_welcome lib a = bindG uuid_New (\<lambda>u. bindG time_Now (\<lambda>t.
     bindG (SessionContext_Send lib a (CreateTextMessage NewMessageFactory u (Time_UnixMilli t) welcome_text))
       (log_err ''send_welcome_failed'' a)))"

definition OnSessionOpen :: "'c libs \<Rightarrow> nat \<Rightarrow> ('c net, unit) go" where
  "OnSessionOpen lib a = bindG (deref_ctx a) (\<lambda>sc.
     thenG (log_line ''OnSessionOpen'' (sc_Id sc))
    (thenG (SessionManager_AddContext (Some a))
    (thenG register_ping
    (send_welcome lib a))))"

definition OnEnvelope :: "'c libs \<Rightarrow> nat \<Rightarrow> Envelope \<Rightarrow> ('c net, unit) go" where
  "OnEnvelope lib a msg = dispatcher_Dispatch lib a msg"

text \<open>The deferred \<open>Remove\<close> runs also when \<open>Close\<close> panics.\<close>

definition deferG :: "('w, unit) go \<Rightarrow> ('w, 'a) go \<Rightarrow> ('w, 'a) go" where
  "deferG d m = (\<lambda>w. case m w of (r, w') \<Rightarrow> (case d w' of
     (Ret _, w'') \<Rightarrow> (r, w'') | (Panic p, w'') \<Rightarrow> (Panic p, w'')))"

definition OnSessionClose :: "'c libs \<Rightarrow> nat \<Rightarrow> ('c net, unit) go" where
  "OnSessionClose lib a = bindG (deref_ctx a) (\<lambda>sc.
     deferG (SessionManager_Remove (sc_Id sc)) (thenG (SessionContext_Close lib a) (ret ())))"

definition GetSessionManager :: "SimpleGateway \<Rightarrow> SessionManager" where
  "GetSessionManager g = g_sessionManager g"

definition GetSession :: "SimpleGateway \<Rightarrow> string \<Rightarrow> nat option" where
  "GetSession g sessionID = SessionManager_Get (g_sessionManager g) sessionID"

subsection \<open>How the small steps run\<close>

lemma uuid_New_app [simp]: "uuid_New w = (Ret (n_uuid w (n_uuids w)), w\<lparr>n_uuids := Suc (n_uuids w)\<rparr>)"
  by (simp add: uuid_New_def)

lemma time_Now_app [simp]: "time_Now w = (Ret (n_clock w (n_reads w)), w\<lparr>n_reads := Suc (n_reads w)\<rparr>)"
  by (simp add: time_Now_def)

lemma log_line_app [simp]: "log_line key arg w = (Ret (), w\<lparr>n_log := n_log w @ [(key, arg)]\<rparr>)"
  by (simp add: log_line_def)

lemma NewSessionContext_app:
  "s < length (n_sess w) \<Longrightarrow> NewSessionContext s w = (Ret (length (n_ctx w)),
     w\<lparr>n_ctx := n_ctx w @ [\<lparr>sc_Id = Session_ID (n_sess w ! s), sc_RemoteAddr = Session_RemoteAddr (n_sess w ! s),
        sc_sess = s, sc_closed = SessionContextUnClosed, sc_closeOnce = False\<rparr>]\<rparr>)"
  by (simp add: NewSessionContext_def deref_sess_def bindG_app)

end
