(* ===== verification/Tcp_Transport.thy ===== *)
theory Tcp_Transport
  imports Gateways
begin

section \<open>The TCP server (internal/transport/tcp.go)\<close>

text \<open>
  The accept loop, the set-up of a connection and its three goroutines: the reader, the lifecycle
  watcher and the heartbeat watcher. Each turn of the reader's loop and each firing of a watcher is
  one definition; \<open>tcp_step\<close> interleaves them over all connections of a server.
\<close>

subsection \<open>Starting (NewTCPServer, Name, Start)\<close>

record TCPServer =
  tcp_addr :: string

definition NewTCPServer :: "string \<Rightarrow> TCPServer" where
  "NewTCPServer addr = \<lparr>tcp_addr = addr\<rparr>"

definition TCPServer_Name :: "TCPServer \<Rightarrow> string" where
  "TCPServer_Name s = Tcp"

text \<open>
  What \<open>Accept\<close> returns: a connection, or an error together with the state of the context when
  it is looked at. The loop returns at an error after the context has ended and goes on at any
  other; \<open>None\<close> is a loop that is still waiting after the given results.
\<close>

datatype accepted = Accepted net_conn | AcceptError io_err "string option"

fun accept_loop :: "accepted list \<Rightarrow> net_conn list \<times> string option" where
  "accept_loop [] = ([], None)"
| "accept_loop (Accepted c # rs) = (case accept_loop rs of (cs, r) \<Rightarrow> (c # cs, r))"
| "accept_loop (AcceptError e ctxErr # rs) = (case ctxErr of
     Some err \<Rightarrow> ([], Some err)
   | None \<Rightarrow> accept_loop rs)"

record tcp_start =
  st_listenAddr :: string
  st_opt :: Options
  st_handled :: "net_conn list"
  st_result :: "io_err + string option"

definition TCPServer_Start ::
  "TCPServer \<Rightarrow> string \<Rightarrow> Options \<Rightarrow> (string \<Rightarrow> io_err option) \<Rightarrow> accepted list \<Rightarrow> tcp_start" where
  "TCPServer_Start s addr opt listen rs =
     (let listenAddr = (if addr \<noteq> [] then addr else tcp_addr s);
          opt' = (if o_MaxFrameSize opt \<le> 0 then opt\<lparr>o_MaxFrameSize := 1048576\<rparr> else opt)
      in case listen listenAddr of
           Some e \<Rightarrow> \<lparr>st_listenAddr = listenAddr, st_opt = opt', st_handled = [], st_result = Inl e\<rparr>
         | None \<Rightarrow> (case accept_loop rs of (cs, r) \<Rightarrow>
             \<lparr>st_listenAddr = listenAddr, st_opt = opt', st_handled = cs, st_result = Inr r\<rparr>))"

subsection \<open>The reader (readLoop)\<close>

definition get_tcp :: "nat \<Rightarrow> ('c net, tcpSession) go" where
  "get_tcp a = bindG (deref_sess a) (\<lambda>s. case s of TcpSession t \<Rightarrow> ret t | WsSession _ \<Rightarrow> panicG TypeAssertion)"

definition put_tcp :: "nat \<Rightarrow> tcpSession \<Rightarrow> ('c net, unit) go" where
  "put_tcp a t = set_sess a (TcpSession t)"

definition upd_tcp :: "nat \<Rightarrow> (tcpSession \<Rightarrow> tcpSession) \<Rightarrow> ('c net, unit) go" where
  "upd_tcp a f = bindG (get_tcp a) (\<lambda>t. put_tcp a (f t))"

definition tcp_Close :: "nat \<Rightarrow> ('c net, trans_err option) go" where
  "tcp_Close a = bindG (get_tcp a) (\<lambda>t. case tcpSession_Close t of (r, t') \<Rightarrow>
     thenG (put_tcp a t') (case r of Ret e \<Rightarrow> ret e | Panic p \<Rightarrow> panicG p))"

text \<open>The deadline of the next read: \<open>opt.ReadTimeout * time.Second\<close> is a product of two durations.\<close>

definition read_deadline :: "Options \<Rightarrow> Time \<Rightarrow> Time" where
  "read_deadline opt now = Time_Add now (o_ReadTimeout opt * time_Second)"

text \<open>
  A read on a connection whose deadline has passed fails at once; otherwise the frame codec reads
  the stream, whose end may stand for a deadline that passes while waiting.
\<close>

definition tcp_ReadFrame :: "Time \<Rightarrow> tcpSession \<Rightarrow> (frame_err + string) \<times> tcpSession" where
  "tcp_ReadFrame now t =
     (let c = ts_conn t in
      if \<not> nc_closed c \<and> (case nc_deadline c of None \<Rightarrow> False | Some d \<Rightarrow> d \<le> now)
      then (Inl (FrameIO (ConnError timeout_text)), t)
      else (case ReadFrame (ts_frameCodec t) (Some (nc_stream c)) of
              (r, fc, st) \<Rightarrow> (r, t\<lparr>ts_frameCodec := fc,
                 ts_conn := c\<lparr>nc_stream := (case st of Some st' \<Rightarrow> st' | None \<Rightarrow> nc_stream c)\<rparr>\<rparr>)))"

definition frame_err_text :: "frame_err \<Rightarrow> string" where
  "frame_err_text e = (case e of
     FrameCodecNil \<Rightarrow> ''framecodec is nil''
   | FrameCodecOrConnNil \<Rightarrow> ''framecodec or conn is nil''
   | FrameTooLarge n \<Rightarrow> ''frame too large: '' @ strconv_Itoa n
   | InvalidFrameSize n \<Rightarrow> ''invalid frame size: '' @ strconv_Itoa n
   | FrameIO e \<Rightarrow> io_err_text e)"

text \<open>A read error that is not the end of the stream or of the connection is logged while active.\<close>

definition quiet_read_error :: "frame_err \<Rightarrow> bool" where
  "quiet_read_error e \<longleftrightarrow> e = FrameIO EOF \<or> strings_Contains (frame_err_text e) closed_text"

datatype loop_next = Again | Done

definition readLoop_error :: "tcpSession \<Rightarrow> frame_err \<Rightarrow> ('c net, loop_next) go" where
  "readLoop_error t err =
     (if quiet_read_error err then ret Done
      else thenG (if Base_State (ts_base t) = SessionStateActive
                  then log_line ''tcp_read_error'' (Base_ID (ts_base t)) else ret ()) (ret Done))"

text \<open>A frame was read: decode it and hand the envelope to the gateway, unless it is a heartbeat.\<close>

definition readLoop_frame :: "'c libs \<Rightarrow> nat \<Rightarrow> nat \<Rightarrow> Options \<Rightarrow> tcpSession \<Rightarrow> string \<Rightarrow> ('c net, loop_next) go" where
  "readLoop_frame lib s sc opt t frameData = (case ts_protocolManager t of
     None \<Rightarrow> panicG NilDereference
   | Some pm \<Rightarrow>
      (case Manager_DecodeMessage (lib_proto lib) pm frameData zero_Envelope (o_MaxFrameSize opt) of
         Panic p \<Rightarrow> panicG p
       | Ret (Some _, _) \<Rightarrow> thenG (log_line ''tcp_decode_error'' (Base_ID (ts_base t))) (ret Again)
       | Ret (None, envelope) \<Rightarrow>
           bindG time_Now (\<lambda>now. thenG (upd_tcp s (\<lambda>u. u\<lparr>ts_lastActive := now\<rparr>))
             (if e_Type envelope = MsgHeartbeat then ret Again
              else thenG (OnEnvelope lib sc envelope) (ret Again)))))"

text \<open>One turn of the loop.\<close>

definition readLoop_turn :: "'c libs \<Rightarrow> nat \<Rightarrow> nat \<Rightarrow> Options \<Rightarrow> ('c net, loop_next) go" where
  "readLoop_turn lib s sc opt =
     thenG (if 0 <s o_ReadTimeout opt
            then bindG time_Now (\<lambda>now. upd_tcp s (\<lambda>t.
              t\<lparr>ts_conn := net_SetReadDeadline (read_deadline opt now) (ts_conn t)\<rparr>))
            else ret ())
    (bindG time_Now (\<lambda>now. bindG (get_tcp s) (\<lambda>t. case tcp_ReadFrame now t of (r, t') \<Rightarrow>
       thenG (put_tcp s t')
         (case r of Inl err \<Rightarrow> readLoop_error t' err | Inr frameData \<Rightarrow> readLoop_frame lib s sc opt t' frameData))))"

text \<open>The deferred function of the reader.\<close>

definition readLoop_exit :: "'c libs \<Rightarrow> nat \<Rightarrow> nat \<Rightarrow> ('c net, unit) go" where
  "readLoop_exit lib s sc = thenG (OnSessionClose lib sc) (thenG (tcp_Close s) (ret ()))"

text \<open>
  The loop over the stream as the peer sends it, with a bound on the number of turns; \<open>False\<close> is
  a loop that has not ended within the bound.
\<close>

fun readLoop :: "nat \<Rightarrow> 'c libs \<Rightarrow> nat \<Rightarrow> nat \<Rightarrow> Options \<Rightarrow> ('c net, bool) go" where
  "readLoop 0 lib s sc opt = ret False"
| "readLoop (Suc n) lib s sc opt = (\<lambda>w. case readLoop_turn lib s sc opt w of
     (Ret Again, w') \<Rightarrow> readLoop n lib s sc opt w'
   | (Ret Done, w') \<Rightarrow> thenG (readLoop_exit lib s sc) (ret True) w'
   | (Panic p, w') \<Rightarrow> (case readLoop_exit lib s sc w' of
        (Panic q, w'') \<Rightarrow> (Panic q, w'')
      | (Ret _, w'') \<Rightarrow> (Panic p, w'')))"

subsection \<open>The watchers (lifecycleWatcher, heartbeatWatcher)\<close>

text \<open>The two cases of the lifecycle watcher's \<open>select\<close>.\<close>

definition lifecycle_ctxDone :: "nat \<Rightarrow> ('c net, unit) go" where
  "lifecycle_ctxDone s = thenG (tcp_Close s) (ret ())"

definition lifecycle_closed :: "'c libs \<Rightarrow> nat \<Rightarrow> ('c net, unit) go" where
  "lifecycle_closed lib sc = OnSessionClose lib sc"

definition heartbeat_enabled :: "Options \<Rightarrow> bool" where
  "heartbeat_enabled opt \<longleftrightarrow> \<not> (o_HeartbeatInterval opt \<le>s 0 \<or> o_HeartbeatTimeout opt \<le>s 0)"

text \<open>
  One tick; \<open>Done\<close> ends the watcher. \<open>time.Since\<close> does not exceed the largest duration, which matters
  only for that timeout.
\<close>

definition heartbeat_tick :: "Options \<Rightarrow> nat \<Rightarrow> ('c net, loop_next) go" where
  "heartbeat_tick opt s = bindG (get_tcp s) (\<lambda>t. bindG time_Now (\<lambda>now.
     if sint (o_HeartbeatTimeout opt) < now - ts_lastActive t
     then thenG (log_line ''tcp_heartbeat_timeout'' (Base_ID (ts_base t))) (thenG (tcp_Close s) (ret Done))
     else ret Again))"

subsection \<open>A new connection (handleConnection)\<close>

text \<open>Up to the start of the goroutines; returns the pointers of the session and its context.\<close>

definition handleConnection_open :: "'c libs \<Rightarrow> Options \<Rightarrow> net_conn \<Rightarrow> ('c net, nat \<times> nat) go" where
  "handleConnection_open lib opt c =
     bindG uuid_New (\<lambda>uid. bindG time_Now (\<lambda>now. bindG (getG (\<lambda>w. length (n_sess w))) (\<lambda>s.
       thenG (modifyG (\<lambda>w. w\<lparr>n_sess := n_sess w @ [TcpSession (newTcpSession uid c (GetTCPProtocolManager opt) now)]\<rparr>))
      (bindG (NewSessionContext s) (\<lambda>sc.
         thenG (OnSessionOpen lib sc) (ret (s, sc)))))))"

text \<open>
  The connection's own goroutine: it starts the two watchers and runs the reader. What the started
  goroutines do is \<open>lifecycle_ctxDone\<close>, \<open>lifecycle_closed\<close> and \<open>heartbeat_tick\<close>.
\<close>

definition go_tcp :: "tcp_goroutine \<Rightarrow> ('c net, unit) go" where
  "go_tcp g = modifyG (\<lambda>w. w\<lparr>n_go := n_go w @ [g]\<rparr>)"

definition handleConnection :: "nat \<Rightarrow> 'c libs \<Rightarrow> Options \<Rightarrow> net_conn \<Rightarrow> ('c net, bool) go" where
  "handleConnection fuel lib opt c =
     bindG (handleConnection_open lib opt c) (\<lambda>(s, sc).
       thenG (go_tcp (LifecycleWatcher s sc)) (thenG (go_tcp (HeartbeatWatcher s)) (readLoop fuel lib s sc opt)))"

end
