(* ===== verification/Session_Properties.thy ===== *)
theory Session_Properties
  imports Gateways Frame_Properties Codec_Properties
begin

section \<open>Properties of sessions, contexts and the gateway's operations\<close>

text \<open>
  The interface \<open>session_object\<close> is what a context and the gateway rely on in a session; it is
  interpreted on TCP sessions, on WebSocket sessions over any library, and on the interface value
  that is one of the two. From its laws follow the effects of the gateway's operations on the heap,
  which the server theories use.
\<close>

subsection \<open>The session interface\<close>

datatype sess_op = SendOp Envelope | CloseOp

locale session_object =
  fixes send :: "Envelope \<Rightarrow> 's \<Rightarrow> 'e option outcome \<times> 's"
    and close :: "'s \<Rightarrow> 'e option outcome \<times> 's"
    and uid :: "'s \<Rightarrow> string"
    and closed :: "'s \<Rightarrow> bool"
    and ok :: "'s \<Rightarrow> bool"
  assumes close_closes: "ok s \<Longrightarrow> \<exists>r s'. close s = (Ret r, s') \<and> ok s' \<and> closed s' \<and> uid s' = uid s"
    and close_again: "closed s \<Longrightarrow> close s = (Ret None, s)"
    and send_keeps: "ok s \<Longrightarrow> \<exists>r s'. send e s = (Ret r, s') \<and> ok s' \<and> closed s' = closed s \<and> uid s' = uid s"
begin

text \<open>Running calls one after the other; the calls that panicked are counted.\<close>

fun run_ops :: "sess_op list \<Rightarrow> 's \<Rightarrow> nat \<times> 's" where
  "run_ops [] s = (0, s)"
| "run_ops (p # ps) s =
     (case (case p of SendOp e \<Rightarrow> send e s | CloseOp \<Rightarrow> close s) of
        (Ret _, s') \<Rightarrow> run_ops ps s'
      | (Panic _, s') \<Rightarrow> (case run_ops ps s' of (n, s'') \<Rightarrow> (Suc n, s'')))"

lemma op_keeps:
  assumes "ok s"
  shows "\<exists>r s'. (case p of SendOp e \<Rightarrow> send e s | CloseOp \<Rightarrow> close s) = (Ret r, s') \<and> ok s' \<and>
    uid s' = uid s \<and> (closed s' \<longleftrightarrow> closed s \<or> p = CloseOp)"
proof (cases p)
  case (SendOp e)
  then show ?thesis using send_keeps [OF assms, of e] by auto
next
  case CloseOp
  then show ?thesis using close_closes [OF assms] by auto
qed

lemma run_ops_safe:
  assumes "ok s"
  shows "\<exists>s'. run_ops ps s = (0, s') \<and> ok s' \<and> uid s' = uid s \<and> (closed s' \<longleftrightarrow> closed s \<or> CloseOp \<in> set ps)"
  using assms
proof (induction ps arbitrary: s)
  case (Cons p ps)
  from op_keeps [OF Cons.prems, of p] obtain r s' where
    s': "(case p of SendOp e \<Rightarrow> send e s | CloseOp \<Rightarrow> close s) = (Ret r, s')" "ok s'" "uid s' = uid s"
    "closed s' \<longleftrightarrow> closed s \<or> p = CloseOp" by blast
  from Cons.IH [OF s'(2)] obtain s'' where
    "run_ops ps s' = (0, s'')" "ok s''" "uid s'' = uid s'" "closed s'' \<longleftrightarrow> closed s' \<or> CloseOp \<in> set ps" by blast
  with s' show ?case by auto
qed simp

end

definition tcp_ok :: "tcpSession \<Rightarrow> bool" where
  "tcp_ok t \<longleftrightarrow> Base_State (ts_base t) = SessionStateActive \<and> ts_protocolManager t \<noteq> None \<and>
     (b_closeOnce (ts_base t) \<longleftrightarrow> ch_closed (ts_closeChan t)) \<and> (b_closeOnce (ts_base t) \<longleftrightarrow> nc_closed (ts_conn t)) \<and>
     (nc_closed (ts_conn t) \<longrightarrow> cn_in (nc_stream (ts_conn t)) = [] \<and> cn_end (nc_stream (ts_conn t)) = ConnError closed_text)"

definition ws_ok :: "'c wsSession \<Rightarrow> bool" where
  "ws_ok v \<longleftrightarrow> Base_State (wss_base v) = SessionStateActive \<and> wss_protocolManager v \<noteq> None \<and>
     (b_closeOnce (wss_base v) \<longleftrightarrow> ch_closed (wss_closeChan v))"

definition Session_ok :: "'c Session \<Rightarrow> bool" where
  "Session_ok s = (case s of TcpSession t \<Rightarrow> tcp_ok t | WsSession v \<Rightarrow> ws_ok v)"

definition Session_closed :: "'c Session \<Rightarrow> bool" where
  "Session_closed s = b_closeOnce (Session_base s)"

lemmas session_defs = Session_ok_def Session_closed_def Session_base_def Session_ID_def base_defs

text \<open>What a send leaves of a TCP session: everything but the bytes written.\<close>

lemma WriteFrame_stream:
  "\<exists>r q rm. WriteFrame (Some fc) p c = (r, c\<lparr>cn_out := cn_out c @ q, cn_room := rm\<rparr>)"
proof -
  have "\<exists>r q rm. conn_Write c b = (r, c\<lparr>cn_out := cn_out c @ q, cn_room := rm\<rparr>)" for b c
  proof (cases "cn_room c")
    case None
    then have "conn_Write c b = (None, c\<lparr>cn_out := cn_out c @ b, cn_room := None\<rparr>)"
      by (cases c) (simp add: conn_Write_def)
    then show ?thesis by blast
  next
    case (Some n)
    then show ?thesis by (simp add: conn_Write_def) blast
  qed
  note W = this
  show ?thesis
  proof (cases "16 * 1024 * 1024 < int (length p)")
    case True
    then show ?thesis by (auto simp: WriteFrame_def intro!: exI [of _ "[]"] exI [of _ "cn_room c"])
  next
    case False
    obtain r q rm where 1: "conn_Write c (BigEndian_PutUint32 (int (length p) mod 2 ^ 32)) =
        (r, c\<lparr>cn_out := cn_out c @ q, cn_room := rm\<rparr>)" using W by blast
    obtain r' q' rm' where 2: "conn_Write (c\<lparr>cn_out := cn_out c @ q, cn_room := rm\<rparr>) p =
        (r', c\<lparr>cn_out := cn_out c @ (q @ q'), cn_room := rm'\<rparr>)"
      using W [of "c\<lparr>cn_out := cn_out c @ q, cn_room := rm\<rparr>" p] by auto
    show ?thesis
      using False 1 2 by (cases r; cases r') (auto simp: WriteFrame_def Let_def intro: exI [of _ q] exI [of _ "q @ q'"])
  qed
qed

lemma tcp_send_stream:
  assumes "tcp_ok t"
  shows "\<exists>r q rm. tcpSession_SendEnvelope pl e t = (Ret r, t\<lparr>ts_conn := (ts_conn t)\<lparr>nc_stream :=
    (nc_stream (ts_conn t))\<lparr>cn_out := cn_out (nc_stream (ts_conn t)) @ q, cn_room := rm\<rparr>\<rparr>\<rparr>)"
proof -
  from assms obtain pm where pm: "ts_protocolManager t = Some pm" and st: "Base_State (ts_base t) = SessionStateActive"
    by (auto simp: tcp_ok_def)
  have same: "t\<lparr>ts_conn := (ts_conn t)\<lparr>nc_stream := (nc_stream (ts_conn t))\<lparr>cn_out := cn_out (nc_stream (ts_conn t)) @ [],
      cn_room := cn_room (nc_stream (ts_conn t))\<rparr>\<rparr>\<rparr> = t" by simp
  show ?thesis
  proof (cases "Manager_EncodeMessage pl pm e")
    case (Inl err)
    then have "tcpSession_SendEnvelope pl e t = (Ret (Some (EncodeErr err)), t)"
      using pm st by (simp add: tcpSession_SendEnvelope_def)
    then show ?thesis using same by metis
  next
    case (Inr buff)
    obtain r q rm where "WriteFrame (Some (ts_frameCodec t)) buff (nc_stream (ts_conn t)) =
        (r, (nc_stream (ts_conn t))\<lparr>cn_out := cn_out (nc_stream (ts_conn t)) @ q, cn_room := rm\<rparr>)"
      using WriteFrame_stream by blast
    then show ?thesis using Inr pm st by (simp add: tcpSession_SendEnvelope_def) blast
  qed
qed

interpretation tcp_obj: session_object "tcpSession_SendEnvelope pl" tcpSession_Close
  "\<lambda>t. b_id (ts_base t)" "\<lambda>t. b_closeOnce (ts_base t)" tcp_ok for pl
proof
  fix t :: tcpSession and e
  assume t: "tcp_ok t"
  show "\<exists>r s'. tcpSession_Close t = (Ret r, s') \<and> tcp_ok s' \<and> b_closeOnce (ts_base s') \<and> b_id (ts_base s') = b_id (ts_base t)"
    using t by (auto simp: tcpSession_Close_def tcp_ok_def net_Close_def close_chan_def base_defs)
  from tcp_send_stream [OF t, of pl e] t
  show "\<exists>r s'. tcpSession_SendEnvelope pl e t = (Ret r, s') \<and> tcp_ok s' \<and>
      b_closeOnce (ts_base s') = b_closeOnce (ts_base t) \<and> b_id (ts_base s') = b_id (ts_base t)"
    by (auto simp: tcp_ok_def)
qed (simp add: tcpSession_Close_def)

interpretation ws_obj: session_object "wsSession_SendEnvelope pl wl" "wsSession_Close wl"
  "\<lambda>v. b_id (wss_base v)" "\<lambda>v. b_closeOnce (wss_base v)" ws_ok for pl and wl :: "'c ws_lib"
proof
  fix v :: "'c wsSession" and e
  assume v: "ws_ok v"
  show "\<exists>r s'. wsSession_Close wl v = (Ret r, s') \<and> ws_ok s' \<and> b_closeOnce (wss_base s') \<and> b_id (wss_base s') = b_id (wss_base v)"
    using v by (auto simp: wsSession_Close_def ws_ok_def close_chan_def base_defs split: prod.split)
  show "\<exists>r s'. wsSession_SendEnvelope pl wl e v = (Ret r, s') \<and> ws_ok s' \<and>
      b_closeOnce (wss_base s') = b_closeOnce (wss_base v) \<and> b_id (wss_base s') = b_id (wss_base v)"
    using v by (auto simp: wsSession_SendEnvelope_def ws_ok_def split: sum.split prod.split)
qed (simp add: wsSession_Close_def)

text \<open>The interface value: method calls go to the object inside.\<close>

interpretation any_obj: session_object "Session_SendEnvelope lib" "Session_Close lib" Session_ID Session_closed Session_ok
  for lib :: "'c libs"
proof
  fix s :: "'c Session" and e
  assume s: "Session_ok s"
  show "\<exists>r s'. Session_Close lib s = (Ret r, s') \<and> Session_ok s' \<and> Session_closed s' \<and> Session_ID s' = Session_ID s"
  proof (cases s)
    case (TcpSession t)
    with s tcp_obj.close_closes [of t] show ?thesis by (auto simp: Session_Close_def session_defs)
  next
    case (WsSession v)
    with s ws_obj.close_closes [of v "lib_ws lib"] show ?thesis by (auto simp: Session_Close_def session_defs)
  qed
  show "\<exists>r s'. Session_SendEnvelope lib e s = (Ret r, s') \<and> Session_ok s' \<and>
      Session_closed s' = Session_closed s \<and> Session_ID s' = Session_ID s"
  proof (cases s)
    case (TcpSession t)
    with s tcp_obj.send_keeps [of t "lib_proto lib" e] show ?thesis by (auto simp: Session_SendEnvelope_def session_defs)
  next
    case (WsSession v)
    with s ws_obj.send_keeps [of v "lib_proto lib" "lib_ws lib" e] show ?thesis
      by (auto simp: Session_SendEnvelope_def session_defs)
  qed
next
  fix s :: "'c Session"
  assume "Session_closed s"
  then show "Session_Close lib s = (Ret None, s)"
    by (cases s) (simp_all add: Session_Close_def tcpSession_Close_def wsSession_Close_def session_defs)
qed

end
