(* ===== verification/Gateway_Lemmas.thy ===== *)
theory Gateway_Lemmas
  imports Session_Properties
begin

section \<open>The gateway's operations on the heap\<close>

text \<open>
  A well-formed heap pairs every context with its session. Most operations are \<open>calm\<close>: on a
  well-formed heap they return and leave contexts, identities and the session manager as they
  were; they may write to a connection, close a session, read the clock, log. Calm computations
  compose, so that the handlers are calm by their structure. \<open>OnSessionOpen\<close> and \<open>OnSessionClose\<close>
  are the two operations that touch the manager, and their effect is stated exactly.
\<close>

named_theorems calm_rules \<open>operations that are calm\<close>

definition is_Tcp :: "'c Session \<Rightarrow> bool" where
  "is_Tcp s = (case s of TcpSession _ \<Rightarrow> True | WsSession _ \<Rightarrow> False)"

abbreviation manager :: "'c net \<Rightarrow> SessionManager" where
  "manager w \<equiv> g_sessionManager (n_gw w)"

definition ctx_ok :: "'c net \<Rightarrow> nat \<Rightarrow> bool" where
  "ctx_ok w i \<longleftrightarrow> Session_ok (n_sess w ! i) \<and> sc_sess (n_ctx w ! i) = i \<and>
     sc_Id (n_ctx w ! i) = Session_ID (n_sess w ! i) \<and>
     (sc_closed (n_ctx w ! i) = SessionContextClosed \<longleftrightarrow> sc_closeOnce (n_ctx w ! i)) \<and>
     (sc_closeOnce (n_ctx w ! i) \<longrightarrow> Session_closed (n_sess w ! i))"

definition net_ok :: "'c net \<Rightarrow> bool" where
  "net_ok w \<longleftrightarrow> length (n_sess w) = length (n_ctx w) \<and> syncmap_ok (sm_Map (manager w)) \<and>
     (\<forall>i < length (n_ctx w). ctx_ok w i)"

definition quiet :: "'c net \<Rightarrow> 'c net \<Rightarrow> bool" where
  "quiet w w' \<longleftrightarrow> net_ok w' \<and> n_ctx w' = n_ctx w \<and> manager w' = manager w \<and>
     n_uuid w' = n_uuid w \<and> n_uuids w \<le> n_uuids w' \<and> n_go w' = n_go w \<and>
     (\<forall>i < length (n_ctx w). is_Tcp (n_sess w' ! i) = is_Tcp (n_sess w ! i) \<and>
        (Session_closed (n_sess w ! i) \<longrightarrow> Session_closed (n_sess w' ! i)))"

definition calm :: "bool \<Rightarrow> nat \<Rightarrow> ('c net, 'a) go \<Rightarrow> bool" where
  "calm b i m \<longleftrightarrow> (\<forall>w. net_ok w \<longrightarrow> i < length (n_ctx w) \<longrightarrow> is_Tcp (n_sess w ! i) = b \<longrightarrow>
     (\<exists>r w'. m w = (Ret r, w') \<and> quiet w w'))"

lemma net_okD:
  assumes "net_ok w" and "i < length (n_ctx w)"
  shows "i < length (n_sess w)" "Session_ok (n_sess w ! i)" "sc_sess (n_ctx w ! i) = i"
    "sc_Id (n_ctx w ! i) = Session_ID (n_sess w ! i)"
    "sc_closed (n_ctx w ! i) = SessionContextClosed \<longleftrightarrow> sc_closeOnce (n_ctx w ! i)"
    "sc_closeOnce (n_ctx w ! i) \<Longrightarrow> Session_closed (n_sess w ! i)"
  using assms by (auto simp: net_ok_def ctx_ok_def)

lemma quiet_refl [simp]: "net_ok w \<Longrightarrow> quiet w w"
  by (simp add: quiet_def)

lemma quiet_trans: "quiet u v \<Longrightarrow> quiet v w \<Longrightarrow> quiet u w"
  by (auto simp: quiet_def)

text \<open>Changes that no part of the invariant looks at.\<close>

lemma net_ok_irrelevant [simp]:
  "net_ok (w\<lparr>n_log := l\<rparr>) = net_ok w" "net_ok (w\<lparr>n_uuids := k\<rparr>) = net_ok w" "net_ok (w\<lparr>n_reads := k\<rparr>) = net_ok w"
  "net_ok (w\<lparr>n_go := gs\<rparr>) = net_ok w"
  by (simp_all add: net_ok_def ctx_ok_def)

lemma calmI:
  assumes "\<And>w. net_ok w \<Longrightarrow> i < length (n_ctx w) \<Longrightarrow> is_Tcp (n_sess w ! i) = b \<Longrightarrow> \<exists>r w'. m w = (Ret r, w') \<and> quiet w w'"
  shows "calm b i m"
  using assms by (simp add: calm_def)

lemma calmE:
  assumes "calm b i m" and "net_ok w" and "i < length (n_ctx w)" and "is_Tcp (n_sess w ! i) = b"
  obtains r w' where "m w = (Ret r, w')" and "quiet w w'"
  using assms unfolding calm_def by blast

lemma calm_bind [calm_rules]:
  assumes "calm b i m" and "\<And>x. calm b i (f x)"
  shows "calm b i (bindG m f)"
proof (rule calmI)
  fix w :: "'a net"
  assume w: "net_ok w" "i < length (n_ctx w)" "is_Tcp (n_sess w ! i) = b"
  from assms(1) w obtain x w' where 1: "m w = (Ret x, w')" "quiet w w'" by (rule calmE)
  then have "net_ok w'" "i < length (n_ctx w')" "is_Tcp (n_sess w' ! i) = b" using w by (auto simp: quiet_def)
  with assms(2) [of x] obtain y w'' where "f x w' = (Ret y, w'')" "quiet w' w''" by (rule calmE)
  with 1 show "\<exists>r w'. bindG m f w = (Ret r, w') \<and> quiet w w'" using quiet_trans [of w w' w''] by auto
qed

lemma calm_then [calm_rules]: "calm b i m \<Longrightarrow> calm b i n \<Longrightarrow> calm b i (thenG m n)"
  unfolding thenG_def by (rule calm_bind)

lemma calm_ret [calm_rules]: "calm b i (ret x)"
  by (rule calmI) simp

lemma calm_get [calm_rules]: "calm b i (getG f)"
  by (rule calmI) simp

lemma calm_log [calm_rules]: "calm b i (log_line key arg)"
  by (rule calmI) (simp add: log_line_def quiet_def)

lemma calm_uuid [calm_rules]: "calm b i uuid_New"
  by (rule calmI) (simp add: uuid_New_def quiet_def)

lemma calm_time [calm_rules]: "calm b i time_Now"
  by (rule calmI) (simp add: time_Now_def quiet_def)

lemma calm_if [calm_rules]: "(c \<Longrightarrow> calm b i m) \<Longrightarrow> (\<not> c \<Longrightarrow> calm b i n) \<Longrightarrow> calm b i (if c then m else n)"
  by simp

lemma calm_deref [calm_rules]: "calm b i (deref_ctx i)"
  by (rule calmI) (simp add: deref_ctx_def)

lemma calm_log_err [calm_rules]: "calm b i (log_err key i err)"
  unfolding log_err_def by (cases err) (auto intro: calm_rules)

text \<open>Replacing a session by a good one with the same identity.\<close>

lemma quiet_set_sess:
  assumes "net_ok w" and "i < length (n_ctx w)" and "Session_ok s" and "Session_ID s = Session_ID (n_sess w ! i)"
    and "is_Tcp s = is_Tcp (n_sess w ! i)" and "Session_closed (n_sess w ! i) \<Longrightarrow> Session_closed s"
  shows "quiet w (w\<lparr>n_sess := (n_sess w)[i := s]\<rparr>)"
  using assms by (auto simp: quiet_def net_ok_def ctx_ok_def nth_list_update)

lemma calm_on_sess:
  assumes "\<And>s. Session_ok s \<Longrightarrow> is_Tcp s = b \<Longrightarrow> \<exists>r s'. m s = (Ret r, s') \<and> Session_ok s' \<and>
    (Session_closed s \<longrightarrow> Session_closed s') \<and> Session_ID s' = Session_ID s \<and> is_Tcp s' = is_Tcp s"
  shows "calm b i (on_sess i m)"
proof (rule calmI)
  fix w :: "'a net"
  assume w: "net_ok w" "i < length (n_ctx w)" "is_Tcp (n_sess w ! i) = b"
  with assms [of "n_sess w ! i"] net_okD [OF w(1,2)] obtain r s' where s':
    "m (n_sess w ! i) = (Ret r, s')" "Session_ok s'" "Session_closed (n_sess w ! i) \<longrightarrow> Session_closed s'"
    "Session_ID s' = Session_ID (n_sess w ! i)" "is_Tcp s' = is_Tcp (n_sess w ! i)" by blast
  then have "quiet w (w\<lparr>n_sess := (n_sess w)[i := s']\<rparr>)" using w by (intro quiet_set_sess) simp_all
  then show "\<exists>r w'. on_sess i m w = (Ret r, w') \<and> quiet w w'"
    using s'(1) net_okD(1) [OF w(1,2)] by (simp add: on_sess_def)
qed

lemma send_is_Tcp: "is_Tcp (snd (Session_SendEnvelope lib e s)) = is_Tcp s"
  by (cases s) (simp_all add: Session_SendEnvelope_def is_Tcp_def)

lemma close_is_Tcp: "is_Tcp (snd (Session_Close lib s)) = is_Tcp s"
  by (cases s) (simp_all add: Session_Close_def is_Tcp_def)

lemma calm_sess_send [calm_rules]: "calm b i (on_sess i (Session_SendEnvelope lib e))"
proof (rule calm_on_sess)
  fix s :: "'a Session"
  assume "Session_ok s"
  from any_obj.send_keeps [OF this, of lib e] send_is_Tcp [of lib e s]
  show "\<exists>r s'. Session_SendEnvelope lib e s = (Ret r, s') \<and> Session_ok s' \<and>
      (Session_closed s \<longrightarrow> Session_closed s') \<and> Session_ID s' = Session_ID s \<and> is_Tcp s' = is_Tcp s" by auto
qed

lemma calm_sess_close [calm_rules]: "calm b i (on_sess i (Session_Close lib))"
proof (rule calm_on_sess)
  fix s :: "'a Session"
  assume "Session_ok s"
  from any_obj.close_closes [OF this, of lib] close_is_Tcp [of lib s]
  show "\<exists>r s'. Session_Close lib s = (Ret r, s') \<and> Session_ok s' \<and>
      (Session_closed s \<longrightarrow> Session_closed s') \<and> Session_ID s' = Session_ID s \<and> is_Tcp s' = is_Tcp s" by auto
qed

lemma deref_ok: "i < length (n_ctx w) \<Longrightarrow> deref_ctx i w = (Ret (n_ctx w ! i), w)"
  by (simp add: deref_ctx_def)

lemma calm_Send [calm_rules]: "calm b i (SessionContext_Send lib i e)"
proof (rule calmI)
  fix w :: "'a net"
  assume w: "net_ok w" "i < length (n_ctx w)" "is_Tcp (n_sess w ! i) = b"
  have c: "calm b i (on_sess i (Session_SendEnvelope lib e))" by (rule calm_sess_send)
  from calmE [OF c w] obtain r w' where "on_sess i (Session_SendEnvelope lib e) w = (Ret r, w')" "quiet w w'" .
  then show "\<exists>r w'. SessionContext_Send lib i e w = (Ret r, w') \<and> quiet w w'"
    using w net_okD(3) [OF w(1,2)] by (simp add: SessionContext_Send_def deref_ok)
qed

lemma calm_ping [calm_rules]: "calm b i (ping_handler lib i msg)"
  unfolding ping_handler_def by (intro calm_rules)

lemma calm_welcome [calm_rules]: "calm b i (send_welcome lib i)"
  unfolding send_welcome_def by (intro calm_rules)

lemma calm_OnEnvelope [calm_rules]: "calm b i (OnEnvelope lib i msg)"
proof -
  have "calm b i (case h of Some f \<Rightarrow> run_handler lib f i msg | None \<Rightarrow> log_line ''no handler for message type'' (e_Type msg))" for h
    by (cases h) (auto simp: run_handler_def intro: calm_rules split: HandlerFunc.split)
  then show ?thesis unfolding OnEnvelope_def dispatcher_Dispatch_def by (intro calm_rules)
qed

subsection \<open>Opening and closing\<close>

definition removed :: "string \<Rightarrow> SessionManager \<Rightarrow> SessionManager" where
  "removed u sm = sm\<lparr>sm_Map := Delete u (sm_Map sm), sm_count := sm_count sm - 1\<rparr>"

definition closed_ctx :: "SessionContext \<Rightarrow> SessionContext" where
  "closed_ctx sc = sc\<lparr>sc_closeOnce := True, sc_closed := SessionContextClosed\<rparr>"

lemma closed_ctx_id: "sc_closeOnce sc \<Longrightarrow> sc_closed sc = SessionContextClosed \<Longrightarrow> closed_ctx sc = sc"
  by (cases sc) (simp add: closed_ctx_def)

lemma SessionContext_Close_spec:
  assumes "net_ok w" and "i < length (n_ctx w)"
  shows "\<exists>r s. SessionContext_Close lib i w = (Ret r, w\<lparr>n_ctx := (n_ctx w)[i := closed_ctx (n_ctx w ! i)], n_sess := (n_sess w)[i := s]\<rparr>) \<and>
    Session_ok s \<and> Session_closed s \<and> Session_ID s = Session_ID (n_sess w ! i) \<and> is_Tcp s = is_Tcp (n_sess w ! i) \<and>
    s = snd (Session_Close lib (n_sess w ! i))"
proof (cases "sc_closeOnce (n_ctx w ! i)")
  case True
  with assms net_okD [OF assms] closed_ctx_id [of "n_ctx w ! i"] any_obj.close_again [of "n_sess w ! i" lib] show ?thesis
    by (intro exI [of _ None] exI [of _ "n_sess w ! i"]) (simp add: SessionContext_Close_def deref_ok list_update_id)
next
  case False
  note ok = net_okD [OF assms]
  from any_obj.close_closes [OF ok(2), of lib] close_is_Tcp [of lib "n_sess w ! i"] obtain r s where
    s: "Session_Close lib (n_sess w ! i) = (Ret r, s)" "Session_ok s" "Session_closed s"
      "Session_ID s = Session_ID (n_sess w ! i)" "is_Tcp s = is_Tcp (n_sess w ! i)" by auto
  with False assms ok(1,3) show ?thesis
    by (intro exI [of _ r] exI [of _ s])
      (simp add: SessionContext_Close_def deref_ok set_ctx_def on_sess_def closed_ctx_def thenG_app)
qed

lemma OnSessionClose_spec:
  assumes "net_ok w" and "i < length (n_ctx w)"
  shows "\<exists>s w'. OnSessionClose lib i w = (Ret (), w') \<and>
    w' = w\<lparr>n_ctx := (n_ctx w)[i := closed_ctx (n_ctx w ! i)], n_sess := (n_sess w)[i := s],
           n_gw := (n_gw w)\<lparr>g_sessionManager := removed (sc_Id (n_ctx w ! i)) (manager w)\<rparr>\<rparr> \<and>
    net_ok w' \<and> Session_closed s \<and> is_Tcp s = is_Tcp (n_sess w ! i) \<and> s = snd (Session_Close lib (n_sess w ! i))"
proof -
  from SessionContext_Close_spec [OF assms, of lib] obtain r s where
    s: "SessionContext_Close lib i w = (Ret r, w\<lparr>n_ctx := (n_ctx w)[i := closed_ctx (n_ctx w ! i)], n_sess := (n_sess w)[i := s]\<rparr>)"
      "Session_ok s" "Session_closed s" "Session_ID s = Session_ID (n_sess w ! i)" "is_Tcp s = is_Tcp (n_sess w ! i)"
      "s = snd (Session_Close lib (n_sess w ! i))"
    by blast
  let ?w = "w\<lparr>n_ctx := (n_ctx w)[i := closed_ctx (n_ctx w ! i)], n_sess := (n_sess w)[i := s],
     n_gw := (n_gw w)\<lparr>g_sessionManager := removed (sc_Id (n_ctx w ! i)) (manager w)\<rparr>\<rparr>"
  have "OnSessionClose lib i w = (Ret (), ?w)"
    using assms s(1) by (simp add: OnSessionClose_def deref_ok deferG_def thenG_app SessionManager_Remove_def upd_sm_def removed_def)
  moreover have "net_ok ?w"
    using assms s(1-5) by (auto simp: net_ok_def ctx_ok_def nth_list_update closed_ctx_def removed_def syncmap.ok_delete)
  ultimately show ?thesis using s(3,5,6) by blast
qed

end
