(* ===== verification/Tcp_System.thy ===== *)
theory Tcp_System
  imports Tcp_Transport Gateway_Lemmas
begin

section \<open>The TCP server as a system of interleaved goroutines\<close>

text \<open>
  A state is the server's world, the goroutines of every accepted connection, whether the context
  has been cancelled and whether any goroutine has panicked. A step is one turn of one goroutine,
  an accepted connection, bytes or an end of stream from a peer, or the cancellation. The order of
  steps is arbitrary, so a reachable state is what some schedule of the goroutines leads to.
\<close>

datatype reader_state = Reading | Leaving | ReaderGone
datatype watcher_state = Watching | SawCtx | SawClosed

record conn_run =
  r_sess :: nat
  r_ctx :: nat
  r_reader :: reader_state
  r_watcher :: watcher_state
  r_heart :: bool

record 'c server =
  sv_net :: "'c net"
  sv_runs :: "conn_run list"
  sv_ctxDone :: bool
  sv_panicked :: bool

definition is_panic :: "'a outcome \<Rightarrow> bool" where
  "is_panic r = (case r of Ret _ \<Rightarrow> False | Panic _ \<Rightarrow> True)"

definition after :: "'a outcome \<times> 'c net \<Rightarrow> nat \<Rightarrow> conn_run \<Rightarrow> 'c server \<Rightarrow> 'c server" where
  "after rw i run S = S\<lparr>sv_net := snd rw, sv_runs := (sv_runs S)[i := run],
     sv_panicked := sv_panicked S \<or> is_panic (fst rw)\<rparr>"

text \<open>What the peer does to a connection that is open at this end.\<close>

definition deliver :: "nat \<Rightarrow> string \<Rightarrow> io_err \<Rightarrow> 'c net \<Rightarrow> 'c net" where
  "deliver s bytes e w = (case n_sess w ! s of
     TcpSession t \<Rightarrow>
       if nc_closed (ts_conn t) then w
       else w\<lparr>n_sess := (n_sess w)[s := TcpSession (t\<lparr>ts_conn := (ts_conn t)\<lparr>nc_stream :=
         (nc_stream (ts_conn t))\<lparr>cn_in := cn_in (nc_stream (ts_conn t)) @ bytes, cn_end := e\<rparr>\<rparr>\<rparr>)]\<rparr>
   | WsSession _ \<Rightarrow> w)"

inductive tcp_step :: "'c libs \<Rightarrow> Options \<Rightarrow> 'c server \<Rightarrow> 'c server \<Rightarrow> bool" for lib opt where
  accept:
    "\<lbrakk>\<not> nc_closed c; handleConnection_open lib opt c (sv_net S) = (r, w);
      run = (case r of Ret (s, sc) \<Rightarrow> [\<lparr>r_sess = s, r_ctx = sc, r_reader = Reading, r_watcher = Watching,
        r_heart = heartbeat_enabled opt\<rparr>] | Panic _ \<Rightarrow> [])\<rbrakk>
     \<Longrightarrow> tcp_step lib opt S (S\<lparr>sv_net := w, sv_runs := sv_runs S @ run, sv_panicked := sv_panicked S \<or> is_panic r\<rparr>)"
| peer:
    "\<lbrakk>i < length (sv_runs S)\<rbrakk>
     \<Longrightarrow> tcp_step lib opt S (S\<lparr>sv_net := deliver (r_sess (sv_runs S ! i)) bytes e (sv_net S)\<rparr>)"
| read:
    "\<lbrakk>i < length (sv_runs S); run = sv_runs S ! i; r_reader run = Reading;
      readLoop_turn lib (r_sess run) (r_ctx run) opt (sv_net S) = (r, w)\<rbrakk>
     \<Longrightarrow> tcp_step lib opt S (after (r, w) i (run\<lparr>r_reader := (if r = Ret Again then Reading else Leaving)\<rparr>) S)"
| leave:
    "\<lbrakk>i < length (sv_runs S); run = sv_runs S ! i; r_reader run = Leaving;
      readLoop_exit lib (r_sess run) (r_ctx run) (sv_net S) = (r, w)\<rbrakk>
     \<Longrightarrow> tcp_step lib opt S (after (r, w) i (run\<lparr>r_reader := ReaderGone\<rparr>) S)"
| watch_ctx:
    "\<lbrakk>i < length (sv_runs S); run = sv_runs S ! i; r_watcher run = Watching; sv_ctxDone S;
      lifecycle_ctxDone (r_sess run) (sv_net S) = (r, w)\<rbrakk>
     \<Longrightarrow> tcp_step lib opt S (after (r, w) i (run\<lparr>r_watcher := SawCtx\<rparr>) S)"
| watch_closed:
    "\<lbrakk>i < length (sv_runs S); run = sv_runs S ! i; r_watcher run = Watching;
      ch_closed (Session_closeChan (n_sess (sv_net S) ! r_sess run));
      lifecycle_closed lib (r_ctx run) (sv_net S) = (r, w)\<rbrakk>
     \<Longrightarrow> tcp_step lib opt S (after (r, w) i (run\<lparr>r_watcher := SawClosed\<rparr>) S)"
| tick:
    "\<lbrakk>i < length (sv_runs S); run = sv_runs S ! i; r_heart run;
      heartbeat_tick opt (r_sess run) (sv_net S) = (r, w)\<rbrakk>
     \<Longrightarrow> tcp_step lib opt S (after (r, w) i (run\<lparr>r_heart := (r = Ret Again)\<rparr>) S)"
| cancel:
    "tcp_step lib opt S (S\<lparr>sv_ctxDone := True\<rparr>)"

definition new_server :: "(nat \<Rightarrow> string) \<Rightarrow> (nat \<Rightarrow> Time) \<Rightarrow> 'c server" where
  "new_server u clk = \<lparr>sv_net = new_net u clk, sv_runs = [], sv_ctxDone = False, sv_panicked = False\<rparr>"

text \<open>
  The options a started server runs with: \<open>Start\<close> replaces a frame size that is not positive,
  and the protocol manager is set; \<open>uuid.New\<close> gives different identifiers.
\<close>

definition tcp_opt_ok :: "Options \<Rightarrow> bool" where
  "tcp_opt_ok opt \<longleftrightarrow> 0 < o_MaxFrameSize opt \<and> GetTCPProtocolManager opt \<noteq> None"

definition tcp_start_state :: "'c server \<Rightarrow> bool" where
  "tcp_start_state S \<longleftrightarrow> (\<exists>u clk. inj u \<and> S = new_server u clk)"

interpretation tcp: event_system tcp_start_state "tcp_step lib opt" for lib opt .

subsection \<open>The turns of the goroutines are calm\<close>

lemma get_tcp_run:
  assumes "net_ok w" and "i < length (n_ctx w)" and "is_Tcp (n_sess w ! i)"
  obtains t where "n_sess w ! i = TcpSession t" and "get_tcp i w = (Ret t, w)" and "tcp_ok t" and "b_id (ts_base t) = Session_ID (n_sess w ! i)"
proof -
  from assms(3) obtain t where t: "n_sess w ! i = TcpSession t" by (cases "n_sess w ! i") (simp_all add: is_Tcp_def)
  with assms net_okD [OF assms(1,2)] show thesis
    by (intro that [of t]) (simp_all add: get_tcp_def deref_sess_def session_defs)
qed

lemma quiet_put:
  assumes "net_ok w" and "i < length (n_ctx w)" and "n_sess w ! i = TcpSession t" and "tcp_ok t'"
    and "b_id (ts_base t') = b_id (ts_base t)" and "b_closeOnce (ts_base t) \<Longrightarrow> b_closeOnce (ts_base t')"
  shows "\<exists>w'. put_tcp i t' w = (Ret (), w') \<and> quiet w w' \<and> n_sess w' ! i = TcpSession t'"
proof -
  have "quiet w (w\<lparr>n_sess := (n_sess w)[i := TcpSession t']\<rparr>)"
    using assms by (intro quiet_set_sess) (simp_all add: session_defs is_Tcp_def)
  then show ?thesis using net_okD(1) [OF assms(1,2)] by (simp add: put_tcp_def set_sess_def)
qed

text \<open>Reading the session, then writing a good version of it back, with a calm rest.\<close>

lemma calm_get_put:
  assumes "\<And>t. tcp_ok t \<Longrightarrow> tcp_ok (f t) \<and> b_id (ts_base (f t)) = b_id (ts_base t) \<and> (b_closeOnce (ts_base t) \<longrightarrow> b_closeOnce (ts_base (f t)))"
    and "\<And>t. tcp_ok t \<Longrightarrow> calm True i (g t)"
  shows "calm True i (bindG (get_tcp i) (\<lambda>t. thenG (put_tcp i (f t)) (g t)))"
proof (rule calmI)
  fix w :: "'a net"
  assume w: "net_ok w" "i < length (n_ctx w)" "is_Tcp (n_sess w ! i) = True"
  then obtain t where t: "n_sess w ! i = TcpSession t" "get_tcp i w = (Ret t, w)" "tcp_ok t"
    by (auto elim: get_tcp_run)
  from quiet_put [OF w(1,2) t(1)] assms(1) [OF t(3)] obtain w' where
    w': "put_tcp i (f t) w = (Ret (), w')" "quiet w w'" "n_sess w' ! i = TcpSession (f t)" by blast
  then have "net_ok w'" "i < length (n_ctx w')" "is_Tcp (n_sess w' ! i) = True" using w by (auto simp: quiet_def is_Tcp_def)
  with assms(2) [OF t(3)] obtain r w'' where "g t w' = (Ret r, w'')" "quiet w' w''" by (rule calmE)
  with w' t show "\<exists>r w'. bindG (get_tcp i) (\<lambda>t. thenG (put_tcp i (f t)) (g t)) w = (Ret r, w') \<and> quiet w w'"
    using quiet_trans [of w w' w''] by auto
qed

lemma tcp_Close_alt:
  "tcp_Close i = bindG (get_tcp i) (\<lambda>t. thenG (put_tcp i (snd (tcpSession_Close t)))
     (case fst (tcpSession_Close t) of Ret e \<Rightarrow> ret e | Panic p \<Rightarrow> panicG p))"
  by (simp add: tcp_Close_def case_prod_beta)

lemma calm_tcp_Close [calm_rules]: "calm True i (tcp_Close i)"
  unfolding tcp_Close_alt
proof (rule calm_get_put)
  fix t assume "tcp_ok t"
  from tcp_obj.close_closes [OF this] obtain r t' where c: "tcpSession_Close t = (Ret r, t')" "tcp_ok t'"
    "b_closeOnce (ts_base t')" "b_id (ts_base t') = b_id (ts_base t)" by blast
  then show "tcp_ok (snd (tcpSession_Close t)) \<and> b_id (ts_base (snd (tcpSession_Close t))) = b_id (ts_base t) \<and>
      (b_closeOnce (ts_base t) \<longrightarrow> b_closeOnce (ts_base (snd (tcpSession_Close t))))" by simp
  show "calm True i (case fst (tcpSession_Close t) of Ret e \<Rightarrow> ret e | Panic p \<Rightarrow> panicG p)"
    using c by (simp add: calm_ret)
qed

text \<open>Reading from a closed connection fails and changes nothing.\<close>

lemma ReadFrame_ended:
  assumes "cn_in c = []"
  shows "ReadFrame fc (Some c) = (Inl (FrameIO (cn_end c)), fc, Some c)"
  using assms by (cases c) (simp add: ReadFrame_def readFrameInternal_def io_ReadFull_def)

lemma tcp_ReadFrame_closed:
  assumes "tcp_ok t" and "b_closeOnce (ts_base t)"
  shows "tcp_ReadFrame now t = (Inl (FrameIO (ConnError closed_text)), t)"
  using assms by (simp add: tcp_ReadFrame_def tcp_ok_def ReadFrame_ended)

lemma tcp_ReadFrame_ok:
  assumes "tcp_ok t"
  shows "tcp_ok (snd (tcp_ReadFrame now t))" "ts_base (snd (tcp_ReadFrame now t)) = ts_base t"
    "ts_protocolManager (snd (tcp_ReadFrame now t)) = ts_protocolManager t"
proof -
  have "tcp_ok (snd (tcp_ReadFrame now t)) \<and> ts_base (snd (tcp_ReadFrame now t)) = ts_base t \<and>
      ts_protocolManager (snd (tcp_ReadFrame now t)) = ts_protocolManager t"
  proof (cases "b_closeOnce (ts_base t)")
    case True
    then show ?thesis using assms by (simp add: tcp_ReadFrame_closed)
  next
    case False
    with assms have "\<not> nc_closed (ts_conn t)" by (simp add: tcp_ok_def)
    with assms show ?thesis by (auto simp: tcp_ReadFrame_def Let_def tcp_ok_def split: prod.split option.split)
  qed
  then show "tcp_ok (snd (tcp_ReadFrame now t))" "ts_base (snd (tcp_ReadFrame now t)) = ts_base t"
    "ts_protocolManager (snd (tcp_ReadFrame now t)) = ts_protocolManager t" by simp_all
qed

lemma upd_tcp_alt: "upd_tcp i f = bindG (get_tcp i) (\<lambda>t. thenG (put_tcp i (f t)) (ret ()))"
  by (simp add: upd_tcp_def thenG_def bindG_def put_tcp_def set_sess_def modifyG_def)

lemma calm_upd_tcp:
  assumes "\<And>t. tcp_ok t \<Longrightarrow> tcp_ok (f t) \<and> ts_base (f t) = ts_base t"
  shows "calm True i (upd_tcp i f)"
  unfolding upd_tcp_alt using assms by (auto intro!: calm_get_put calm_ret)

lemma calm_set_deadline [calm_rules]: "calm True i (upd_tcp i (\<lambda>t. t\<lparr>ts_conn := net_SetReadDeadline d (ts_conn t)\<rparr>))"
  by (rule calm_upd_tcp) (auto simp: tcp_ok_def net_SetReadDeadline_def)

lemma calm_set_active [calm_rules]: "calm True i (upd_tcp i (\<lambda>t. t\<lparr>ts_lastActive := now\<rparr>))"
  by (rule calm_upd_tcp) (auto simp: tcp_ok_def)

lemma Decode_returns: "0 < m \<Longrightarrow> \<exists>err e'. Manager_DecodeMessage pl pm d e m = Ret (err, e')"
  by (cases "JSONCodec_Decode d e m")
    (auto simp: Manager_DecodeMessage_def Codec_Decode_def ProtobufCodec_Decode_def Manager_GetCodec_def
      split: option.split MessageCodec.split)

lemma calm_frame [calm_rules]:
  assumes "tcp_opt_ok opt" and "tcp_ok t"
  shows "calm True i (readLoop_frame lib i i opt t d)"
proof -
  from assms(2) obtain pm where pm: "ts_protocolManager t = Some pm" by (auto simp: tcp_ok_def)
  obtain err e' where "Manager_DecodeMessage (lib_proto lib) pm d zero_Envelope (o_MaxFrameSize opt) = Ret (err, e')"
    using Decode_returns [of "o_MaxFrameSize opt" "lib_proto lib" pm d zero_Envelope] assms(1) by (auto simp: tcp_opt_ok_def)
  with pm show ?thesis by (cases err) (auto simp: readLoop_frame_def intro!: calm_rules)
qed

lemma calm_turn [calm_rules]:
  assumes "tcp_opt_ok opt"
  shows "calm True i (readLoop_turn lib i i opt)"
  unfolding readLoop_turn_def case_prod_beta
proof (rule calm_then)
  show "calm True i (if 0 <s o_ReadTimeout opt
      then bindG time_Now (\<lambda>now. upd_tcp i (\<lambda>t. t\<lparr>ts_conn := net_SetReadDeadline (read_deadline opt now) (ts_conn t)\<rparr>))
      else ret ())" by (intro calm_rules)
  show "calm True i (bindG time_Now (\<lambda>now. bindG (get_tcp i) (\<lambda>t. thenG (put_tcp i (snd (tcp_ReadFrame now t)))
     (case fst (tcp_ReadFrame now t) of
        Inl err \<Rightarrow> readLoop_error (snd (tcp_ReadFrame now t)) err
      | Inr frameData \<Rightarrow> readLoop_frame lib i i opt (snd (tcp_ReadFrame now t)) frameData))))"
    using assms tcp_ReadFrame_ok
    by (intro calm_bind [OF calm_time] calm_get_put) (auto simp: readLoop_error_def intro!: calm_rules split: sum.split)
qed

lemma calm_tick [calm_rules]: "calm True i (heartbeat_tick opt i)"
proof (rule calmI)
  fix w :: "'a net"
  assume w: "net_ok w" "i < length (n_ctx w)" "is_Tcp (n_sess w ! i) = True"
  then obtain t where t: "get_tcp i w = (Ret t, w)" by (auto elim: get_tcp_run)
  have "calm True i (bindG time_Now (\<lambda>now. if sint (o_HeartbeatTimeout opt) < now - ts_lastActive t
     then thenG (log_line ''tcp_heartbeat_timeout'' (Base_ID (ts_base t))) (thenG (tcp_Close i) (ret Done))
     else ret Again))" by (intro calm_rules)
  from calmE [OF this w] obtain r w' where "heartbeat_tick opt i w = (Ret r, w')" "quiet w w'"
    unfolding heartbeat_tick_def by (auto simp: bindG_Ret [where m = "get_tcp i" and w = w, OF t])
  then show "\<exists>r w'. heartbeat_tick opt i w = (Ret r, w') \<and> quiet w w'" by blast
qed

lemma calm_ctxDone [calm_rules]: "calm True i (lifecycle_ctxDone i)"
  unfolding lifecycle_ctxDone_def by (intro calm_rules)

lemma quiet_deliver:
  assumes "net_ok w" and "i < length (n_ctx w)"
  shows "quiet w (deliver i bytes e w)"
proof (cases "n_sess w ! i")
  case (TcpSession t)
  then have "tcp_ok t" using net_okD(2) [OF assms] by (simp add: Session_ok_def)
  with TcpSession assms show ?thesis
    by (auto simp: deliver_def session_defs is_Tcp_def tcp_ok_def intro!: quiet_set_sess)
qed (simp add: deliver_def assms)

subsection \<open>Instances to evaluate on\<close>

text \<open>Libraries, options, a connection, identifiers and a clock.\<close>

definition demo_ws :: "unit ws_lib" where
  "demo_ws = \<lparr>ws_RemoteAddr = (\<lambda>_. ''ws-peer''), ws_WriteMessage = (\<lambda>_ _ c. (None, c)),
     ws_ReadMessage = (\<lambda>c. (Inl EOF, c)), ws_WriteControl = (\<lambda>_ _ _ c. (None, c)),
     ws_SetReadDeadline = (\<lambda>_ c. (None, c)), ws_Close = (\<lambda>c. (None, c))\<rparr>"

definition demo_libs :: "unit libs" where
  "demo_libs = \<lparr>lib_proto = demo_proto, lib_ws = demo_ws\<rparr>"

definition demo_opt :: Options where
  "demo_opt = \<lparr>o_OutBuffer = 256, o_ReadTimeout = 0, o_WriteTimeout = 0, o_HeartbeatInterval = 30000000000,
     o_HeartbeatTimeout = 60000000000, o_MaxFrameSize = 1048576,
     o_TCPProtocolManager = Some (NewProtocolManager CodecJson), o_WSProtocolManager = None\<rparr>"

definition demo_conn :: "string \<Rightarrow> net_conn" where
  "demo_conn s = \<lparr>nc_stream = wire_conn s, nc_remote = ''peer'', nc_closed = False, nc_closeErr = None, nc_deadline = None\<rparr>"

definition demo_uuid :: "nat \<Rightarrow> string" where
  "demo_uuid n = replicate n CHR ''u''"

text \<open>A clock that jumps ahead by two minutes at the third reading.\<close>

definition demo_clock :: "nat \<Rightarrow> Time" where
  "demo_clock n = 63000000000000000000 + int n + (if n < 2 then 0 else 120000000000)"

definition demo_net :: "unit net" where
  "demo_net = new_net demo_uuid demo_clock"

lemma demo_opt_ok: "tcp_opt_ok demo_opt"
  by (simp add: tcp_opt_ok_def demo_opt_def GetTCPProtocolManager_def)

lemma demo_net_ok: "net_ok demo_net"
  by (simp add: demo_net_def new_net_def NewSimpleGateway_def NewSessionManager_def net_ok_def syncmap_ok_def)

end
