(* ===== verification/Tcp_Invariants.thy ===== *)
theory Tcp_Invariants
  imports Tcp_System
begin

section \<open>What every schedule of the TCP server keeps\<close>

text \<open>
  The accounting of the session manager under all interleavings. Every connection is added once.
  It is removed by its reader when that leaves, and again by its lifecycle watcher when that sees
  the closed channel; the manager's map forgets the session at the first removal, but the counter
  goes down at both.
\<close>

subsection \<open>A new connection\<close>

definition opened :: "nat \<Rightarrow> 'c net \<Rightarrow> 'c net" where
  "opened i w = snd (register_ping (w\<lparr>n_log := n_log w @ [(''OnSessionOpen'', sc_Id (n_ctx w ! i))],
     n_gw := (n_gw w)\<lparr>g_sessionManager := (manager w)\<lparr>sm_Map := Store (sc_Id (n_ctx w ! i)) i (sm_Map (manager w)),
       sm_count := sm_count (manager w) + 1\<rparr>\<rparr>\<rparr>))"

lemma opened_simps [simp]:
  "manager (opened i w) = (manager w)\<lparr>sm_Map := Store (sc_Id (n_ctx w ! i)) i (sm_Map (manager w)), sm_count := sm_count (manager w) + 1\<rparr>"
  "n_sess (opened i w) = n_sess w" "n_ctx (opened i w) = n_ctx w"
  "n_uuid (opened i w) = n_uuid w" "n_uuids (opened i w) = n_uuids w"
  "n_clock (opened i w) = n_clock w" "n_reads (opened i w) = n_reads w" "n_go (opened i w) = n_go w"
  by (simp_all add: opened_def register_ping_def)

lemma open_prefix:
  "i < length (n_ctx w) \<Longrightarrow> thenG (log_line ''OnSessionOpen'' (sc_Id (n_ctx w ! i)))
     (thenG (SessionManager_AddContext (Some i)) (thenG register_ping m)) w = m (opened i w)"
  by (simp add: SessionManager_AddContext_def deref_ctx_def upd_sm_def register_ping_def opened_def)

lemma OnSessionOpen_spec:
  assumes "net_ok w" and "i < length (n_ctx w)" and "is_Tcp (n_sess w ! i) = b"
  shows "\<exists>w'. OnSessionOpen lib i w = (Ret (), w') \<and> net_ok w' \<and> n_ctx w' = n_ctx w \<and>
    manager w' = (manager w)\<lparr>sm_Map := Store (sc_Id (n_ctx w ! i)) i (sm_Map (manager w)), sm_count := sm_count (manager w) + 1\<rparr> \<and>
    n_uuid w' = n_uuid w \<and> n_uuids w \<le> n_uuids w' \<and> n_go w' = n_go w \<and>
    (\<forall>j < length (n_ctx w). is_Tcp (n_sess w' ! j) = is_Tcp (n_sess w ! j) \<and>
       (Session_closed (n_sess w ! j) \<longrightarrow> Session_closed (n_sess w' ! j)))"
proof -
  have "net_ok (opened i w)" using assms(1) by (simp add: net_ok_def ctx_ok_def syncmap.ok_store)
  moreover have "i < length (n_ctx (opened i w))" "is_Tcp (n_sess (opened i w) ! i) = b" using assms(2,3) by simp_all
  ultimately obtain r w' where w': "send_welcome lib i (opened i w) = (Ret r, w')" "quiet (opened i w) w'"
    using calmE [OF calm_welcome] by blast
  then have "OnSessionOpen lib i w = (Ret (), w')"
    unfolding OnSessionOpen_def by (simp add: deref_ok [OF assms(2)] open_prefix [OF assms(2)])
  with w'(2) show ?thesis by (auto simp: quiet_def)
qed

definition alloc :: "Options \<Rightarrow> net_conn \<Rightarrow> 'c net \<Rightarrow> 'c net" where
  "alloc opt c w = w\<lparr>n_uuids := Suc (n_uuids w), n_reads := Suc (n_reads w),
     n_sess := n_sess w @ [TcpSession (newTcpSession (n_uuid w (n_uuids w)) c (GetTCPProtocolManager opt) (n_clock w (n_reads w)))],
     n_ctx := n_ctx w @ [\<lparr>sc_Id = n_uuid w (n_uuids w), sc_RemoteAddr = nc_remote c, sc_sess = length (n_ctx w),
       sc_closed = SessionContextUnClosed, sc_closeOnce = False\<rparr>]\<rparr>"

lemma allocated:
  assumes "net_ok w" and "\<not> nc_closed c" and "GetTCPProtocolManager opt \<noteq> None"
  shows "net_ok (alloc opt c w)"
    "handleConnection_open lib opt c w = thenG (OnSessionOpen lib (length (n_ctx w))) (ret (length (n_ctx w), length (n_ctx w))) (alloc opt c w)"
proof -
  have len: "length (n_sess w) = length (n_ctx w)" using assms(1) by (simp add: net_ok_def)
  show "handleConnection_open lib opt c w = thenG (OnSessionOpen lib (length (n_ctx w))) (ret (length (n_ctx w), length (n_ctx w))) (alloc opt c w)"
    by (simp add: handleConnection_open_def NewSessionContext_app len alloc_def
        nth_append session_defs Session_RemoteAddr_def newTcpSession_def)
  have "ctx_ok (alloc opt c w) j" if "j < Suc (length (n_ctx w))" for j
  proof (cases "j < length (n_ctx w)")
    case True
    then show ?thesis using assms(1) len by (simp add: net_ok_def ctx_ok_def nth_append alloc_def)
  next
    case False
    with that have "j = length (n_ctx w)" by simp
    then show ?thesis using assms(2,3) len
      by (simp add: ctx_ok_def nth_append alloc_def session_defs tcp_ok_def newTcpSession_def
          SessionContextUnClosed_def SessionContextClosed_def)
  qed
  then show "net_ok (alloc opt c w)" using assms(1) len by (simp add: net_ok_def alloc_def)
qed

lemma open_spec:
  assumes "net_ok w" and "\<not> nc_closed c" and "GetTCPProtocolManager opt \<noteq> None"
  defines "n \<equiv> length (n_ctx w)"
  shows "\<exists>w' sc. handleConnection_open lib opt c w = (Ret (n, n), w') \<and> net_ok w' \<and> n_ctx w' = n_ctx w @ [sc] \<and>
    sc_Id sc = n_uuid w (n_uuids w) \<and> \<not> sc_closeOnce sc \<and>
    manager w' = (manager w)\<lparr>sm_Map := Store (sc_Id sc) n (sm_Map (manager w)), sm_count := sm_count (manager w) + 1\<rparr> \<and>
    n_uuid w' = n_uuid w \<and> n_uuids w < n_uuids w' \<and> n_go w' = n_go w \<and> is_Tcp (n_sess w' ! n) \<and>
    (\<forall>j < n. is_Tcp (n_sess w' ! j) = is_Tcp (n_sess w ! j) \<and> (Session_closed (n_sess w ! j) \<longrightarrow> Session_closed (n_sess w' ! j)))"
proof -
  let ?w = "alloc opt c w"
  have len: "length (n_sess w) = n" using assms(1) by (simp add: net_ok_def n_def)
  note al = allocated [OF assms(1-3), folded n_def]
  have new: "length (n_ctx ?w) = Suc n" "is_Tcp (n_sess ?w ! n)" "\<And>j. j < n \<Longrightarrow> n_sess ?w ! j = n_sess w ! j"
    using len by (simp_all add: alloc_def n_def is_Tcp_def nth_append)
  from OnSessionOpen_spec [OF al(1), of n True lib] new(1,2) obtain w' where w': "OnSessionOpen lib n ?w = (Ret (), w')" "net_ok w'"
    "n_ctx w' = n_ctx ?w" "manager w' = (manager ?w)\<lparr>sm_Map := Store (sc_Id (n_ctx ?w ! n)) n (sm_Map (manager ?w)), sm_count := sm_count (manager ?w) + 1\<rparr>"
    "n_uuid w' = n_uuid ?w" "n_uuids ?w \<le> n_uuids w'"
    "\<And>j. j < Suc n \<Longrightarrow> is_Tcp (n_sess w' ! j) = is_Tcp (n_sess ?w ! j) \<and> (Session_closed (n_sess ?w ! j) \<longrightarrow> Session_closed (n_sess w' ! j))"
    "n_go w' = n_go ?w"
    by auto
  have "is_Tcp (n_sess w' ! n)" using w'(7) [of n] new(2) by simp
  moreover have "is_Tcp (n_sess w' ! j) = is_Tcp (n_sess w ! j) \<and> (Session_closed (n_sess w ! j) \<longrightarrow> Session_closed (n_sess w' ! j))"
    if "j < n" for j using w'(7) [of j] that new(3) by simp
  moreover have "handleConnection_open lib opt c w = (Ret (n, n), w')" using al(2) w'(1) by simp
  ultimately show ?thesis using w' by (intro exI [of _ w'] exI [of _ "n_ctx ?w ! n"]) (simp add: alloc_def n_def nth_append)
qed

subsection \<open>The invariant\<close>

definition removals :: "conn_run \<Rightarrow> nat" where
  "removals run = (if r_reader run = ReaderGone then 1 else 0) + (if r_watcher run = SawClosed then 1 else 0)"

definition balance :: "conn_run list \<Rightarrow> int" where
  "balance runs = sum_list (map (\<lambda>r. 1 - int (removals r)) runs)"

definition run_ok :: "bool \<Rightarrow> 'c net \<Rightarrow> nat \<Rightarrow> conn_run \<Rightarrow> bool" where
  "run_ok b w i run \<longleftrightarrow> r_sess run = i \<and> r_ctx run = i \<and> is_Tcp (n_sess w ! i) = b \<and>
     (0 < removals run \<longrightarrow> sc_closeOnce (n_ctx w ! i)) \<and>
     Load (sm_Map (manager w)) (sc_Id (n_ctx w ! i)) = (if removals run = 0 then Some i else None)"

definition ids_ok :: "'c net \<Rightarrow> bool" where
  "ids_ok w \<longleftrightarrow> inj (n_uuid w) \<and> distinct (map sc_Id (n_ctx w)) \<and>
     (\<forall>i < length (n_ctx w). sc_Id (n_ctx w ! i) \<in> n_uuid w ` {..<n_uuids w}) \<and>
     (\<forall>k v. Load (sm_Map (manager w)) k = Some v \<longrightarrow> v < length (n_ctx w) \<and> sc_Id (n_ctx w ! v) = k)"

text \<open>For the sessions of either transport: \<open>b\<close> says whether they are TCP sessions.\<close>

definition sessions_inv :: "bool \<Rightarrow> 'c server \<Rightarrow> bool" where
  "sessions_inv b S \<longleftrightarrow> net_ok (sv_net S) \<and> ids_ok (sv_net S) \<and> \<not> sv_panicked S \<and>
     length (sv_runs S) = length (n_ctx (sv_net S)) \<and>
     (\<forall>i < length (sv_runs S). run_ok b (sv_net S) i (sv_runs S ! i)) \<and>
     sm_count (manager (sv_net S)) = of_int (balance (sv_runs S))"

abbreviation tcp_inv :: "'c server \<Rightarrow> bool" where
  "tcp_inv \<equiv> sessions_inv True"

lemma balance_update:
  "i < length runs \<Longrightarrow> balance (runs[i := run]) = balance runs + int (removals (runs ! i)) - int (removals run)"
  unfolding balance_def by (induction runs arbitrary: i) (auto split: nat.splits simp: less_Suc_eq_0_disj nth_Cons')

lemma ids_ok_quiet: "quiet w w' \<Longrightarrow> ids_ok w \<Longrightarrow> ids_ok w'"
  by (fastforce simp: ids_ok_def quiet_def)

text \<open>A calm turn of one connection's goroutine.\<close>

lemma inv_quiet:
  assumes "sessions_inv b S" and "quiet (sv_net S) w" and "i < length (sv_runs S)"
    and "r_sess run = i" and "r_ctx run = i" and "removals run = removals (sv_runs S ! i)"
  shows "sessions_inv b (after (Ret x, w) i run S)"
proof -
  have q: "net_ok w" "n_ctx w = n_ctx (sv_net S)" "manager w = manager (sv_net S)"
    "\<And>j. j < length (sv_runs S) \<Longrightarrow> is_Tcp (n_sess w ! j) = is_Tcp (n_sess (sv_net S) ! j)"
    using assms(1,2) by (auto simp: quiet_def sessions_inv_def)
  have "run_ok b w j ((sv_runs S)[i := run] ! j)" if "j < length (sv_runs S)" for j
    using assms(1,3-6) that q by (cases "j = i") (auto simp: sessions_inv_def run_ok_def)
  moreover have "balance ((sv_runs S)[i := run]) = balance (sv_runs S)" using assms(3,6) by (simp add: balance_update)
  ultimately show ?thesis
    using assms(1) q ids_ok_quiet [OF assms(2)] by (simp add: sessions_inv_def after_def is_panic_def)
qed

text \<open>A call of \<open>OnSessionClose\<close> by one of the connection's goroutines.\<close>

lemma inv_remove:
  assumes "sessions_inv b S" and "OnSessionClose lib i (sv_net S) = (r, w)" and "i < length (sv_runs S)"
    and "r_sess run = i" and "r_ctx run = i" and "removals run = Suc (removals (sv_runs S ! i))"
  shows "sessions_inv b (after (Ret x, w) i run S)" "r = Ret ()"
proof -
  let ?w = "sv_net S"
  have inv: "net_ok ?w" "ids_ok ?w" "\<not> sv_panicked S" "length (sv_runs S) = length (n_ctx ?w)"
    "\<And>j. j < length (sv_runs S) \<Longrightarrow> run_ok b ?w j (sv_runs S ! j)" "sm_count (manager ?w) = of_int (balance (sv_runs S))"
    using assms(1) by (auto simp: sessions_inv_def)
  from OnSessionClose_spec [OF inv(1), of i lib] assms(2,3) inv(4) obtain s where
    w: "r = Ret ()" "w = ?w\<lparr>n_ctx := (n_ctx ?w)[i := closed_ctx (n_ctx ?w ! i)], n_sess := (n_sess ?w)[i := s],
           n_gw := (n_gw ?w)\<lparr>g_sessionManager := removed (sc_Id (n_ctx ?w ! i)) (manager ?w)\<rparr>\<rparr>"
    and ok: "net_ok w" "is_Tcp s = is_Tcp (n_sess ?w ! i)" by auto
  then show "r = Ret ()" by simp
  let ?u = "sc_Id (n_ctx ?w ! i)"
  have i: "i < length (n_ctx ?w)" "i < length (n_sess ?w)" using assms(3) inv(1,4) by (auto simp: net_ok_def)
  have ids: "sc_Id (n_ctx w ! j) = sc_Id (n_ctx ?w ! j)" if "j < length (n_ctx ?w)" for j
    using that i by (simp add: w(2) nth_list_update closed_ctx_def)
  have map_ids: "map sc_Id (n_ctx w) = map sc_Id (n_ctx ?w)"
    using i by (intro nth_equalityI) (auto simp: w(2) nth_list_update closed_ctx_def)
  have other: "sc_Id (n_ctx ?w ! j) \<noteq> ?u" if "j < length (n_ctx ?w)" "j \<noteq> i" for j
    using inv(2) that i by (auto simp: ids_ok_def distinct_conv_nth)
  have load: "Load (sm_Map (manager w)) k = (if k = ?u then None else Load (sm_Map (manager ?w)) k)" for k
    using inv(1) by (simp add: w(2) removed_def syncmap.load_delete net_ok_def)
  have "run_ok b w j ((sv_runs S)[i := run] ! j)" if "j < length (sv_runs S)" for j
  proof (cases "j = i")
    case True
    then show ?thesis using assms(3-6) inv(5) [of i] i ok load [of ?u] ids [of i]
      by (simp add: run_ok_def) (simp add: w(2) closed_ctx_def)
  next
    case False
    then show ?thesis using that inv(4) inv(5) [of j] other [of j] load ids [of j]
      by (simp add: run_ok_def) (simp add: w(2))
  qed
  moreover have "ids_ok w"
    using inv(2) load ids map_ids i by (auto simp: ids_ok_def w(2) split: if_splits)
  moreover have "sm_count (manager w) = of_int (balance ((sv_runs S)[i := run]))"
    using inv(6) assms(3,6) by (simp add: w(2) removed_def balance_update)
  ultimately show "sessions_inv b (after (Ret x, w) i run S)"
    using inv ok i by (simp add: sessions_inv_def after_def is_panic_def w(2))
qed

text \<open>A new connection under a new identifier.\<close>

definition new_run :: "nat \<Rightarrow> bool \<Rightarrow> conn_run" where
  "new_run n h = \<lparr>r_sess = n, r_ctx = n, r_reader = Reading, r_watcher = Watching, r_heart = h\<rparr>"

lemma inv_added:
  assumes "sessions_inv b S" and "net_ok w" and "n_ctx w = n_ctx (sv_net S) @ [sc]" and "sc_Id sc = n_uuid (sv_net S) (n_uuids (sv_net S))"
    and m: "manager w = (manager (sv_net S))\<lparr>sm_Map := Store (sc_Id sc) (length (n_ctx (sv_net S))) (sm_Map (manager (sv_net S))),
      sm_count := sm_count (manager (sv_net S)) + 1\<rparr>"
    and u: "n_uuid w = n_uuid (sv_net S)" "n_uuids (sv_net S) < n_uuids w"
    and kind: "is_Tcp (n_sess w ! length (n_ctx (sv_net S))) = b"
      "\<And>j. j < length (n_ctx (sv_net S)) \<Longrightarrow> is_Tcp (n_sess w ! j) = is_Tcp (n_sess (sv_net S) ! j)"
  shows "sessions_inv b (S\<lparr>sv_net := w, sv_runs := sv_runs S @ [new_run (length (n_ctx (sv_net S))) h]\<rparr>)"
proof -
  let ?w = "sv_net S" and ?n = "length (n_ctx (sv_net S))"
  have inv: "net_ok ?w" "ids_ok ?w" "\<not> sv_panicked S" "length (sv_runs S) = ?n"
    "\<And>j. j < ?n \<Longrightarrow> run_ok b ?w j (sv_runs S ! j)" "sm_count (manager ?w) = of_int (balance (sv_runs S))"
    using assms(1) by (auto simp: sessions_inv_def)
  have fresh: "sc_Id (n_ctx ?w ! j) \<noteq> sc_Id sc" if "j < ?n" for j
    using inv(2) that assms(4) by (auto simp: ids_ok_def inj_eq dest!: spec [of _ j])
  have load: "Load (sm_Map (manager w)) k = (if k = sc_Id sc then Some ?n else Load (sm_Map (manager ?w)) k)" for k
    using inv(1) by (simp add: m syncmap.load_store net_ok_def)
  have "run_ok b w j ((sv_runs S @ [new_run ?n h]) ! j)" if "j < Suc ?n" for j
  proof (cases "j < ?n")
    case True
    then show ?thesis using inv(4) inv(5) [of j] fresh [of j] load kind(2) by (simp add: run_ok_def nth_append assms(3))
  next
    case False
    with that have "j = ?n" by simp
    then show ?thesis using load kind(1) inv(4) by (simp add: run_ok_def new_run_def nth_append assms(3) removals_def)
  qed
  moreover have "ids_ok w"
    unfolding ids_ok_def
  proof (intro conjI allI impI)
    show "inj (n_uuid w)" using inv(2) u by (simp add: ids_ok_def)
    show "distinct (map sc_Id (n_ctx w))" using inv(2) fresh by (fastforce simp: ids_ok_def assms(3) in_set_conv_nth)
    show "sc_Id (n_ctx w ! j) \<in> n_uuid w ` {..<n_uuids w}" if "j < length (n_ctx w)" for j
      using inv(2) that u by (cases "j < ?n") (auto simp: ids_ok_def assms(3,4) nth_append less_Suc_eq dest!: spec [of _ j])
    show "v < length (n_ctx w)" "sc_Id (n_ctx w ! v) = k" if "Load (sm_Map (manager w)) k = Some v" for k v
      using inv(2) that load [of k] by (auto simp: ids_ok_def assms(3) nth_append less_Suc_eq split: if_splits)
  qed
  moreover have "sm_count (manager w) = of_int (balance (sv_runs S @ [new_run ?n h]))"
    using inv(6) by (simp add: m balance_def new_run_def removals_def)
  ultimately show ?thesis using inv assms(2,3) by (simp add: sessions_inv_def)
qed

lemma inv_accept:
  assumes "tcp_inv S" and "tcp_opt_ok opt" and "\<not> nc_closed c" and "handleConnection_open lib opt c (sv_net S) = (r, w)"
  defines "n \<equiv> length (sv_runs S)"
  shows "r = Ret (n, n)" and "tcp_inv (S\<lparr>sv_net := w, sv_runs := sv_runs S @ [new_run n h]\<rparr>)"
proof -
  have ok: "net_ok (sv_net S)" "length (n_ctx (sv_net S)) = n" using assms(1) by (auto simp: sessions_inv_def n_def)
  from open_spec [OF ok(1) assms(3), of opt lib] assms(2,4) ok(2) obtain sc where
    sc: "r = Ret (n, n)" "net_ok w" "n_ctx w = n_ctx (sv_net S) @ [sc]" "sc_Id sc = n_uuid (sv_net S) (n_uuids (sv_net S))"
      "manager w = (manager (sv_net S))\<lparr>sm_Map := Store (sc_Id sc) n (sm_Map (manager (sv_net S))), sm_count := sm_count (manager (sv_net S)) + 1\<rparr>"
      "n_uuid w = n_uuid (sv_net S)" "n_uuids (sv_net S) < n_uuids w" "is_Tcp (n_sess w ! n)"
      "\<And>j. j < n \<Longrightarrow> is_Tcp (n_sess w ! j) = is_Tcp (n_sess (sv_net S) ! j)"
    by (auto simp: tcp_opt_ok_def)
  then show "r = Ret (n, n)" by simp
  show "tcp_inv (S\<lparr>sv_net := w, sv_runs := sv_runs S @ [new_run n h]\<rparr>)"
    using inv_added [OF assms(1) sc(2-4), of h] sc(5-9) ok(2) by simp
qed

lemma after_after: "after (Ret x, w') i run (after (Ret y, w) i run S) = after (Ret x, w') i run S"
  by (simp add: after_def is_panic_def)

lemma sessions_invD:
  assumes "sessions_inv b S" and "i < length (sv_runs S)"
  shows "net_ok (sv_net S)" "i < length (n_ctx (sv_net S))" "is_Tcp (n_sess (sv_net S) ! i) = b"
    "r_sess (sv_runs S ! i) = i" "r_ctx (sv_runs S ! i) = i"
  using assms by (auto simp: sessions_inv_def run_ok_def)

lemmas tcp_invD = sessions_invD [where b = True]

text \<open>A calm computation of connection \<open>i\<close> as a step of its goroutine.\<close>

lemma inv_calm:
  assumes "sessions_inv b S" and "i < length (sv_runs S)" and "calm b i m" and "m (sv_net S) = (r, w)"
    and "removals (f r (sv_runs S ! i)) = removals (sv_runs S ! i)"
    and "r_sess (f r (sv_runs S ! i)) = i" and "r_ctx (f r (sv_runs S ! i)) = i"
  shows "sessions_inv b (after (r, w) i (f r (sv_runs S ! i)) S)"
proof -
  note d = sessions_invD [OF assms(1,2)]
  from calmE [OF assms(3) d(1-3)] assms(4) obtain x where "r = Ret x" "quiet (sv_net S) w" by auto
  with inv_quiet [OF assms(1)] assms(2,5-7) show ?thesis by simp
qed

text \<open>The end of a reader: the session is removed, then the session object is closed.\<close>

lemma inv_leave:
  assumes "sessions_inv b S" and "i < length (sv_runs S)" and "r_reader (sv_runs S ! i) = Leaving"
    and "thenG (OnSessionClose lib i) m (sv_net S) = (r, w)" and "calm b i m"
  shows "sessions_inv b (after (r, w) i ((sv_runs S ! i)\<lparr>r_reader := ReaderGone\<rparr>) S)"
proof -
  let ?run = "(sv_runs S ! i)\<lparr>r_reader := ReaderGone\<rparr>"
  obtain r1 w1 where c: "OnSessionClose lib i (sv_net S) = (r1, w1)" by fastforce
  note d = sessions_invD [OF assms(1,2)]
  have rm: "removals ?run = Suc (removals (sv_runs S ! i))" using assms(3) by (simp add: removals_def)
  have 1: "sessions_inv b (after (Ret (), w1) i ?run S)" "r1 = Ret ()"
    using inv_remove [OF assms(1) c assms(2), of ?run] d rm by simp_all
  then have "m w1 = (r, w)" using assms(4) c by (simp add: thenG_app)
  moreover have "net_ok w1" "i < length (n_ctx w1)" "is_Tcp (n_sess w1 ! i) = b"
    using sessions_invD [OF 1(1), of i] assms(2) by (simp_all add: after_def)
  ultimately obtain x where "r = Ret x" "quiet w1 w" using assms(5) by (metis calmE prod.inject)
  with inv_quiet [OF 1(1), of w i ?run x] assms(2) d have "sessions_inv b (after (r, w) i ?run (after (Ret (), w1) i ?run S))"
    by (simp add: after_def)
  then show ?thesis using \<open>r = Ret x\<close> by (simp add: after_after)
qed

lemma tcp_inv_step:
  assumes "tcp_step lib opt S T" and "tcp_inv S" and "tcp_opt_ok opt"
  shows "tcp_inv T"
  using assms(1)
proof (cases rule: tcp_step.cases)
  case (accept c r w run)
  from inv_accept [OF assms(2,3) accept(2,3)] accept assms(2) show ?thesis by (simp add: new_run_def is_panic_def sessions_inv_def)
next
  case (peer i bytes e)
  note d = tcp_invD [OF assms(2) peer(2)]
  have "tcp_inv (after (Ret (), deliver i bytes e (sv_net S)) i (sv_runs S ! i) S)"
    using assms(2) peer(2) d by (intro inv_quiet quiet_deliver) simp_all
  then show ?thesis using peer d by (simp add: after_def is_panic_def list_update_id)
next
  case (read i run r w)
  note d = tcp_invD [OF assms(2) read(2)]
  from inv_calm [OF assms(2) read(2) calm_turn [OF assms(3)], of lib r w
      "\<lambda>r run. run\<lparr>r_reader := (if r = Ret Again then Reading else Leaving)\<rparr>"] read d
  show ?thesis by (simp add: removals_def)
next
  case (leave i run r w)
  moreover have "calm True i (thenG (tcp_Close i) (ret ()))" by (intro calm_rules)
  ultimately show ?thesis
    using inv_leave [OF assms(2) leave(2), of lib "thenG (tcp_Close i) (ret ())" r w] tcp_invD [OF assms(2) leave(2)] by (simp add: readLoop_exit_def)
next
  case (watch_ctx i run r w)
  from inv_calm [OF assms(2) watch_ctx(2) calm_ctxDone, of r w "\<lambda>r run. run\<lparr>r_watcher := SawCtx\<rparr>"]
    watch_ctx tcp_invD [OF assms(2) watch_ctx(2)]
  show ?thesis by (simp add: removals_def)
next
  case (watch_closed i run r w)
  note d = tcp_invD [OF assms(2) watch_closed(2)]
  have "OnSessionClose lib i (sv_net S) = (r, w)" using watch_closed d by (simp add: lifecycle_closed_def)
  from inv_remove(1) [OF assms(2) this watch_closed(2), of "run\<lparr>r_watcher := SawClosed\<rparr>" "()"]
    inv_remove(2) [OF assms(2) this watch_closed(2), of "run\<lparr>r_watcher := SawClosed\<rparr>"] watch_closed d
  show ?thesis by (simp add: removals_def)
next
  case (tick i run r w)
  from inv_calm [OF assms(2) tick(2) calm_tick, of opt r w "\<lambda>r run. run\<lparr>r_heart := (r = Ret Again)\<rparr>"]
    tick tcp_invD [OF assms(2) tick(2)]
  show ?thesis by (simp add: removals_def)
next
  case cancel
  then show ?thesis using assms(2) by (simp add: sessions_inv_def)
qed

lemma tcp_inv_start: "tcp_start_state S \<Longrightarrow> tcp_inv S"
  by (auto simp: tcp_start_state_def new_server_def new_net_def NewSimpleGateway_def NewSessionManager_def sessions_inv_def
      net_ok_def ids_ok_def balance_def syncmap_ok_def Load_def)

lemma tcp_inv_reachable: "tcp.reachable lib opt S \<Longrightarrow> tcp_opt_ok opt \<Longrightarrow> tcp_inv S"
  by (erule tcp.reachable_invariant [where I = tcp_inv]) (auto intro: tcp_inv_start tcp_inv_step)

end
