(* ===== verification/Tcp_Properties.thy ===== *)
theory Tcp_Properties
  imports Tcp_Invariants
begin

section \<open>Properties of the TCP server under every schedule\<close>

text \<open>
  The steps of the server as an executable function on events, the accounting of the session
  manager, and the end of idle connections.
\<close>

subsection \<open>Executing a schedule\<close>

datatype tcp_event =
    EvAccept net_conn
  | EvPeer nat string io_err
  | EvRead nat
  | EvLeave nat
  | EvWatchCtx nat
  | EvWatchClosed nat
  | EvTick nat
  | EvCancel

text \<open>\<open>None\<close> is an event that cannot happen in this state.\<close>

fun tcp_exec :: "'c libs \<Rightarrow> Options \<Rightarrow> tcp_event \<Rightarrow> 'c server \<Rightarrow> 'c server option" where
  "tcp_exec lib opt (EvAccept c) S =
     (if nc_closed c then None
      else case handleConnection_open lib opt c (sv_net S) of (r, w) \<Rightarrow>
        Some (S\<lparr>sv_net := w, sv_runs := sv_runs S @ (case r of
            Ret (s, sc) \<Rightarrow> [\<lparr>r_sess = s, r_ctx = sc, r_reader = Reading, r_watcher = Watching, r_heart = heartbeat_enabled opt\<rparr>]
          | Panic _ \<Rightarrow> []), sv_panicked := sv_panicked S \<or> is_panic r\<rparr>))"
| "tcp_exec lib opt (EvPeer i bytes e) S =
     (if i < length (sv_runs S) then Some (S\<lparr>sv_net := deliver (r_sess (sv_runs S ! i)) bytes e (sv_net S)\<rparr>) else None)"
| "tcp_exec lib opt (EvRead i) S =
     (if i < length (sv_runs S) \<and> r_reader (sv_runs S ! i) = Reading
      then let rw = readLoop_turn lib (r_sess (sv_runs S ! i)) (r_ctx (sv_runs S ! i)) opt (sv_net S)
           in Some (after rw i ((sv_runs S ! i)\<lparr>r_reader := (if fst rw = Ret Again then Reading else Leaving)\<rparr>) S)
      else None)"
| "tcp_exec lib opt (EvLeave i) S =
     (if i < length (sv_runs S) \<and> r_reader (sv_runs S ! i) = Leaving
      then Some (after (readLoop_exit lib (r_sess (sv_runs S ! i)) (r_ctx (sv_runs S ! i)) (sv_net S)) i
        ((sv_runs S ! i)\<lparr>r_reader := ReaderGone\<rparr>) S)
      else None)"
| "tcp_exec lib opt (EvWatchCtx i) S =
     (if i < length (sv_runs S) \<and> r_watcher (sv_runs S ! i) = Watching \<and> sv_ctxDone S
      then Some (after (lifecycle_ctxDone (r_sess (sv_runs S ! i)) (sv_net S)) i ((sv_runs S ! i)\<lparr>r_watcher := SawCtx\<rparr>) S)
      else None)"
| "tcp_exec lib opt (EvWatchClosed i) S =
     (if i < length (sv_runs S) \<and> r_watcher (sv_runs S ! i) = Watching \<and>
         ch_closed (Session_closeChan (n_sess (sv_net S) ! r_sess (sv_runs S ! i)))
      then Some (after (lifecycle_closed lib (r_ctx (sv_runs S ! i)) (sv_net S)) i ((sv_runs S ! i)\<lparr>r_watcher := SawClosed\<rparr>) S)
      else None)"
| "tcp_exec lib opt (EvTick i) S =
     (if i < length (sv_runs S) \<and> r_heart (sv_runs S ! i)
      then let rw = heartbeat_tick opt (r_sess (sv_runs S ! i)) (sv_net S)
           in Some (after rw i ((sv_runs S ! i)\<lparr>r_heart := (fst rw = Ret Again)\<rparr>) S)
      else None)"
| "tcp_exec lib opt EvCancel S = Some (S\<lparr>sv_ctxDone := True\<rparr>)"

fun tcp_execs :: "'c libs \<Rightarrow> Options \<Rightarrow> tcp_event list \<Rightarrow> 'c server \<Rightarrow> 'c server option" where
  "tcp_execs lib opt [] S = Some S"
| "tcp_execs lib opt (ev # evs) S = (case tcp_exec lib opt ev S of
     None \<Rightarrow> None | Some T \<Rightarrow> tcp_execs lib opt evs T)"

lemma tcp_exec_step: "tcp_exec lib opt ev S = Some T \<Longrightarrow> tcp_step lib opt S T"
proof (cases ev)
  case (EvAccept c)
  assume "tcp_exec lib opt ev S = Some T"
  with EvAccept show ?thesis
    by (auto split: if_splits prod.splits simp del: outcome.case intro: tcp_step.accept [OF _ _ refl])
next
  case (EvRead i)
  assume a: "tcp_exec lib opt ev S = Some T"
  obtain r w where rw: "readLoop_turn lib (r_sess (sv_runs S ! i)) (r_ctx (sv_runs S ! i)) opt (sv_net S) = (r, w)" by fastforce
  from a EvRead show ?thesis
    using tcp_step.read [OF _ refl _ rw] by (auto simp: rw Let_def split: if_splits)
next
  case (EvLeave i)
  assume a: "tcp_exec lib opt ev S = Some T"
  obtain r w where rw: "readLoop_exit lib (r_sess (sv_runs S ! i)) (r_ctx (sv_runs S ! i)) (sv_net S) = (r, w)" by fastforce
  from a EvLeave show ?thesis using tcp_step.leave [OF _ refl _ rw] by (auto simp: rw split: if_splits)
next
  case (EvWatchCtx i)
  assume a: "tcp_exec lib opt ev S = Some T"
  obtain r w where rw: "lifecycle_ctxDone (r_sess (sv_runs S ! i)) (sv_net S) = (r, w)" by fastforce
  from a EvWatchCtx show ?thesis using tcp_step.watch_ctx [OF _ refl _ _ rw] by (auto simp: rw split: if_splits)
next
  case (EvWatchClosed i)
  assume a: "tcp_exec lib opt ev S = Some T"
  obtain r w where rw: "lifecycle_closed lib (r_ctx (sv_runs S ! i)) (sv_net S) = (r, w)" by fastforce
  from a EvWatchClosed show ?thesis using tcp_step.watch_closed [OF _ refl _ _ rw] by (auto simp: rw split: if_splits)
next
  case (EvTick i)
  assume a: "tcp_exec lib opt ev S = Some T"
  obtain r w where rw: "heartbeat_tick opt (r_sess (sv_runs S ! i)) (sv_net S) = (r, w)" by fastforce
  from a EvTick show ?thesis using tcp_step.tick [OF _ refl _ rw] by (auto simp: rw Let_def split: if_splits)
qed (auto intro: tcp_step.intros split: if_splits)

lemma tcp_execs_steps: "tcp_execs lib opt evs S = Some T \<Longrightarrow> (tcp_step lib opt)\<^sup>*\<^sup>* S T"
  by (induction evs arbitrary: S)
    (auto split: option.splits intro: converse_rtranclp_into_rtranclp tcp_exec_step)

lemma tcp_execs_reachable:
  "tcp_start_state S \<Longrightarrow> tcp_execs lib opt evs S = Some T \<Longrightarrow> tcp.reachable lib opt T"
  using tcp.reachable_star [OF tcp_execs_steps] tcp.reach_start by blast

subsection \<open>The session manager\<close>

definition count_runs :: "nat \<Rightarrow> conn_run list \<Rightarrow> nat" where
  "count_runs n runs = length (filter (\<lambda>r. removals r = n) runs)"

lemma balance_counts: "balance runs = int (count_runs 0 runs) - int (count_runs 2 runs)"
  by (induction runs) (auto simp: balance_def count_runs_def removals_def)

lemma live_sessions:
  assumes "sessions_inv b S"
  shows "set (SessionManager_GetAll (manager (sv_net S))) = {i. i < length (sv_runs S) \<and> removals (sv_runs S ! i) = 0}"
    "length (SessionManager_GetAll (manager (sv_net S))) = count_runs 0 (sv_runs S)"
proof -
  let ?m = "sm_Map (manager (sv_net S))" and ?ctx = "n_ctx (sv_net S)"
  let ?live = "{i. i < length (sv_runs S) \<and> removals (sv_runs S ! i) = 0}"
  have ok: "syncmap_ok ?m" and len: "length (sv_runs S) = length ?ctx"
    using assms by (auto simp: sessions_inv_def net_ok_def)
  have entry: "(k, v) \<in> set ?m \<longleftrightarrow> Load ?m k = Some v" for k v using syncmap.entries_load [OF ok] by simp
  have origin: "v < length ?ctx \<and> sc_Id (?ctx ! v) = k" if "Load ?m k = Some v" for k v
    using that assms by (auto simp: sessions_inv_def ids_ok_def)
  have load: "Load ?m (sc_Id (?ctx ! i)) = (if removals (sv_runs S ! i) = 0 then Some i else None)" if "i < length (sv_runs S)" for i
    using assms that by (auto simp: sessions_inv_def run_ok_def)
  have "v \<in> ?live \<longleftrightarrow> (\<exists>k. Load ?m k = Some v)" for v
    using origin load len by (metis (mono_tags, lifting) mem_Collect_eq option.distinct(1) option.inject)
  then show live: "set (SessionManager_GetAll (manager (sv_net S))) = ?live"
    unfolding SessionManager_GetAll_def by (auto simp: entry image_iff) (metis entry snd_conv)+
  have inj: "inj_on snd (set ?m)" using entry origin by (auto simp: inj_on_def) metis
  have "distinct (map snd ?m)" using inj syncmap.entries_distinct [OF ok] by (simp add: distinct_map)
  then have "length (SessionManager_GetAll (manager (sv_net S))) = card ?live"
    using live distinct_card [of "map snd ?m"] by (simp add: SessionManager_GetAll_def)
  also have "\<dots> = count_runs 0 (sv_runs S)" by (simp add: count_runs_def length_filter_conv_card)
  finally show "length (SessionManager_GetAll (manager (sv_net S))) = count_runs 0 (sv_runs S)" .
qed

definition demo_server :: "unit server" where
  "demo_server = new_server demo_uuid demo_clock"

lemma demo_start: "tcp_start_state demo_server"
proof -
  have "inj demo_uuid" by (rule injI) (metis demo_uuid_def length_replicate)
  then show ?thesis by (auto simp: tcp_start_state_def demo_server_def)
qed

text \<open>
  C3: the session manager under every schedule. In every state a TCP server can reach, whatever
  the interleaving of accepted connections, incoming bytes, readers, watchers, heartbeat ticks and
  cancellation, no goroutine has panicked (so no channel was closed twice, although up to four
  parties close a session); the manager's map holds exactly the sessions that no goroutine has
  removed yet, and every removed session is closed; and \<open>Count\<close> is the number of those sessions
  minus the number of sessions that were removed twice.
\<close>

theorem tcp_session_accounting:
  assumes "tcp_opt_ok opt" and "tcp.reachable lib opt S"
  shows "\<not> sv_panicked S \<and>
    set (SessionManager_GetAll (GetSessionManager (n_gw (sv_net S)))) = {i. i < length (sv_runs S) \<and> removals (sv_runs S ! i) = 0} \<and>
    list_all (\<lambda>r. 0 < removals r \<longrightarrow> Session_closed (n_sess (sv_net S) ! r_sess r)) (sv_runs S) \<and>
    SessionManager_Count (GetSessionManager (n_gw (sv_net S))) =
      of_int (int (length (SessionManager_GetAll (GetSessionManager (n_gw (sv_net S))))) - int (count_runs 2 (sv_runs S)))"
proof -
  have inv: "tcp_inv S" using tcp_inv_reachable [OF assms(2,1)] .
  have "Session_closed (n_sess (sv_net S) ! r_sess r)" if r: "r \<in> set (sv_runs S)" "0 < removals r" for r
  proof -
    from r(1) obtain i where i: "i < length (sv_runs S)" "r = sv_runs S ! i" by (auto simp: in_set_conv_nth)
    with inv r(2) have "sc_closeOnce (n_ctx (sv_net S) ! i)" by (auto simp: sessions_inv_def run_ok_def)
    with net_okD(6) [OF tcp_invD(1,2) [OF inv i(1)]] tcp_invD(4) [OF inv i(1)] i(2) show ?thesis by simp
  qed
  then show ?thesis using live_sessions [OF inv] inv balance_counts [of "sv_runs S"]
    by (simp add: GetSessionManager_def list_all_iff SessionManager_Count_def sessions_inv_def)
qed

text \<open>Two connections: one idle and closed by the heartbeat, one open; the first was removed twice.\<close>

definition demo_schedule :: "tcp_event list" where
  "demo_schedule = [EvAccept (demo_conn []), EvTick 0, EvWatchClosed 0, EvAccept (demo_conn []), EvRead 0, EvLeave 0]"

theorem tcp_session_accounting_witness:
  "\<exists>S. tcp_execs demo_libs demo_opt demo_schedule demo_server = Some S \<and>
     SessionManager_GetAll (GetSessionManager (n_gw (sv_net S))) = [1] \<and>
     SessionManager_Count (GetSessionManager (n_gw (sv_net S))) = 0 \<and> count_runs 2 (sv_runs S) = 1"
proof -
  have "tcp_execs demo_libs demo_opt demo_schedule demo_server \<noteq> None" by code_simp
  then obtain S where S: "tcp_execs demo_libs demo_opt demo_schedule demo_server = Some S" by blast
  have "map_option (\<lambda>S. SessionManager_GetAll (GetSessionManager (n_gw (sv_net S))))
      (tcp_execs demo_libs demo_opt demo_schedule demo_server) = Some [1]"
    "map_option (\<lambda>S. count_runs 2 (sv_runs S)) (tcp_execs demo_libs demo_opt demo_schedule demo_server) = Some 1"
    by code_simp+
  then have "SessionManager_GetAll (GetSessionManager (n_gw (sv_net S))) = [1]" "count_runs 2 (sv_runs S) = 1"
    using S by simp_all
  with S tcp_session_accounting [OF demo_opt_ok tcp_execs_reachable [OF demo_start S]] show ?thesis by auto
qed

subsection \<open>Idle connections end\<close>

text \<open>What a step cannot undo: a session stays closed and a heartbeat watcher that has ended stays ended.\<close>

definition keeps :: "nat \<Rightarrow> 'c server \<Rightarrow> 'c server \<Rightarrow> bool" where
  "keeps i S T \<longleftrightarrow> i < length (sv_runs T) \<and>
     (Session_closed (n_sess (sv_net S) ! i) \<longrightarrow> Session_closed (n_sess (sv_net T) ! i)) \<and>
     (\<not> r_heart (sv_runs S ! i) \<longrightarrow> \<not> r_heart (sv_runs T ! i))"

lemma keeps_after:
  assumes "i < length (sv_runs S)" and "Session_closed (n_sess (sv_net S) ! i) \<Longrightarrow> Session_closed (n_sess w ! i)"
    and "r_heart run \<Longrightarrow> r_heart (sv_runs S ! j)"
  shows "keeps i S (after (r, w) j run S)"
  using assms by (cases "i = j") (auto simp: keeps_def after_def)

lemma keeps_calm:
  assumes "tcp_inv S" and "i < length (sv_runs S)" and "j < length (sv_runs S)" and "calm True j m"
    and "m (sv_net S) = (r, w)" and "Session_closed (n_sess (sv_net S) ! i)"
  shows "Session_closed (n_sess w ! i)"
proof -
  from calmE [OF assms(4) tcp_invD(1-3) [OF assms(1,3)]] assms(5) have "quiet (sv_net S) w" by auto
  with assms(6) tcp_invD(2) [OF assms(1,2)] show ?thesis by (auto simp: quiet_def)
qed

lemma keeps_close:
  assumes "tcp_inv S" and "i < length (sv_runs S)" and "j < length (sv_runs S)"
    and "OnSessionClose lib j (sv_net S) = (r, w)" and "Session_closed (n_sess (sv_net S) ! i)"
  shows "Session_closed (n_sess w ! i)"
proof -
  note j = tcp_invD [OF assms(1,3)]
  from OnSessionClose_spec [OF j(1,2), of lib] assms(4) obtain s where "n_sess w = (n_sess (sv_net S))[j := s]" "Session_closed s"
    by auto
  with assms(5) net_okD(1) [OF j(1,2)] show ?thesis by (cases "i = j") simp_all
qed

text \<open>The reader's deferred function and the watcher's call close the session and return.\<close>

lemma exit_closes:
  assumes "net_ok w" and "i < length (n_ctx w)" and "is_Tcp (n_sess w ! i) = True" and "readLoop_exit lib i i w = (r, w')"
  shows "(\<forall>j < length (n_ctx w). Session_closed (n_sess w ! j) \<longrightarrow> Session_closed (n_sess w' ! j)) \<and> r = Ret ()"
proof -
  from OnSessionClose_spec [OF assms(1,2), of lib] obtain s w1 where
    w1: "OnSessionClose lib i w = (Ret (), w1)" "n_sess w1 = (n_sess w)[i := s]" "length (n_ctx w1) = length (n_ctx w)" "net_ok w1"
      "Session_closed s" "is_Tcp s = is_Tcp (n_sess w ! i)" by auto
  have i: "i < length (n_sess w)" by (rule net_okD(1) [OF assms(1,2)])
  have 1: "i < length (n_ctx w1)" "is_Tcp (n_sess w1 ! i) = True" using assms(2,3) w1 i by simp_all
  obtain x w2 where w2: "tcp_Close i w1 = (Ret x, w2)" "quiet w1 w2" by (rule calmE [OF calm_tcp_Close w1(4) 1])
  have "readLoop_exit lib i i w = (Ret (), w2)" using w1(1) w2(1) by (simp add: readLoop_exit_def)
  moreover have "Session_closed (n_sess w2 ! j)" if "j < length (n_ctx w)" "Session_closed (n_sess w ! j)" for j
    using that w1(2,3,5) w2(2) i by (cases "j = i") (auto simp: quiet_def)
  ultimately show ?thesis using assms(4) by auto
qed

lemma tcp_step_keeps:
  assumes "tcp_step lib opt S T" and "tcp_inv S" and "tcp_opt_ok opt" and "i < length (sv_runs S)"
  shows "keeps i S T"
  using assms(1)
proof (cases rule: tcp_step.cases)
  case (accept c r w run)
  from open_spec [of "sv_net S" c opt lib] accept assms tcp_invD(1,2) [OF assms(2,4)] show ?thesis
    by (auto simp: keeps_def nth_append tcp_opt_ok_def)
next
  case (peer j bytes e)
  note d = tcp_invD [OF assms(2) peer(2)]
  from quiet_deliver [OF d(1,2), of bytes e] peer d(4) tcp_invD(2) [OF assms(2,4)] assms(4) show ?thesis
    by (auto simp: keeps_def quiet_def)
next
  case (read j run r w)
  with keeps_calm [OF assms(2,4) read(2) calm_turn [OF assms(3)]] tcp_invD [OF assms(2) read(2)] assms(4)
  show ?thesis by (auto intro!: keeps_after)
next
  case (leave j run r w)
  with exit_closes [OF tcp_invD(1-3) [OF assms(2) leave(2)]] tcp_invD [OF assms(2) leave(2)] tcp_invD(2) [OF assms(2,4)] assms(4)
  show ?thesis by (auto intro!: keeps_after)
next
  case (watch_ctx j run r w)
  with keeps_calm [OF assms(2,4) watch_ctx(2) calm_ctxDone] tcp_invD [OF assms(2) watch_ctx(2)] assms(4)
  show ?thesis by (auto intro!: keeps_after)
next
  case (watch_closed j run r w)
  with keeps_close [OF assms(2,4) watch_closed(2)] tcp_invD [OF assms(2) watch_closed(2)] assms(4)
  show ?thesis by (auto simp: lifecycle_closed_def intro!: keeps_after)
next
  case (tick j run r w)
  with keeps_calm [OF assms(2,4) tick(2) calm_tick] tcp_invD [OF assms(2) tick(2)] assms(4)
  show ?thesis by (auto intro!: keeps_after)
next
  case cancel
  then show ?thesis using assms(4) by (simp add: keeps_def)
qed

lemma tcp_steps_keep:
  assumes "(tcp_step lib opt)\<^sup>*\<^sup>* S T" and "tcp_inv S" and "tcp_opt_ok opt" and "i < length (sv_runs S)"
  shows "keeps i S T \<and> tcp_inv T"
  using assms(1)
proof (induction rule: rtranclp_induct)
  case base
  then show ?case using assms(2,4) by (simp add: keeps_def)
next
  case (step T U)
  then have "keeps i T U" using tcp_step_keeps [OF step(2) _ assms(3)] by (auto simp: keeps_def)
  with step tcp_inv_step [OF step(2) _ assms(3)] show ?case by (auto simp: keeps_def)
qed

lemma tcp_Close_run:
  assumes "n_sess w ! i = TcpSession t" and "i < length (n_sess w)" and "tcp_ok t"
  shows "\<exists>r t'. tcp_Close i w = (Ret r, w\<lparr>n_sess := (n_sess w)[i := TcpSession t']\<rparr>) \<and> b_closeOnce (ts_base t')"
proof -
  from tcp_obj.close_closes [OF assms(3)] obtain r t' where "tcpSession_Close t = (Ret r, t')" "b_closeOnce (ts_base t')" by blast
  then show ?thesis using assms(1,2)
    by (intro exI [of _ r] exI [of _ t']) (simp add: tcp_Close_def get_tcp_def deref_sess_def put_tcp_def set_sess_def bindG_app)
qed

lemma tick_idle:
  assumes "net_ok w" and "i < length (n_ctx w)" and "n_sess w ! i = TcpSession t"
    and "sint (o_HeartbeatTimeout opt) < n_clock w (n_reads w) - ts_lastActive t"
  shows "\<exists>w'. heartbeat_tick opt i w = (Ret Done, w') \<and> Session_closed (n_sess w' ! i)"
proof -
  let ?v = "w\<lparr>n_reads := Suc (n_reads w), n_log := n_log w @ [(''tcp_heartbeat_timeout'', Base_ID (ts_base t))]\<rparr>"
  note ok = net_okD [OF assms(1,2)]
  have "tcp_ok t" using ok(2) assms(3) by (simp add: Session_ok_def)
  then obtain r t' where c: "tcp_Close i ?v = (Ret r, ?v\<lparr>n_sess := (n_sess w)[i := TcpSession t']\<rparr>)" "b_closeOnce (ts_base t')"
    using tcp_Close_run [of ?v i t] ok(1) assms(3) by auto
  have "get_tcp i w = (Ret t, w)" using ok(1) assms(3) by (simp add: get_tcp_def deref_sess_def bindG_app)
  then have "heartbeat_tick opt i w = (Ret Done, ?v\<lparr>n_sess := (n_sess w)[i := TcpSession t']\<rparr>)"
    unfolding heartbeat_tick_def using assms(4) c(1) by (simp add: bindG_Ret [where m = "get_tcp i" and w = w])
  then show ?thesis using c(2) ok(1) by (simp add: session_defs)
qed

lemma quiet_closed_text: "quiet_read_error (FrameIO (ConnError closed_text))"
  by code_simp

lemma turn_closed:
  assumes "net_ok w" and "i < length (n_ctx w)" and "is_Tcp (n_sess w ! i) = True" and "Session_closed (n_sess w ! i)"
  shows "fst (readLoop_turn lib i i opt w) = Ret Done"
proof -
  from get_tcp_run [OF assms(1,2)] assms(3) obtain t where t: "n_sess w ! i = TcpSession t" "tcp_ok t" by auto
  have i: "i < length (n_sess w)" by (rule net_okD(1) [OF assms(1,2)])
  have cl: "b_closeOnce (ts_base t)" "nc_closed (ts_conn t)" using assms(4) t by (auto simp: session_defs tcp_ok_def)
  have get: "get_tcp i v = (Ret t, v)" if "n_sess v = n_sess w" for v :: "'a net"
    using that i t(1) by (simp add: get_tcp_def deref_sess_def bindG_app)
  have put: "put_tcp i t v = (Ret (), v)" if "n_sess v = n_sess w" for v :: "'a net"
    using that t(1) list_update_id [of "n_sess w" i] by (simp add: put_tcp_def set_sess_def)
  have dl: "upd_tcp i (\<lambda>t. t\<lparr>ts_conn := net_SetReadDeadline d (ts_conn t)\<rparr>) v = (Ret (), v)" if "n_sess v = n_sess w" for v :: "'a net" and d
    using get [OF that] put [OF that] cl(2) by (simp add: upd_tcp_def net_SetReadDeadline_def)
  show ?thesis
    by (simp add: readLoop_turn_def dl get put tcp_ReadFrame_closed [OF t(2) cl(1)] readLoop_error_def quiet_closed_text)
qed

definition conn_ended :: "conn_run \<Rightarrow> bool" where
  "conn_ended run \<longleftrightarrow> r_reader run = ReaderGone \<and> r_watcher run \<noteq> Watching \<and> \<not> r_heart run"

text \<open>From any state in which a session is closed its own goroutines can run to their end.\<close>

lemma reader_ends:
  assumes "tcp_inv S" and "tcp_opt_ok opt" and "i < length (sv_runs S)" and "Session_closed (n_sess (sv_net S) ! i)"
  shows "\<exists>evs T. set evs \<subseteq> {EvRead i, EvLeave i} \<and> length evs \<le> 2 \<and> tcp_execs lib opt evs S = Some T \<and>
    r_reader (sv_runs T ! i) = ReaderGone"
proof -
  have leave: "\<exists>T. tcp_exec lib opt (EvLeave i) R = Some T \<and> r_reader (sv_runs T ! i) = ReaderGone"
    if "i < length (sv_runs R)" "r_reader (sv_runs R ! i) = Leaving" for R :: "'a server"
    using that by (simp add: after_def)
  note d = tcp_invD [OF assms(1,3)]
  show ?thesis
  proof (cases "r_reader (sv_runs S ! i)")
    case Reading
    obtain w where "readLoop_turn lib i i opt (sv_net S) = (Ret Done, w)"
      using turn_closed [OF d(1-3) assms(4), of lib opt] by (metis prod.collapse)
    with Reading assms(3) d obtain T where T: "tcp_exec lib opt (EvRead i) S = Some T" "r_reader (sv_runs T ! i) = Leaving"
      "i < length (sv_runs T)" by (auto simp: after_def)
    with leave [of T] show ?thesis by (intro exI [of _ "[EvRead i, EvLeave i]"]) auto
  next
    case Leaving
    with leave [OF assms(3)] assms(3) show ?thesis by (intro exI [of _ "[EvLeave i]"]) auto
  next
    case ReaderGone
    then show ?thesis by (intro exI [of _ "[]"]) simp
  qed
qed

lemma closed_chan: "Session_ok s \<Longrightarrow> Session_closed s \<Longrightarrow> ch_closed (Session_closeChan s)"
  by (cases s) (auto simp: session_defs Session_closeChan_def tcp_ok_def ws_ok_def)

lemma tcp_execs_append: "tcp_execs lib opt (xs @ ys) S = (case tcp_execs lib opt xs S of None \<Rightarrow> None | Some T \<Rightarrow> tcp_execs lib opt ys T)"
  by (induction xs arbitrary: S) (auto split: option.split)

lemma goroutines_end:
  assumes "tcp_inv S" and "tcp_opt_ok opt" and "i < length (sv_runs S)" and "Session_closed (n_sess (sv_net S) ! i)"
    and "\<not> r_heart (sv_runs S ! i)"
  shows "\<exists>evs T. set evs \<subseteq> {EvRead i, EvLeave i, EvWatchClosed i} \<and> length evs \<le> 3 \<and> tcp_execs lib opt evs S = Some T \<and>
    conn_ended (sv_runs T ! i) \<and> i \<notin> set (SessionManager_GetAll (manager (sv_net T)))"
proof -
  from reader_ends [OF assms(1-4), of lib] obtain evs R where R: "set evs \<subseteq> {EvRead i, EvLeave i}" "length evs \<le> 2"
    "tcp_execs lib opt evs S = Some R" "r_reader (sv_runs R ! i) = ReaderGone" by blast
  from tcp_steps_keep [OF tcp_execs_steps [OF R(3)] assms(1-3)] assms(4,5)
  have k: "tcp_inv R" "i < length (sv_runs R)" "Session_closed (n_sess (sv_net R) ! i)" "\<not> r_heart (sv_runs R ! i)"
    by (auto simp: keeps_def)
  note d = tcp_invD [OF k(1,2)]
  have gone: "i \<notin> set (SessionManager_GetAll (manager (sv_net T)))" if "tcp_inv T" "r_reader (sv_runs T ! i) = ReaderGone" for T :: "'a server"
    using live_sessions(1) [OF that(1)] that(2) by (simp add: removals_def)
  show ?thesis
  proof (cases "r_watcher (sv_runs R ! i) = Watching")
    case True
    have "ch_closed (Session_closeChan (n_sess (sv_net R) ! i))" using closed_chan net_okD(2) [OF d(1,2)] k(3) by blast
    with True d k obtain T where T: "tcp_exec lib opt (EvWatchClosed i) R = Some T" "r_reader (sv_runs T ! i) = ReaderGone"
      "conn_ended (sv_runs T ! i)" using R(4) by (auto simp: after_def conn_ended_def)
    have "tcp_execs lib opt (evs @ [EvWatchClosed i]) S = Some T" using R(3) T(1) by (simp add: tcp_execs_append)
    moreover have "tcp_inv T" by (rule tcp_inv_step [OF tcp_exec_step [OF T(1)] k(1) assms(2)])
    ultimately show ?thesis using R(1,2) T gone by (intro exI [of _ "evs @ [EvWatchClosed i]"] exI [of _ T]) auto
  next
    case False
    then show ?thesis using R k gone [of R] by (intro exI [of _ evs] exI [of _ R]) (auto simp: conn_ended_def)
  qed
qed

text \<open>
  C15: an idle connection comes to its end. When a heartbeat tick finds that more than the heartbeat
  timeout has passed since the last message, the tick closes the session; and in whatever state the
  server is later, at most three turns of that connection's own goroutines end its reader and its
  watcher and leave the session manager without the session: no other connection has to do
  anything, and no state is a dead end for it.
\<close>

theorem idle_connection_ends:
  assumes "tcp_opt_ok opt" and "tcp.reachable lib opt S" and "i < length (sv_runs S)" and "r_heart (sv_runs S ! i)"
    and "n_sess (sv_net S) ! i = TcpSession t"
    and "sint (o_HeartbeatTimeout opt) < n_clock (sv_net S) (n_reads (sv_net S)) - ts_lastActive t"
  shows "\<exists>S1. tcp_exec lib opt (EvTick i) S = Some S1 \<and> Session_closed (n_sess (sv_net S1) ! i) \<and>
    (\<forall>S2. (tcp_step lib opt)\<^sup>*\<^sup>* S1 S2 \<longrightarrow>
       (\<exists>evs S3. set evs \<subseteq> {EvRead i, EvLeave i, EvWatchClosed i} \<and> length evs \<le> 3 \<and> tcp_execs lib opt evs S2 = Some S3 \<and>
          conn_ended (sv_runs S3 ! i) \<and> i \<notin> set (SessionManager_GetAll (manager (sv_net S3)))))"
proof -
  have inv: "tcp_inv S" using tcp_inv_reachable [OF assms(2,1)] .
  note d = tcp_invD [OF inv assms(3)]
  from tick_idle [OF d(1,2) assms(5,6)] obtain w where w: "heartbeat_tick opt i (sv_net S) = (Ret Done, w)" "Session_closed (n_sess w ! i)"
    by blast
  let ?S1 = "after (Ret Done, w) i ((sv_runs S ! i)\<lparr>r_heart := False\<rparr>) S"
  have 1: "tcp_exec lib opt (EvTick i) S = Some ?S1" using assms(3,4) d(4) w(1) by simp
  have inv1: "tcp_inv ?S1" by (rule tcp_inv_step [OF tcp_exec_step [OF 1] inv assms(1)])
  have s1: "i < length (sv_runs ?S1)" "\<not> r_heart (sv_runs ?S1 ! i)" "Session_closed (n_sess (sv_net ?S1) ! i)"
    using assms(3) w(2) by (simp_all add: after_def)
  have "\<exists>evs S3. set evs \<subseteq> {EvRead i, EvLeave i, EvWatchClosed i} \<and> length evs \<le> 3 \<and> tcp_execs lib opt evs S2 = Some S3 \<and>
      conn_ended (sv_runs S3 ! i) \<and> i \<notin> set (SessionManager_GetAll (manager (sv_net S3)))"
    if "(tcp_step lib opt)\<^sup>*\<^sup>* ?S1 S2" for S2
    using tcp_steps_keep [OF that inv1 assms(1) s1(1)] s1 by (intro goroutines_end assms(1)) (auto simp: keeps_def)
  then show ?thesis using 1 s1(3) by blast
qed

theorem idle_connection_ends_witness:
  "\<exists>S S1. tcp_execs demo_libs demo_opt [EvAccept (demo_conn [])] demo_server = Some S \<and>
     tcp_exec demo_libs demo_opt (EvTick 0) S = Some S1 \<and> Session_closed (n_sess (sv_net S1) ! 0) \<and>
     (\<exists>evs S3. length evs \<le> 3 \<and> tcp_execs demo_libs demo_opt evs S1 = Some S3 \<and> conn_ended (sv_runs S3 ! 0))"
proof -
  let ?S = "the (tcp_execs demo_libs demo_opt [EvAccept (demo_conn [])] demo_server)"
  have S: "tcp_execs demo_libs demo_opt [EvAccept (demo_conn [])] demo_server = Some ?S"
  proof -
    have "tcp_execs demo_libs demo_opt [EvAccept (demo_conn [])] demo_server \<noteq> None" by code_simp
    then show ?thesis by simp
  qed
  have idle: "length (sv_runs ?S) = 1 \<and> r_heart (sv_runs ?S ! 0) \<and> (case n_sess (sv_net ?S) ! 0 of
      TcpSession t \<Rightarrow> sint (o_HeartbeatTimeout demo_opt) < n_clock (sv_net ?S) (n_reads (sv_net ?S)) - ts_lastActive t
    | WsSession _ \<Rightarrow> False)" by code_simp
  then obtain t where t: "n_sess (sv_net ?S) ! 0 = TcpSession t"
    "sint (o_HeartbeatTimeout demo_opt) < n_clock (sv_net ?S) (n_reads (sv_net ?S)) - ts_lastActive t"
    by (cases "n_sess (sv_net ?S) ! 0") auto
  have "0 < length (sv_runs ?S)" "r_heart (sv_runs ?S ! 0)" using idle by simp_all
  from idle_connection_ends [OF demo_opt_ok tcp_execs_reachable [OF demo_start S] this t] S show ?thesis by blast
qed

end
