(* ===== verification/Tcp_Transcript.thy ===== *)
theory Tcp_Transcript
  imports Tcp_Invariants
begin

section \<open>What a TCP connection sees\<close>

text \<open>
  One connection from its set-up to its end, with the peer's bytes given: which bytes the server
  writes back. The predicate \<open>live\<close> describes an open session in the middle of the reader's loop
  (\<open>dl\<close>: read deadlines are in use);
  every part of a turn maps it to itself with the bytes read and written.
\<close>

text \<open>The bytes that sending an envelope writes: its frame, or nothing when it cannot be encoded or is too large.\<close>

definition wire :: "proto_lib \<Rightarrow> Manager \<Rightarrow> Envelope \<Rightarrow> string" where
  "wire pl pm e = (case Manager_EncodeMessage pl pm e of
     Inl _ \<Rightarrow> []
   | Inr d \<Rightarrow> if int (length d) \<le> MaxFrameSize then frame_bytes d else [])"

definition live :: "bool \<Rightarrow> (nat \<Rightarrow> Time) \<Rightarrow> Manager \<Rightarrow> string \<Rightarrow> io_err \<Rightarrow> string \<Rightarrow> nat \<Rightarrow> 'c net \<Rightarrow> bool" where
  "live dl clk pm inp e out i w \<longleftrightarrow> net_ok w \<and> i < length (n_ctx w) \<and> \<not> sc_closeOnce (n_ctx w ! i) \<and> n_clock w = clk \<and>
     d_handlers (g_disp (n_gw w)) = [MsgPing \<mapsto> PingHandler] \<and>
     (\<exists>t. n_sess w ! i = TcpSession t \<and> ts_protocolManager t = Some pm \<and> \<not> nc_closed (ts_conn t) \<and>
        cn_in (nc_stream (ts_conn t)) = inp \<and> cn_end (nc_stream (ts_conn t)) = e \<and>
        cn_out (nc_stream (ts_conn t)) = out \<and> cn_room (nc_stream (ts_conn t)) = None \<and>
        (dl \<or> nc_deadline (ts_conn t) = None))"

lemma live_irrelevant [simp]:
  "live dl clk pm inp e out i (w\<lparr>n_log := l\<rparr>) = live dl clk pm inp e out i w"
  "live dl clk pm inp e out i (w\<lparr>n_uuids := k\<rparr>) = live dl clk pm inp e out i w"
  "live dl clk pm inp e out i (w\<lparr>n_reads := k\<rparr>) = live dl clk pm inp e out i w"
  "live dl clk pm inp e out i (w\<lparr>n_go := gs\<rparr>) = live dl clk pm inp e out i w"
  by (simp_all add: live_def)

lemma liveD:
  assumes "live dl clk pm inp e out i w"
  shows "net_ok w" "i < length (n_ctx w)" "\<not> sc_closeOnce (n_ctx w ! i)" "is_Tcp (n_sess w ! i) = True" "n_clock w = clk"
    "d_handlers (g_disp (n_gw w)) = [MsgPing \<mapsto> PingHandler]"
  using assms by (auto simp: live_def is_Tcp_def)

lemma live_set:
  assumes "live dl clk pm inp e out i w" and "n_sess w ! i = TcpSession t" and "quiet w (w\<lparr>n_sess := (n_sess w)[i := TcpSession t']\<rparr>)"
    and "ts_protocolManager t' = Some pm" and "\<not> nc_closed (ts_conn t')" and "cn_in (nc_stream (ts_conn t')) = inp'"
    and "cn_end (nc_stream (ts_conn t')) = e'" and "cn_out (nc_stream (ts_conn t')) = out'" and "cn_room (nc_stream (ts_conn t')) = None"
    and "dl \<or> nc_deadline (ts_conn t') = None"
  shows "live dl clk pm inp' e' out' i (w\<lparr>n_sess := (n_sess w)[i := TcpSession t']\<rparr>)"
  using assms net_okD(1) [OF liveD(1,2) [OF assms(1)]] by (auto simp: live_def quiet_def)

text \<open>Sending.\<close>

lemma WriteFrame_wire:
  assumes "cn_room c = None"
  shows "\<exists>r. WriteFrame (Some fc) d c = (r, c\<lparr>cn_out := cn_out c @ (if int (length d) \<le> MaxFrameSize then frame_bytes d else [])\<rparr>)"
proof (cases "int (length d) \<le> MaxFrameSize")
  case True
  then show ?thesis using WriteFrame_ok [of d c fc] assms by simp
next
  case False
  then show ?thesis by (simp add: WriteFrame_def MaxFrameSize_def)
qed

lemma tcp_send_wire:
  assumes "tcp_ok t" and "ts_protocolManager t = Some pm" and "cn_room (nc_stream (ts_conn t)) = None"
  shows "\<exists>r. tcpSession_SendEnvelope pl env t = (Ret r, t\<lparr>ts_conn := (ts_conn t)\<lparr>nc_stream :=
    (nc_stream (ts_conn t))\<lparr>cn_out := cn_out (nc_stream (ts_conn t)) @ wire pl pm env\<rparr>\<rparr>\<rparr>)"
proof (cases "Manager_EncodeMessage pl pm env")
  case (Inl err)
  then show ?thesis using assms by (simp add: tcpSession_SendEnvelope_def tcp_ok_def wire_def)
next
  case (Inr d)
  then show ?thesis using assms WriteFrame_wire [OF assms(3), of "ts_frameCodec t" d]
    by (auto simp: tcpSession_SendEnvelope_def tcp_ok_def wire_def)
qed

lemma Send_live:
  assumes "live dl clk pm inp e out i w"
  shows "\<exists>r w'. SessionContext_Send lib i env w = (Ret r, w') \<and> live dl clk pm inp e (out @ wire (lib_proto lib) pm env) i w'"
proof -
  note l = liveD [OF assms] and ok = net_okD [OF liveD(1,2) [OF assms]]
  from assms obtain t where t: "n_sess w ! i = TcpSession t" "ts_protocolManager t = Some pm" "cn_room (nc_stream (ts_conn t)) = None"
    "\<not> nc_closed (ts_conn t)" "cn_in (nc_stream (ts_conn t)) = inp" "cn_end (nc_stream (ts_conn t)) = e" "cn_out (nc_stream (ts_conn t)) = out"
    "dl \<or> nc_deadline (ts_conn t) = None"
    by (auto simp: live_def)
  let ?t = "t\<lparr>ts_conn := (ts_conn t)\<lparr>nc_stream := (nc_stream (ts_conn t))\<lparr>cn_out := cn_out (nc_stream (ts_conn t)) @ wire (lib_proto lib) pm env\<rparr>\<rparr>\<rparr>"
  have tok: "tcp_ok t" using ok(2) t(1) by (simp add: Session_ok_def)
  from tcp_send_wire [OF tok t(2,3), of "lib_proto lib" env] obtain r where r: "tcpSession_SendEnvelope (lib_proto lib) env t = (Ret r, ?t)"
    by blast
  have run: "SessionContext_Send lib i env w = (Ret r, w\<lparr>n_sess := (n_sess w)[i := TcpSession ?t]\<rparr>)"
    using l ok t(1) r by (simp add: SessionContext_Send_def deref_ok on_sess_def Session_SendEnvelope_def)
  have "calm True i (SessionContext_Send lib i env)" by (rule calm_Send)
  from calmE [OF this l(1,2,4)] run have q: "quiet w (w\<lparr>n_sess := (n_sess w)[i := TcpSession ?t]\<rparr>)" by auto
  show ?thesis using run live_set [OF assms t(1) q] t by auto
qed

lemma log_err_live: "live dl clk pm inp e out i w \<Longrightarrow> \<exists>w'. log_err key i err w = (Ret (), w') \<and> live dl clk pm inp e out i w'"
  by (cases err) (auto simp: log_err_def deref_ok [OF liveD(2)])

definition answers :: "Envelope \<Rightarrow> Envelope \<Rightarrow> bool" where
  "answers ping pong \<longleftrightarrow> (\<exists>u t1 t2. pong = CreatePongMessage NewMessageFactory u t1 t2 (ping_seq (e_Data ping)) (e_Mid ping))"

lemma ping_live:
  assumes "live dl clk pm inp e out i w"
  shows "\<exists>pong w'. ping_handler lib i msg w = (Ret (), w') \<and> answers msg pong \<and>
    live dl clk pm inp e (out @ wire (lib_proto lib) pm pong) i w'"
proof -
  define u t1 t2 where "u = n_uuid w (n_uuids w)" and "t1 = Time_UnixMilli (clk (n_reads w))" and "t2 = Time_UnixMilli (clk (Suc (n_reads w)))"
  let ?pong = "CreatePongMessage NewMessageFactory u t1 t2 (ping_seq (e_Data msg)) (e_Mid msg)"
  let ?w = "w\<lparr>n_uuids := Suc (n_uuids w), n_reads := Suc (Suc (n_reads w))\<rparr>"
  have "live dl clk pm inp e out i ?w" using assms by simp
  from Send_live [OF this, of lib ?pong] obtain r w1 where
    1: "SessionContext_Send lib i ?pong ?w = (Ret r, w1)" "live dl clk pm inp e (out @ wire (lib_proto lib) pm ?pong) i w1" by blast
  from log_err_live [OF 1(2)] obtain w2 where
    2: "log_err ''send_pong_failed'' i r w1 = (Ret (), w2)" "live dl clk pm inp e (out @ wire (lib_proto lib) pm ?pong) i w2" by blast
  have "ping_handler lib i msg w = (Ret (), w2)"
    using 1(1) 2(1) liveD(5) [OF assms] by (simp add: ping_handler_def u_def t1_def t2_def)
  then show ?thesis using 2(2) by (auto simp: answers_def)
qed

lemma OnEnvelope_live:
  assumes "live dl clk pm inp e out i w"
  shows "\<exists>pongs w'. OnEnvelope lib i msg w = (Ret (), w') \<and> list_all2 answers (filter (\<lambda>m. e_Type m = MsgPing) [msg]) pongs \<and>
    live dl clk pm inp e (out @ concat (map (wire (lib_proto lib) pm) pongs)) i w'"
proof (cases "e_Type msg = MsgPing")
  case True
  from ping_live [OF assms, of lib msg] obtain pong w' where p: "ping_handler lib i msg w = (Ret (), w')" "answers msg pong"
    "live dl clk pm inp e (out @ wire (lib_proto lib) pm pong) i w'" by blast
  then have "OnEnvelope lib i msg w = (Ret (), w')"
    using True liveD(6) [OF assms] by (simp add: OnEnvelope_def dispatcher_Dispatch_def run_handler_def)
  with p True show ?thesis by (intro exI [of _ "[pong]"] exI [of _ w']) simp
next
  case False
  then show ?thesis using assms liveD(6) [OF assms]
    by (intro exI [of _ "[]"]) (simp add: OnEnvelope_def dispatcher_Dispatch_def)
qed

subsection \<open>A turn of the reader\<close>

lemma upd_live:
  fixes w :: "'c net"
  assumes "live dl clk pm inp e out i w" and "calm True i (upd_tcp i f :: ('c net, unit) go)"
    and "\<And>t. ts_protocolManager (f t) = ts_protocolManager t \<and> nc_closed (ts_conn (f t)) = nc_closed (ts_conn t) \<and>
      nc_stream (ts_conn (f t)) = nc_stream (ts_conn t) \<and> (dl \<or> nc_deadline (ts_conn (f t)) = nc_deadline (ts_conn t))"
  shows "\<exists>t. n_sess w ! i = TcpSession t \<and> upd_tcp i f w = (Ret (), w\<lparr>n_sess := (n_sess w)[i := TcpSession (f t)]\<rparr>) \<and>
    live dl clk pm inp e out i (w\<lparr>n_sess := (n_sess w)[i := TcpSession (f t)]\<rparr>)"
proof -
  note l = liveD [OF assms(1)]
  from assms(1) obtain t where t: "n_sess w ! i = TcpSession t" "ts_protocolManager t = Some pm" "cn_room (nc_stream (ts_conn t)) = None"
    "\<not> nc_closed (ts_conn t)" "cn_in (nc_stream (ts_conn t)) = inp" "cn_end (nc_stream (ts_conn t)) = e" "cn_out (nc_stream (ts_conn t)) = out"
    "dl \<or> nc_deadline (ts_conn t) = None"
    by (auto simp: live_def)
  have run: "upd_tcp i f w = (Ret (), w\<lparr>n_sess := (n_sess w)[i := TcpSession (f t)]\<rparr>)"
    using t(1) net_okD(1) [OF l(1,2)] by (simp add: upd_tcp_def get_tcp_def deref_sess_def put_tcp_def set_sess_def bindG_app)
  from calmE [OF assms(2) l(1,2,4)] run have "quiet w (w\<lparr>n_sess := (n_sess w)[i := TcpSession (f t)]\<rparr>)" by auto
  from live_set [OF assms(1) t(1) this] t assms(3) [of t] run show ?thesis by auto
qed

text \<open>The clock readings around each read stay below the deadline set before it.\<close>

definition in_time :: "Options \<Rightarrow> (nat \<Rightarrow> Time) \<Rightarrow> bool" where
  "in_time opt clk \<longleftrightarrow> (0 <s o_ReadTimeout opt \<longrightarrow> (\<forall>n. clk (Suc n) < read_deadline opt (clk n)))"

definition decoded :: "proto_lib \<Rightarrow> Manager \<Rightarrow> Options \<Rightarrow> string \<Rightarrow> Envelope option" where
  "decoded pl pm opt d = (case Manager_DecodeMessage pl pm d zero_Envelope (o_MaxFrameSize opt) of
     Ret (None, m) \<Rightarrow> Some m | _ \<Rightarrow> None)"

definition pings :: "proto_lib \<Rightarrow> Manager \<Rightarrow> Options \<Rightarrow> string list \<Rightarrow> Envelope list" where
  "pings pl pm opt ps = filter (\<lambda>m. e_Type m = MsgPing) (List.map_filter (decoded pl pm opt) ps)"

lemma pings_Cons: "pings pl pm opt (p # ps) = pings pl pm opt [p] @ pings pl pm opt ps"
  by (simp add: pings_def List.map_filter_def split: option.split)

lemma set_active_live:
  "live dl clk pm inp e out i w \<Longrightarrow> \<exists>w'. upd_tcp i (\<lambda>u. u\<lparr>ts_lastActive := now\<rparr>) w = (Ret (), w') \<and> live dl clk pm inp e out i w'"
  by (drule upd_live [OF _ calm_set_active [of i now]]) auto

lemma set_deadline_live:
  "dl \<Longrightarrow> live dl clk pm inp e out i w \<Longrightarrow> \<exists>t. n_sess w ! i = TcpSession t \<and>
     upd_tcp i (\<lambda>t. t\<lparr>ts_conn := net_SetReadDeadline d (ts_conn t)\<rparr>) w =
       (Ret (), w\<lparr>n_sess := (n_sess w)[i := TcpSession (t\<lparr>ts_conn := net_SetReadDeadline d (ts_conn t)\<rparr>)]\<rparr>) \<and>
     live dl clk pm inp e out i (w\<lparr>n_sess := (n_sess w)[i := TcpSession (t\<lparr>ts_conn := net_SetReadDeadline d (ts_conn t)\<rparr>)]\<rparr>)"
  by (drule upd_live [OF _ calm_set_deadline [of i d]]) (auto simp: net_SetReadDeadline_def)

lemma frame_live:
  assumes "live dl clk pm inp e out i w" and "0 < o_MaxFrameSize opt" and "ts_protocolManager t = Some pm"
  shows "\<exists>pongs w'. readLoop_frame lib i i opt t p w = (Ret Again, w') \<and> list_all2 answers (pings (lib_proto lib) pm opt [p]) pongs \<and>
    live dl clk pm inp e (out @ concat (map (wire (lib_proto lib) pm) pongs)) i w'"
proof -
  from Decode_returns [OF assms(2)] obtain err m where
    d: "Manager_DecodeMessage (lib_proto lib) pm p zero_Envelope (o_MaxFrameSize opt) = Ret (err, m)" by blast
  show ?thesis
  proof (cases err)
    case (Some x)
    then have "pings (lib_proto lib) pm opt [p] = []" using d by (simp add: pings_def decoded_def List.map_filter_def)
    then show ?thesis using Some d assms(1,3) by (intro exI [of _ "[]"]) (simp add: readLoop_frame_def thenG_app)
  next
    case None
    then have ps: "pings (lib_proto lib) pm opt [p] = filter (\<lambda>m. e_Type m = MsgPing) [m]"
      using d by (simp add: pings_def decoded_def List.map_filter_def)
    let ?w = "w\<lparr>n_reads := Suc (n_reads w)\<rparr>"
    have "live dl clk pm inp e out i ?w" using assms(1) by simp
    from set_active_live [OF this] obtain w1 where
      1: "upd_tcp i (\<lambda>u. u\<lparr>ts_lastActive := n_clock w (n_reads w)\<rparr>) ?w = (Ret (), w1)" "live dl clk pm inp e out i w1" by blast
    have run: "readLoop_frame lib i i opt t p w = (if e_Type m = MsgHeartbeat then (Ret Again, w1) else thenG (OnEnvelope lib i m) (ret Again) w1)"
      using d None assms(3) 1(1) by (simp add: readLoop_frame_def)
    show ?thesis
    proof (cases "e_Type m = MsgHeartbeat")
      case True
      then show ?thesis using run 1(2) ps by (intro exI [of _ "[]"]) (simp add: msg_type_defs)
    next
      case False
      from OnEnvelope_live [OF 1(2), of lib m] obtain pongs w2 where "OnEnvelope lib i m w1 = (Ret (), w2)"
        "list_all2 answers (filter (\<lambda>m. e_Type m = MsgPing) [m]) pongs"
        "live dl clk pm inp e (out @ concat (map (wire (lib_proto lib) pm) pongs)) i w2" by blast
      then show ?thesis using run False ps by (intro exI [of _ pongs] exI [of _ w2]) simp
    qed
  qed
qed

text \<open>The first part of a turn sets the deadline; the read then happens in time.\<close>

abbreviation uses_deadline :: "Options \<Rightarrow> bool" where
  "uses_deadline opt \<equiv> 0 <s o_ReadTimeout opt"

lemma deadline_live:
  assumes "live (uses_deadline opt) clk pm inp e out i w" and "in_time opt clk"
  shows "\<exists>w' t. (if uses_deadline opt
      then bindG time_Now (\<lambda>now. upd_tcp i (\<lambda>t. t\<lparr>ts_conn := net_SetReadDeadline (read_deadline opt now) (ts_conn t)\<rparr>))
      else ret ()) w = (Ret (), w') \<and> live (uses_deadline opt) clk pm inp e out i w' \<and> n_sess w' ! i = TcpSession t \<and>
    (case nc_deadline (ts_conn t) of None \<Rightarrow> True | Some d \<Rightarrow> clk (n_reads w') < d)"
proof (cases "uses_deadline opt")
  case True
  let ?w = "w\<lparr>n_reads := Suc (n_reads w)\<rparr>" and ?d = "read_deadline opt (n_clock w (n_reads w))"
  have "live (uses_deadline opt) clk pm inp e out i ?w" using assms(1) by simp
  from set_deadline_live [OF True this, of ?d] obtain t where t: "n_sess w ! i = TcpSession t"
    "upd_tcp i (\<lambda>t. t\<lparr>ts_conn := net_SetReadDeadline ?d (ts_conn t)\<rparr>) ?w =
      (Ret (), ?w\<lparr>n_sess := (n_sess w)[i := TcpSession (t\<lparr>ts_conn := net_SetReadDeadline ?d (ts_conn t)\<rparr>)]\<rparr>)"
    "live (uses_deadline opt) clk pm inp e out i
      (?w\<lparr>n_sess := (n_sess w)[i := TcpSession (t\<lparr>ts_conn := net_SetReadDeadline ?d (ts_conn t)\<rparr>)]\<rparr>)" by auto
  have "\<not> nc_closed (ts_conn t)" using assms(1) t(1) by (auto simp: live_def)
  moreover have "clk (Suc (n_reads w)) < ?d" using assms(2) True liveD(5) [OF assms(1)] by (simp add: in_time_def)
  ultimately show ?thesis using True t net_okD(1) [OF liveD(1,2) [OF assms(1)]]
    by (simp add: net_SetReadDeadline_def)
next
  case False
  then show ?thesis using assms(1) by (auto simp: live_def)
qed

lemma live_tcp_ok: "live dl clk pm inp e out i w \<Longrightarrow> n_sess w ! i = TcpSession t \<Longrightarrow> tcp_ok t"
  using net_okD(2) by (fastforce simp: live_def Session_ok_def)

lemma get_live:
  "live dl clk pm inp e out i w \<Longrightarrow> n_sess w ! i = TcpSession t \<Longrightarrow> n_sess v = n_sess w \<Longrightarrow> get_tcp i v = (Ret t, v)"
  using net_okD(1) [OF liveD(1,2)] by (fastforce simp: get_tcp_def deref_sess_def bindG_app)

text \<open>Reading a frame that is there.\<close>

lemma turn_live:
  assumes "live (uses_deadline opt) clk pm (frame_bytes p @ rest) e out i w" and "in_time opt clk"
    and "frame_valid p" and "0 < o_MaxFrameSize opt"
  shows "\<exists>pongs w'. readLoop_turn lib i i opt w = (Ret Again, w') \<and> list_all2 answers (pings (lib_proto lib) pm opt [p]) pongs \<and>
    live (uses_deadline opt) clk pm rest e (out @ concat (map (wire (lib_proto lib) pm) pongs)) i w'"
proof -
  let ?set = "if uses_deadline opt
    then bindG time_Now (\<lambda>now. upd_tcp i (\<lambda>t. t\<lparr>ts_conn := net_SetReadDeadline (read_deadline opt now) (ts_conn t)\<rparr>))
    else ret ()"
  from deadline_live [OF assms(1,2)] obtain w1 t where 1: "?set w = (Ret (), w1)"
    "live (uses_deadline opt) clk pm (frame_bytes p @ rest) e out i w1"
    "n_sess w1 ! i = TcpSession t" "case nc_deadline (ts_conn t) of None \<Rightarrow> True | Some d \<Rightarrow> clk (n_reads w1) < d" by blast
  note l = liveD [OF 1(2)]
  have t: "tcp_ok t" "ts_protocolManager t = Some pm" "cn_in (nc_stream (ts_conn t)) = frame_bytes p @ rest"
    using live_tcp_ok [OF 1(2,3)] 1(2,3) by (auto simp: live_def)
  let ?w2 = "w1\<lparr>n_reads := Suc (n_reads w1)\<rparr>" and ?now = "n_clock w1 (n_reads w1)"
  from ReadFrame_ok [OF assms(3) t(3), of "ts_frameCodec t"] obtain fc where
    rf: "ReadFrame (ts_frameCodec t) (Some (nc_stream (ts_conn t))) = (Inr p, fc, Some ((nc_stream (ts_conn t))\<lparr>cn_in := rest\<rparr>))" by blast
  let ?t = "t\<lparr>ts_frameCodec := fc, ts_conn := (ts_conn t)\<lparr>nc_stream := (nc_stream (ts_conn t))\<lparr>cn_in := rest\<rparr>\<rparr>\<rparr>"
  have read: "tcp_ReadFrame ?now t = (Inr p, ?t)"
    using rf 1(4) l(5) by (auto simp: tcp_ReadFrame_def Let_def split: option.splits)
  let ?w3 = "?w2\<lparr>n_sess := (n_sess w1)[i := TcpSession ?t]\<rparr>"
  have "quiet ?w2 ?w3"
    using quiet_put [of ?w2 i t ?t] l 1(3) t(1) tcp_ReadFrame_ok [OF t(1), of ?now] read by (simp add: put_tcp_def set_sess_def)
  then have l3: "live (uses_deadline opt) clk pm rest e out i ?w3"
    using live_set [of "uses_deadline opt" clk pm "frame_bytes p @ rest" e out i ?w2 t ?t rest e out] 1(2,3) by (auto simp: live_def)
  from frame_live [OF l3 assms(4), of ?t lib p] t(2) obtain pongs w' where
    f: "readLoop_frame lib i i opt ?t p ?w3 = (Ret Again, w')" "list_all2 answers (pings (lib_proto lib) pm opt [p]) pongs"
      "live (uses_deadline opt) clk pm rest e (out @ concat (map (wire (lib_proto lib) pm) pongs)) i w'" by auto
  have "readLoop_turn lib i i opt w = readLoop_frame lib i i opt ?t p ?w3"
    unfolding readLoop_turn_def using read get_live [OF 1(2,3), of ?w2]
    by (simp add: thenG_Ret [where m = ?set and w = w, OF 1(1)] put_tcp_def set_sess_def)
  with f show ?thesis by auto
qed

text \<open>The end of the stream.\<close>

lemma turn_eof:
  assumes "live (uses_deadline opt) clk pm [] EOF out i w" and "in_time opt clk"
  shows "\<exists>w'. readLoop_turn lib i i opt w = (Ret Done, w') \<and> live (uses_deadline opt) clk pm [] EOF out i w'"
proof -
  let ?set = "if uses_deadline opt
    then bindG time_Now (\<lambda>now. upd_tcp i (\<lambda>t. t\<lparr>ts_conn := net_SetReadDeadline (read_deadline opt now) (ts_conn t)\<rparr>))
    else ret ()"
  from deadline_live [OF assms] obtain w1 t where 1: "?set w = (Ret (), w1)" "live (uses_deadline opt) clk pm [] EOF out i w1"
    "n_sess w1 ! i = TcpSession t" "case nc_deadline (ts_conn t) of None \<Rightarrow> True | Some d \<Rightarrow> clk (n_reads w1) < d" by blast
  note l = liveD [OF 1(2)]
  let ?w2 = "w1\<lparr>n_reads := Suc (n_reads w1)\<rparr>" and ?now = "n_clock w1 (n_reads w1)"
  have "cn_in (nc_stream (ts_conn t)) = []" "cn_end (nc_stream (ts_conn t)) = EOF" using 1(2,3) by (auto simp: live_def)
  then have read: "tcp_ReadFrame ?now t = (Inl (FrameIO EOF), t)"
    using 1(4) l(5) by (auto simp: tcp_ReadFrame_def Let_def ReadFrame_ended split: option.splits)
  have "put_tcp i t ?w2 = (Ret (), ?w2)"
    using 1(3) list_update_id [of "n_sess w1" i] by (simp add: put_tcp_def set_sess_def)
  then have "readLoop_turn lib i i opt w = (Ret Done, ?w2)"
    unfolding readLoop_turn_def using read get_live [OF 1(2,3), of ?w2]
    by (simp add: thenG_Ret [where m = ?set and w = w, OF 1(1)] readLoop_error_def quiet_read_error_def)
  then show ?thesis using 1(2) by simp
qed

definition written :: "'c net \<Rightarrow> nat \<Rightarrow> string" where
  "written w i = (case n_sess w ! i of TcpSession t \<Rightarrow> cn_out (nc_stream (ts_conn t)) | WsSession _ \<Rightarrow> [])"

lemma Close_written: "cn_out (nc_stream (ts_conn (snd (tcpSession_Close t)))) = cn_out (nc_stream (ts_conn t))"
  by (simp add: tcpSession_Close_def net_Close_def close_chan_def Let_def)

lemma exit_live:
  assumes "live dl clk pm inp e out i w"
  shows "\<exists>w'. readLoop_exit lib i i w = (Ret (), w') \<and> written w' i = out \<and> Session_closed (n_sess w' ! i) \<and> is_Tcp (n_sess w' ! i) \<and>
    manager w' = removed (sc_Id (n_ctx w ! i)) (manager w) \<and> net_ok w' \<and> i < length (n_ctx w') \<and>
    sc_Id (n_ctx w' ! i) = sc_Id (n_ctx w ! i) \<and> n_go w' = n_go w"
proof -
  note l = liveD [OF assms]
  from assms obtain t where t: "n_sess w ! i = TcpSession t" "cn_out (nc_stream (ts_conn t)) = out" by (auto simp: live_def)
  have i: "i < length (n_sess w)" by (rule net_okD(1) [OF l(1,2)])
  let ?t = "snd (tcpSession_Close t)"
  from OnSessionClose_spec [OF l(1,2), of lib] obtain w1 where w1: "OnSessionClose lib i w = (Ret (), w1)"
    "n_sess w1 = (n_sess w)[i := TcpSession ?t]" "manager w1 = removed (sc_Id (n_ctx w ! i)) (manager w)"
    "b_closeOnce (ts_base ?t)" "net_ok w1" "n_go w1 = n_go w" "n_ctx w1 = (n_ctx w)[i := closed_ctx (n_ctx w ! i)]"
    using t(1) by (auto simp: Session_Close_def session_defs)
  have s1: "n_sess w1 ! i = TcpSession ?t" "i < length (n_sess w1)" using w1(2) i by simp_all
  have "tcpSession_Close ?t = (Ret None, ?t)" using tcp_obj.close_again [of ?t] w1(4) by simp
  then have "tcp_Close i w1 = (Ret None, w1)"
    using s1 list_update_id [of "n_sess w1" i] by (simp add: tcp_Close_def get_tcp_def deref_sess_def put_tcp_def set_sess_def bindG_app)
  then have "readLoop_exit lib i i w = (Ret (), w1)" using w1(1) by (simp add: readLoop_exit_def)
  then show ?thesis using w1 s1 t(2) l(2) by (simp add: written_def Close_written session_defs closed_ctx_def is_Tcp_def)
qed

lemma turn_same:
  assumes "live dl clk pm inp e out i w" and "tcp_opt_ok opt" and "readLoop_turn lib i i opt w = (r, w')"
  shows "n_ctx w' = n_ctx w" "manager w' = manager w" "n_go w' = n_go w"
  using calmE [OF calm_turn [OF assms(2)] liveD(1,2,4) [OF assms(1)], of lib] assms(3) by (auto simp: quiet_def)

lemma readLoop_live:
  assumes "live (uses_deadline opt) clk pm (concat (map frame_bytes ps)) EOF out i w" and "in_time opt clk"
    and "list_all frame_valid ps" and "tcp_opt_ok opt"
  shows "\<exists>pongs w'. readLoop (Suc (length ps)) lib i i opt w = (Ret True, w') \<and>
    list_all2 answers (pings (lib_proto lib) pm opt ps) pongs \<and>
    written w' i = out @ concat (map (wire (lib_proto lib) pm) pongs) \<and> Session_closed (n_sess w' ! i) \<and> is_Tcp (n_sess w' ! i) \<and>
    manager w' = removed (sc_Id (n_ctx w ! i)) (manager w) \<and> net_ok w' \<and> i < length (n_ctx w') \<and>
    sc_Id (n_ctx w' ! i) = sc_Id (n_ctx w ! i) \<and> n_go w' = n_go w"
  using assms(1,3)
proof (induction ps arbitrary: out w)
  case Nil
  then have l: "live (uses_deadline opt) clk pm [] EOF out i w" by simp
  from turn_eof [OF l assms(2), of lib] obtain w1 where 1: "readLoop_turn lib i i opt w = (Ret Done, w1)"
    "live (uses_deadline opt) clk pm [] EOF out i w1" by blast
  from exit_live [OF 1(2), of lib] obtain w2 where "readLoop_exit lib i i w1 = (Ret (), w2)" "written w2 i = out"
    "Session_closed (n_sess w2 ! i)" "is_Tcp (n_sess w2 ! i)" "manager w2 = removed (sc_Id (n_ctx w1 ! i)) (manager w1)"
    "net_ok w2" "i < length (n_ctx w2)" "sc_Id (n_ctx w2 ! i) = sc_Id (n_ctx w1 ! i)" "n_go w2 = n_go w1" by blast
  with 1(1) turn_same [OF l assms(4) 1(1)] show ?case
    by (intro exI [of _ "[]"] exI [of _ w2]) (simp add: pings_def List.map_filter_def)
next
  case (Cons p ps)
  then have l: "live (uses_deadline opt) clk pm (frame_bytes p @ concat (map frame_bytes ps)) EOF out i w" by simp
  have "frame_valid p" "0 < o_MaxFrameSize opt" using Cons.prems(2) assms(4) by (simp_all add: tcp_opt_ok_def)
  from turn_live [OF l assms(2) this, of lib] obtain qs w1 where 1: "readLoop_turn lib i i opt w = (Ret Again, w1)"
    "list_all2 answers (pings (lib_proto lib) pm opt [p]) qs"
    "live (uses_deadline opt) clk pm (concat (map frame_bytes ps)) EOF (out @ concat (map (wire (lib_proto lib) pm) qs)) i w1" by blast
  from Cons.IH [OF 1(3)] Cons.prems(2) obtain rs w2 where 2: "readLoop (Suc (length ps)) lib i i opt w1 = (Ret True, w2)"
    "list_all2 answers (pings (lib_proto lib) pm opt ps) rs"
    "written w2 i = (out @ concat (map (wire (lib_proto lib) pm) qs)) @ concat (map (wire (lib_proto lib) pm) rs)"
    "Session_closed (n_sess w2 ! i)" "is_Tcp (n_sess w2 ! i)" "manager w2 = removed (sc_Id (n_ctx w1 ! i)) (manager w1)"
    "net_ok w2" "i < length (n_ctx w2)" "sc_Id (n_ctx w2 ! i) = sc_Id (n_ctx w1 ! i)" "n_go w2 = n_go w1" by auto
  have "list_all2 answers (pings (lib_proto lib) pm opt (p # ps)) (qs @ rs)"
    unfolding pings_Cons [of _ _ _ p ps] using 1(2) 2(2) by (rule list_all2_appendI)
  with 1(1) 2 turn_same [OF l assms(4) 1(1)] show ?case
    by (intro exI [of _ "qs @ rs"] exI [of _ w2]) (simp del: readLoop.simps(2) add: readLoop.simps(2) [of "Suc (length ps)"])
qed

subsection \<open>The whole connection\<close>

definition gw_ok :: "'c net \<Rightarrow> bool" where
  "gw_ok w \<longleftrightarrow> d_handlers (g_disp (n_gw w)) = (if g_initOnce (n_gw w) then [MsgPing \<mapsto> PingHandler] else Map.empty)"

lemma opened_handlers: "gw_ok w \<Longrightarrow> d_handlers (g_disp (n_gw (opened i w))) = [MsgPing \<mapsto> PingHandler]"
  by (simp add: gw_ok_def opened_def register_ping_def dispatcher_Register_def)

text \<open>
  The welcome message of a connection: the second identifier and the second clock reading that the
  connection takes, after those of its session.
\<close>

definition welcome_envelope :: "'c net \<Rightarrow> Envelope" where
  "welcome_envelope w = CreateTextMessage NewMessageFactory (n_uuid w (Suc (n_uuids w)))
     (Time_UnixMilli (n_clock w (Suc (n_reads w)))) welcome_text"

lemma welcome_live:
  assumes "live dl clk pm inp e out i w"
  shows "\<exists>w'. send_welcome lib i w = (Ret (), w') \<and>
    live dl clk pm inp e (out @ wire (lib_proto lib) pm
      (CreateTextMessage NewMessageFactory (n_uuid w (n_uuids w)) (Time_UnixMilli (n_clock w (n_reads w))) welcome_text)) i w'"
proof -
  let ?e = "CreateTextMessage NewMessageFactory (n_uuid w (n_uuids w)) (Time_UnixMilli (n_clock w (n_reads w))) welcome_text"
  let ?w = "w\<lparr>n_uuids := Suc (n_uuids w), n_reads := Suc (n_reads w)\<rparr>"
  have "live dl clk pm inp e out i ?w" using assms by simp
  from Send_live [OF this, of lib ?e] obtain r w1 where
    1: "SessionContext_Send lib i ?e ?w = (Ret r, w1)" "live dl clk pm inp e (out @ wire (lib_proto lib) pm ?e) i w1" by blast
  from log_err_live [OF 1(2)] obtain w2 where
    2: "log_err ''send_welcome_failed'' i r w1 = (Ret (), w2)" "live dl clk pm inp e (out @ wire (lib_proto lib) pm ?e) i w2" by blast
  have "send_welcome lib i w = (Ret (), w2)" using 1(1) 2(1) by (simp add: send_welcome_def)
  then show ?thesis using 2(2) by blast
qed

lemma open_live:
  assumes "net_ok w" and "gw_ok w" and "\<not> nc_closed c" and "GetTCPProtocolManager opt = Some pm"
    and "nc_stream c = \<lparr>cn_in = inp, cn_end = e, cn_out = out, cn_room = None\<rparr>" and "dl \<or> nc_deadline c = None"
  defines "n \<equiv> length (n_ctx w)"
  shows "\<exists>w'. handleConnection_open lib opt c w = (Ret (n, n), w') \<and>
    live dl (n_clock w) pm inp e (out @ wire (lib_proto lib) pm (welcome_envelope w)) n w'"
proof -
  let ?w = "alloc opt c w"
  have pm: "GetTCPProtocolManager opt \<noteq> None" using assms(4) by simp
  note al = allocated [OF assms(1,3) pm, folded n_def]
  have len: "length (n_sess w) = n" using assms(1) by (simp add: net_ok_def n_def)
  have "net_ok (opened n ?w)" using al(1) by (simp add: net_ok_def ctx_ok_def syncmap.ok_store)
  then have "live dl (n_clock w) pm inp e out n (opened n ?w)"
    using assms(2-6) len opened_handlers [of ?w n] by (simp add: live_def gw_ok_def n_def nth_append newTcpSession_def alloc_def)
  from welcome_live [OF this, of lib] obtain w' where w': "send_welcome lib n (opened n ?w) = (Ret (), w')"
    "live dl (n_clock w) pm inp e (out @ wire (lib_proto lib) pm (welcome_envelope w)) n w'"
    by (auto simp: welcome_envelope_def alloc_def)
  have n: "n < length (n_ctx ?w)" by (simp add: n_def alloc_def)
  have "OnSessionOpen lib n ?w = (Ret (), w')"
    unfolding OnSessionOpen_def using w'(1) by (simp only: bindG_Ret [where m = "deref_ctx n" and w = ?w, OF deref_ok [OF n]] open_prefix [OF n])
  with al(2) w'(2) show ?thesis by auto
qed

lemma removed_added:
  assumes "syncmap_ok (sm_Map sm)" and "Load (sm_Map sm) u = None"
  shows "sm_count (removed u (sm\<lparr>sm_Map := Store u n (sm_Map sm), sm_count := sm_count sm + 1\<rparr>)) = sm_count sm"
    "Load (sm_Map (removed u (sm\<lparr>sm_Map := Store u n (sm_Map sm), sm_count := sm_count sm + 1\<rparr>))) k = Load (sm_Map sm) k"
  using assms by (simp_all add: removed_def syncmap.load_delete syncmap.load_store syncmap.ok_store)

lemma removed_again:
  fixes n :: nat
  assumes "syncmap_ok (sm_Map sm)" and "Load (sm_Map sm) u = None"
  defines "sm' \<equiv> removed u (removed u (sm\<lparr>sm_Map := Store u n (sm_Map sm), sm_count := sm_count sm + 1\<rparr>))"
  shows "sm_count sm' = sm_count sm - 1" "Load (sm_Map sm') k = Load (sm_Map sm) k"
  using assms by (simp_all add: removed_def syncmap.load_delete syncmap.load_store syncmap.ok_store syncmap.ok_delete)

lemma handleConnection_transcript:
  assumes "net_ok w" and "gw_ok w" and "tcp_opt_ok opt" and "GetTCPProtocolManager opt = Some pm" and "in_time opt (n_clock w)"
    and "\<not> nc_closed c" and "nc_deadline c = None"
    and "nc_stream c = \<lparr>cn_in = concat (map frame_bytes ps), cn_end = EOF, cn_out = [], cn_room = None\<rparr>"
    and "list_all frame_valid ps"
  defines "n \<equiv> length (n_ctx w)" and "u \<equiv> n_uuid w (n_uuids w)"
  shows "\<exists>pongs w'. handleConnection (Suc (length ps)) lib opt c w = (Ret True, w') \<and>
    list_all2 answers (pings (lib_proto lib) pm opt ps) pongs \<and>
    written w' n = concat (map (wire (lib_proto lib) pm) (welcome_envelope w # pongs)) \<and>
    Session_closed (n_sess w' ! n) \<and> is_Tcp (n_sess w' ! n) \<and>
    manager w' = removed u ((manager w)\<lparr>sm_Map := Store u n (sm_Map (manager w)), sm_count := sm_count (manager w) + 1\<rparr>) \<and>
    net_ok w' \<and> n < length (n_ctx w') \<and> sc_Id (n_ctx w' ! n) = u \<and> n_go w' = n_go w @ [LifecycleWatcher n n, HeartbeatWatcher n]"
proof -
  from open_live [OF assms(1,2,6,4,8), of "uses_deadline opt" lib] assms(7) obtain w1 where
    1: "handleConnection_open lib opt c w = (Ret (n, n), w1)"
    "live (uses_deadline opt) (n_clock w) pm (concat (map frame_bytes ps)) EOF
       (wire (lib_proto lib) pm (welcome_envelope w)) n w1" by (auto simp: n_def)
  let ?w1 = "w1\<lparr>n_go := n_go w1 @ [LifecycleWatcher n n, HeartbeatWatcher n]\<rparr>"
  have "live (uses_deadline opt) (n_clock w) pm (concat (map frame_bytes ps)) EOF
      (wire (lib_proto lib) pm (welcome_envelope w)) n ?w1" using 1(2) by simp
  from readLoop_live [OF this assms(5,9,3), of lib] obtain pongs w2 where
    2: "readLoop (Suc (length ps)) lib n n opt ?w1 = (Ret True, w2)" "list_all2 answers (pings (lib_proto lib) pm opt ps) pongs"
    "written w2 n = wire (lib_proto lib) pm (welcome_envelope w) @ concat (map (wire (lib_proto lib) pm) pongs)"
    "Session_closed (n_sess w2 ! n)" "is_Tcp (n_sess w2 ! n)" "manager w2 = removed (sc_Id (n_ctx w1 ! n)) (manager w1)"
    "net_ok w2" "n < length (n_ctx w2)" "sc_Id (n_ctx w2 ! n) = sc_Id (n_ctx w1 ! n)"
    "n_go w2 = n_go w1 @ [LifecycleWatcher n n, HeartbeatWatcher n]" by auto
  have "GetTCPProtocolManager opt \<noteq> None" using assms(4) by simp
  from open_spec [OF assms(1,6) this, of lib] 1(1) obtain sc where "n_ctx w1 = n_ctx w @ [sc]" "sc_Id sc = u" "n_go w1 = n_go w"
    "manager w1 = (manager w)\<lparr>sm_Map := Store (sc_Id sc) n (sm_Map (manager w)), sm_count := sm_count (manager w) + 1\<rparr>"
    by (auto simp: n_def u_def)
  then have "sc_Id (n_ctx w1 ! n) = u" "n_go w1 = n_go w"
    "manager w1 = (manager w)\<lparr>sm_Map := Store u n (sm_Map (manager w)), sm_count := sm_count (manager w) + 1\<rparr>" by (simp_all add: n_def)
  moreover have "handleConnection (Suc (length ps)) lib opt c w = (Ret True, w2)"
    using 1(1) 2(1) by (simp add: handleConnection_def go_tcp_def thenG_app del: readLoop.simps)
  ultimately show ?thesis using 2(2-10) by (intro exI [of _ pongs] exI [of _ w2]) simp
qed

text \<open>
  The watcher that the end of the session wakes: its channel is closed, and it removes the session
  from the manager once more, without writing anything.
\<close>

lemma watcher_after_close:
  assumes "net_ok w" and "i < length (n_ctx w)" and "n_sess w ! i = TcpSession t" and "Session_closed (n_sess w ! i)"
  shows "ch_closed (Session_closeChan (n_sess w ! i)) \<and> (\<exists>w'. lifecycle_closed lib i w = (Ret (), w') \<and> written w' i = written w i \<and>
    Session_closed (n_sess w' ! i) \<and> manager w' = removed (sc_Id (n_ctx w ! i)) (manager w))"
proof -
  have t: "tcp_ok t" "b_closeOnce (ts_base t)"
    using net_okD(2) [OF assms(1,2)] assms(3,4) by (simp_all add: session_defs)
  from OnSessionClose_spec [OF assms(1,2), of lib] obtain w' where "OnSessionClose lib i w = (Ret (), w')"
    "n_sess w' = (n_sess w)[i := TcpSession (snd (tcpSession_Close t))]" "manager w' = removed (sc_Id (n_ctx w ! i)) (manager w)"
    "Session_closed (TcpSession (snd (tcpSession_Close t)) :: 'a Session)"
    using assms(3) by (auto simp: Session_Close_def)
  moreover have "ch_closed (Session_closeChan (n_sess w ! i))" using t assms(3) by (simp add: Session_closeChan_def tcp_ok_def)
  ultimately show ?thesis using net_okD(1) [OF assms(1,2)] assms(3)
    by (simp add: lifecycle_closed_def written_def Close_written)
qed

text \<open>
  C2: what a TCP connection gets, and what it leaves behind. A peer sends any sequence of frames with
  payloads of 1 byte to 16 MB and then closes its side; no read runs into its deadline, and no heartbeat
  tick falls into the time. Then the connection's goroutine ends after one turn per frame and one for
  the end of the stream, having started the two watchers; the server has written the welcome message
  and then exactly one pong for every ping among the frames, in order, each with the ping's sequence
  number and message id, and nothing for any other frame, decodable or not; the session is closed. The
  lifecycle watcher is then due: it writes nothing more, and afterwards the manager's sessions are as
  before the connection, but its count is one lower than before, because reader and watcher have both
  taken the session off.
\<close>

theorem tcp_transcript:
  assumes "net_ok w" and "gw_ok w" and "tcp_opt_ok opt" and "GetTCPProtocolManager opt = Some pm" and "in_time opt (n_clock w)"
    and "\<not> nc_closed c" and "nc_deadline c = None"
    and "nc_stream c = \<lparr>cn_in = concat (map frame_bytes ps), cn_end = EOF, cn_out = [], cn_room = None\<rparr>"
    and "list_all frame_valid ps" and "GetSession (n_gw w) (n_uuid w (n_uuids w)) = None"
  defines "n \<equiv> length (n_ctx w)"
  shows "\<exists>pongs w1 w2. handleConnection (Suc (length ps)) lib opt c w = (Ret True, w1) \<and>
    n_go w1 = n_go w @ [LifecycleWatcher n n, HeartbeatWatcher n] \<and>
    ch_closed (Session_closeChan (n_sess w1 ! n)) \<and> lifecycle_closed lib n w1 = (Ret (), w2) \<and>
    list_all2 answers (pings (lib_proto lib) pm opt ps) pongs \<and>
    written w2 n = concat (map (wire (lib_proto lib) pm) (welcome_envelope w # pongs)) \<and>
    Session_closed (n_sess w2 ! n) \<and>
    (\<forall>k. GetSession (n_gw w2) k = GetSession (n_gw w) k) \<and>
    SessionManager_Count (GetSessionManager (n_gw w2)) = SessionManager_Count (GetSessionManager (n_gw w)) - 1"
proof -
  let ?u = "n_uuid w (n_uuids w)"
  have sm: "syncmap_ok (sm_Map (manager w))" "Load (sm_Map (manager w)) ?u = None"
    using assms(1,10) by (auto simp: net_ok_def GetSession_def SessionManager_Get_def)
  from handleConnection_transcript [OF assms(1-9), of lib] obtain pongs w1 where
    1: "handleConnection (Suc (length ps)) lib opt c w = (Ret True, w1)" "list_all2 answers (pings (lib_proto lib) pm opt ps) pongs"
      "written w1 n = concat (map (wire (lib_proto lib) pm) (welcome_envelope w # pongs))" "Session_closed (n_sess w1 ! n)"
      "is_Tcp (n_sess w1 ! n)" "net_ok w1" "n < length (n_ctx w1)" "sc_Id (n_ctx w1 ! n) = ?u" "n_go w1 = n_go w @ [LifecycleWatcher n n, HeartbeatWatcher n]"
    and m1: "manager w1 = removed ?u ((manager w)\<lparr>sm_Map := Store ?u n (sm_Map (manager w)), sm_count := sm_count (manager w) + 1\<rparr>)"
    unfolding n_def by blast
  from 1(5) obtain t where t: "n_sess w1 ! n = TcpSession t" by (cases "n_sess w1 ! n") (simp_all add: is_Tcp_def)
  from watcher_after_close [OF 1(6,7) t 1(4), of lib] obtain w2 where
    2: "ch_closed (Session_closeChan (n_sess w1 ! n))" "lifecycle_closed lib n w1 = (Ret (), w2)" "written w2 n = written w1 n"
      "Session_closed (n_sess w2 ! n)" "manager w2 = removed ?u (manager w1)" unfolding 1(8) by blast
  show ?thesis using 1 2 removed_added [OF sm, of n] removed_again [OF sm, of n] unfolding m1
    by (intro exI [of _ pongs] exI [of _ w1] exI [of _ w2])
      (simp add: GetSession_def GetSessionManager_def SessionManager_Get_def SessionManager_Count_def)
qed

text \<open>The sequence number of a ping survives its encoding.\<close>

lemma ping_seq_json: "ping_seq (json_ping s t) = s"
proof -
  let ?ms = "[(''seq'', json_int s, JNum (json_int s)), (''timestamp'', json_int t, JNum (json_int t))]"
  have keys: "list_all plain_key [''seq'', ''timestamp'']" by code_simp
  have "json_ping s t = json_object (map (\<lambda>(k, t, v). json_member k t) ?ms)" by (simp add: json_ping_def)
  moreover have "json_Unmarshal fs (json_object (map (\<lambda>(k, t, v). json_member k t) ?ms) @ []) x =
      set_members fs (map (\<lambda>(k, t, v). (k, v)) ?ms) None x" for fs and x :: PingPayload
    by (rule json_object_reads(2)) (use keys in \<open>simp_all add: parses_int skip_ws_def\<close>)
  ultimately show ?thesis by (simp add: ping_seq_def ping_fields_def find_field_def)
qed

text \<open>
  A peer that speaks the protocol: it sends envelopes that the codec can carry, and reads frames
  and decodes them.
\<close>

definition peer_frames :: "proto_lib \<Rightarrow> Manager \<Rightarrow> Envelope list \<Rightarrow> string list" where
  "peer_frames pl pm es = map (\<lambda>e. case Manager_EncodeMessage pl pm e of Inr d \<Rightarrow> d | Inl _ \<Rightarrow> []) es"

definition sendable :: "proto_lib \<Rightarrow> Manager \<Rightarrow> int \<Rightarrow> Envelope \<Rightarrow> bool" where
  "sendable pl pm m e \<longleftrightarrow> codec_carries pl (Manager_GetCodec pm) e \<and>
     (case Manager_EncodeMessage pl pm e of Inr d \<Rightarrow> frame_valid d \<and> int (length d) \<le> m | Inl _ \<Rightarrow> False)"

lemma decoded_sendable:
  assumes "0 < o_MaxFrameSize opt" and "sendable pl pm (o_MaxFrameSize opt) e"
  shows "\<exists>d. Manager_EncodeMessage pl pm e = Inr d \<and> frame_valid d \<and> decoded pl pm opt d = Some e"
proof -
  from assms(2) obtain d where d: "Manager_EncodeMessage pl pm e = Inr d" "frame_valid d" "int (length d) \<le> o_MaxFrameSize opt"
    "codec_carries pl (Manager_GetCodec pm) e" by (auto simp: sendable_def split: sum.splits)
  then have "Codec_Encode pl (Manager_GetCodec pm) e = Inr d" by (simp add: Manager_EncodeMessage_def Manager_GetCodec_def)
  from codec.reads_back [OF d(4) this assms(1) d(3)] d show ?thesis
    by (simp add: decoded_def Manager_DecodeMessage_def Manager_GetCodec_def)
qed

lemma pings_peer_frames:
  assumes "0 < o_MaxFrameSize opt" and "list_all (sendable pl pm (o_MaxFrameSize opt)) es"
  shows "list_all frame_valid (peer_frames pl pm es) \<and> pings pl pm opt (peer_frames pl pm es) = filter (\<lambda>e. e_Type e = MsgPing) es"
  using assms(2)
proof (induction es)
  case (Cons e es)
  with decoded_sendable [OF assms(1), of pl pm e] show ?case by (auto simp: peer_frames_def pings_def List.map_filter_def)
qed (simp add: peer_frames_def pings_def List.map_filter_def)

subsection \<open>Evaluating the theorems\<close>

definition demo_pm :: Manager where
  "demo_pm = NewProtocolManager CodecJson"

definition demo_ping :: Envelope where
  "demo_ping = CreatePingMessage NewMessageFactory ''id-7'' 1 2 7"

lemma demo_gw_ok: "gw_ok demo_net"
  by (simp add: gw_ok_def demo_net_def new_net_def NewSimpleGateway_def newDispatcher_def)

lemma demo_in_time: "in_time demo_opt clk"
  by (simp add: in_time_def demo_opt_def)

lemma demo_manager: "GetTCPProtocolManager demo_opt = Some demo_pm"
  by (simp add: demo_opt_def GetTCPProtocolManager_def demo_pm_def)

lemma demo_conn_simps:
  "\<not> nc_closed (demo_conn x)" "nc_deadline (demo_conn x) = None"
  "nc_stream (demo_conn x) = \<lparr>cn_in = x, cn_end = EOF, cn_out = [], cn_room = None\<rparr>"
  by (simp_all add: demo_conn_def wire_conn_def)

lemma demo_sendable: "sendable (lib_proto demo_libs) demo_pm (o_MaxFrameSize demo_opt) demo_ping"
proof -
  have "list_all is_ascii [e_Version demo_ping, e_Type demo_ping, e_Encoding demo_ping, e_From demo_ping, e_Mid demo_ping, e_Correlation demo_ping]"
    by code_simp
  then have "list_all utf8_valid [e_Version demo_ping, e_Type demo_ping, e_Encoding demo_ping, e_From demo_ping, e_Mid demo_ping, e_Correlation demo_ping]"
    by (simp add: ascii_utf8_valid)
  moreover have "e_Type demo_ping \<noteq> []" "Manager_GetCodec demo_pm = JSONCodec" by code_simp+
  moreover have "case Manager_EncodeMessage demo_proto demo_pm demo_ping of
      Inr d \<Rightarrow> frame_valid d \<and> int (length d) \<le> o_MaxFrameSize demo_opt | Inl _ \<Rightarrow> False" by code_simp
  ultimately show ?thesis by (simp add: sendable_def codec_carries_def json_carries_def demo_libs_def)
qed

lemma demo_pings:
  "list_all frame_valid (''?'' # peer_frames (lib_proto demo_libs) demo_pm [demo_ping])"
  "pings (lib_proto demo_libs) demo_pm demo_opt (''?'' # peer_frames (lib_proto demo_libs) demo_pm [demo_ping]) = [demo_ping]"
proof -
  have "0 < o_MaxFrameSize demo_opt" by (simp add: demo_opt_def)
  note p = pings_peer_frames [OF this, of "lib_proto demo_libs" demo_pm "[demo_ping]"]
  have ty: "e_Type demo_ping = MsgPing" by (simp add: demo_ping_def CreatePingMessage_def)
  have "pm_codec demo_pm = JSONCodec" by code_simp
  then have "decoded (lib_proto demo_libs) demo_pm demo_opt ''?'' = None"
    by (simp add: decoded_def Manager_DecodeMessage_def Codec_Decode_def JSONCodec_Decode_def limit_reader_def demo_opt_def take_Cons')
  then have "pings (lib_proto demo_libs) demo_pm demo_opt [''?''] = []" by (simp add: pings_def List.map_filter_def)
  then show "list_all frame_valid (''?'' # peer_frames (lib_proto demo_libs) demo_pm [demo_ping])"
    "pings (lib_proto demo_libs) demo_pm demo_opt (''?'' # peer_frames (lib_proto demo_libs) demo_pm [demo_ping]) = [demo_ping]"
    using p demo_sendable ty pings_Cons [of _ _ _ "''?''" "peer_frames (lib_proto demo_libs) demo_pm [demo_ping]"]
    by (simp_all add: frame_valid_def MaxFrameSize_def)
qed

text \<open>The first witness sends a frame that is not an envelope, and a ping.\<close>

theorem tcp_transcript_witness:
  "\<exists>pongs w1 w2. handleConnection 3 demo_libs demo_opt
      (demo_conn (concat (map frame_bytes (''?'' # peer_frames (lib_proto demo_libs) demo_pm [demo_ping])))) demo_net = (Ret True, w1) \<and>
     n_go w1 = [LifecycleWatcher 0 0, HeartbeatWatcher 0] \<and> lifecycle_closed demo_libs 0 w1 = (Ret (), w2) \<and>
     list_all2 answers [demo_ping] pongs \<and> Session_closed (n_sess w2 ! 0) \<and>
     SessionManager_Count (GetSessionManager (n_gw w2)) = -1"
proof -
  have "GetSession (n_gw demo_net) (n_uuid demo_net (n_uuids demo_net)) = None" by code_simp
  moreover have "n_ctx demo_net = []" "n_go demo_net = []" "SessionManager_Count (GetSessionManager (n_gw demo_net)) = 0"
    "length (''?'' # peer_frames (lib_proto demo_libs) demo_pm [demo_ping]) = 2"
    by (simp_all add: demo_net_def new_net_def NewSimpleGateway_def NewSessionManager_def GetSessionManager_def SessionManager_Count_def peer_frames_def)
  ultimately show ?thesis
    using tcp_transcript [OF demo_net_ok demo_gw_ok demo_opt_ok demo_manager demo_in_time demo_conn_simps demo_pings(1), of demo_libs]
      demo_pings(2)
    by (fastforce simp del: list.map concat.simps simp: numeral_3_eq_3)
qed

text \<open>
  C14: every ping is answered. A peer sends envelopes that the configured codec can carry within
  the size limit, in frames, and closes. Then the envelopes the server sends are the welcome text
  followed by one pong per ping, in the order of the pings: the pong's correlation id is the ping's
  message id, its payload carries the ping's sequence number, and no other envelope is answered.
\<close>

theorem tcp_answers_pings:
  assumes "net_ok w" and "gw_ok w" and "tcp_opt_ok opt" and "GetTCPProtocolManager opt = Some pm" and "in_time opt (n_clock w)"
    and "\<not> nc_closed c" and "nc_deadline c = None"
    and "list_all (sendable (lib_proto lib) pm (o_MaxFrameSize opt)) es"
    and "nc_stream c = \<lparr>cn_in = concat (map frame_bytes (peer_frames (lib_proto lib) pm es)), cn_end = EOF, cn_out = [], cn_room = None\<rparr>"
  shows "\<exists>pongs w'. handleConnection (Suc (length es)) lib opt c w = (Ret True, w') \<and>
    written w' (length (n_ctx w)) =
      concat (map (wire (lib_proto lib) pm) (welcome_envelope w # pongs)) \<and>
    map e_Correlation pongs = map e_Mid (filter (\<lambda>e. e_Type e = MsgPing) es) \<and>
    map (\<lambda>e. ping_seq (e_Data e)) pongs = map (\<lambda>e. ping_seq (e_Data e)) (filter (\<lambda>e. e_Type e = MsgPing) es) \<and>
    list_all (\<lambda>e. e_Type e = MsgPong \<and> e_Encoding e = EncodingJSON) pongs"
proof -
  have "0 < o_MaxFrameSize opt" using assms(3) by (simp add: tcp_opt_ok_def)
  note pf = pings_peer_frames [OF this assms(8)]
  have len: "length (peer_frames (lib_proto lib) pm es) = length es" by (simp add: peer_frames_def)
  from handleConnection_transcript [OF assms(1-7) assms(9), of lib] pf len obtain pongs w' where
    r: "handleConnection (Suc (length es)) lib opt c w = (Ret True, w')"
    "list_all2 answers (filter (\<lambda>e. e_Type e = MsgPing) es) pongs"
    "written w' (length (n_ctx w)) = concat (map (wire (lib_proto lib) pm) (welcome_envelope w # pongs))"
    by auto
  have "map e_Correlation qs = map e_Mid xs \<and> map (\<lambda>e. ping_seq (e_Data e)) qs = map (\<lambda>e. ping_seq (e_Data e)) xs \<and>
      list_all (\<lambda>e. e_Type e = MsgPong \<and> e_Encoding e = EncodingJSON) qs" if "list_all2 answers xs qs" for xs qs
    using that by (induction rule: list_all2_induct) (auto simp: answers_def CreatePongMessage_def zero_Envelope_def ping_seq_json)
  from this [OF r(2)] r show ?thesis by (intro exI [of _ pongs] exI [of _ w']) simp
qed

theorem tcp_answers_pings_witness:
  "\<exists>(pongs :: Envelope list) w'. handleConnection 2 demo_libs demo_opt
      (demo_conn (concat (map frame_bytes (peer_frames (lib_proto demo_libs) demo_pm [demo_ping])))) demo_net = (Ret True, w') \<and>
     map e_Correlation pongs = [''id-7''] \<and> map (\<lambda>e. ping_seq (e_Data e)) pongs = [7]"
proof -
  have "list_all (sendable (lib_proto demo_libs) demo_pm (o_MaxFrameSize demo_opt)) [demo_ping]" using demo_sendable by simp
  from tcp_answers_pings [OF demo_net_ok demo_gw_ok demo_opt_ok demo_manager demo_in_time demo_conn_simps(1,2) this demo_conn_simps(3)]
  obtain pongs :: "Envelope list" and w' where "handleConnection (Suc (length [demo_ping])) demo_libs demo_opt
      (demo_conn (concat (map frame_bytes (peer_frames (lib_proto demo_libs) demo_pm [demo_ping])))) demo_net = (Ret True, w')"
    "map e_Correlation pongs = map e_Mid (filter (\<lambda>e. e_Type e = MsgPing) [demo_ping])"
    "map (\<lambda>e. ping_seq (e_Data e)) pongs = map (\<lambda>e. ping_seq (e_Data e)) (filter (\<lambda>e. e_Type e = MsgPing) [demo_ping])"
    by blast
  moreover have "e_Type demo_ping = MsgPing" "e_Mid demo_ping = ''id-7''" "ping_seq (e_Data demo_ping) = 7"
    by (simp_all add: demo_ping_def CreatePingMessage_def zero_Envelope_def ping_seq_json)
  ultimately show ?thesis by (intro exI [of _ pongs] exI [of _ w']) (simp add: numeral_2_eq_2)
qed

end
