(* ===== verification/Go_Http.thy ===== *)
theory Go_Http
  imports Go_Prelude
begin

section \<open>Routing with net/http\<close>

text \<open>
  As much of \<open>http.ServeMux\<close> as the program uses. \<open>HandleFunc\<close> panics at a pattern without a slash and
  at one that is registered already. \<open>mux_Handler\<close> is how a handler is chosen, for a path without
  escapes, among patterns that are clean slash paths (\<open>plain_path\<close>, which may be followed by one more
  slash): patterns with a method, a host, a wildcard or an escape are outside this model, and theorems
  about a configured pattern assume \<open>plain_path\<close>. A pattern that ends in a slash matches every path it
  begins, any other pattern only itself, and the longest match wins. The server recovers from a
  panic of a handler, which ends that request only.
\<close>

type_synonym 'h mux = "(string \<times> 'h) list"

definition mux_HandleFunc :: "'h mux \<Rightarrow> string \<Rightarrow> 'h \<Rightarrow> 'h mux outcome" where
  "mux_HandleFunc m p h =
     (if p = [] then Panic (ErrorPanic ''http: invalid pattern'')
      else if CHR ''/'' \<notin> set p then Panic (ErrorPanic (''parsing '' @ p @ '': host/path missing /''))
      else if p \<in> set (map fst m) then Panic (ErrorPanic (''pattern '' @ p @ '' conflicts with pattern '' @ p))
      else Ret (m @ [(p, h)]))"

text \<open>
  A clean slash path: a slash before each of its segments, which are not empty, not \<open>.\<close> or \<open>..\<close> and
  have no blank, brace or percent sign. It does not end in a slash.
\<close>

fun slash_segments :: "string \<Rightarrow> string list" where
  "slash_segments [] = [[]]"
| "slash_segments (c # cs) = (if c = CHR ''/'' then [] # slash_segments cs
     else (c # hd (slash_segments cs)) # List.tl (slash_segments cs))"

definition plain_segment :: "string \<Rightarrow> bool" where
  "plain_segment s \<longleftrightarrow> s \<notin> {[], ''.'', ''..''} \<and> list_all (\<lambda>c. c \<notin> {CHR '' '', CHR 0x09, CHR ''{'', CHR ''%''}) s"

definition plain_path :: "string \<Rightarrow> bool" where
  "plain_path p \<longleftrightarrow> take 1 p = ''/'' \<and> list_all plain_segment (slash_segments (drop 1 p))"

lemma segments_some [simp]: "slash_segments cs \<noteq> []"
  by (cases cs) simp_all

lemma one_segment: "slash_segments cs = [s] \<Longrightarrow> s = cs"
  by (induction cs arbitrary: s) (auto split: if_splits simp: Cons_eq_append_conv dest: sym, metis list.collapse segments_some)

lemma last_segment: "cs \<noteq> [] \<Longrightarrow> last cs = CHR ''/'' \<Longrightarrow> last (slash_segments cs) = []"
proof (induction cs)
  case (Cons c cs)
  then show ?case using one_segment [of cs]
    by (cases "cs = []"; cases "List.tl (slash_segments cs)"; cases "slash_segments cs") auto
qed simp

lemma plain_pathD:
  assumes "plain_path p"
  shows "p \<noteq> []" "CHR ''/'' \<in> set p" "last p \<noteq> CHR ''/''"
proof -
  from assms obtain cs where p: "p = CHR ''/'' # cs" "list_all plain_segment (slash_segments cs)"
    by (cases p) (auto simp: plain_path_def)
  have "plain_segment (last (slash_segments cs))"
    using p(2) last_segment [of cs] by (auto simp: list_all_iff)
  moreover have "cs \<noteq> []" using p(2) by (auto simp: plain_segment_def)
  ultimately show "p \<noteq> []" "CHR ''/'' \<in> set p" "last p \<noteq> CHR ''/''"
    using p(1) last_segment [of cs] by (auto simp: plain_segment_def)
qed

definition pattern_matches :: "string \<Rightarrow> string \<Rightarrow> bool" where
  "pattern_matches p path \<longleftrightarrow> (if p \<noteq> [] \<and> last p = CHR ''/'' then take (length p) path = p else p = path)"

definition mux_Handler :: "'h mux \<Rightarrow> string \<Rightarrow> 'h option" where
  "mux_Handler m path = map_option snd (foldr (\<lambda>x best. case best of
       None \<Rightarrow> Some x
     | Some y \<Rightarrow> if length (fst y) < length (fst x) then Some x else Some y)
     (filter (\<lambda>(p, _). pattern_matches p path) m) None)"

lemma mux_Handler_single: "mux_Handler [(p, h)] path = (if pattern_matches p path then Some h else None)"
  by (simp add: mux_Handler_def)

lemma pattern_matches_exact: "p = [] \<or> last p \<noteq> CHR ''/'' \<Longrightarrow> pattern_matches p path \<longleftrightarrow> path = p"
  by (auto simp: pattern_matches_def)

text \<open>
  Requests one after the other, each with what its handler is given. A path without a handler is
  answered with 404, and a handler that panics is ended by the server; neither has a result.
\<close>

definition http_recover :: "('s, 'r option) go \<Rightarrow> ('s, 'r option) go" where
  "http_recover m = (\<lambda>w. case m w of (Panic p, w') \<Rightarrow> (Ret None, w') | (Ret r, w') \<Rightarrow> (Ret r, w'))"

definition mux_ServeHTTP :: "('q \<Rightarrow> ('s, 'r option) go) mux \<Rightarrow> string \<times> 'q \<Rightarrow> ('s, 'r option) go" where
  "mux_ServeHTTP m q = (case mux_Handler m (fst q) of None \<Rightarrow> ret None | Some h \<Rightarrow> http_recover (h (snd q)))"

fun serve_requests :: "('q \<Rightarrow> ('s, 'r option) go) mux \<Rightarrow> (string \<times> 'q) list \<Rightarrow> ('s, 'r list) go" where
  "serve_requests m [] = ret []"
| "serve_requests m (q # qs) = bindG (mux_ServeHTTP m q) (\<lambda>r. bindG (serve_requests m qs) (\<lambda>rs.
     ret (case r of None \<Rightarrow> rs | Some x \<Rightarrow> x # rs)))"

lemma serve_not_found:
  assumes "mux_Handler m (fst q) = None"
  shows "serve_requests m (q # qs) = serve_requests m qs"
proof
  fix w
  show "serve_requests m (q # qs) w = serve_requests m qs w"
    using assms by (cases "serve_requests m qs w"; cases "fst (serve_requests m qs w)") (auto simp: mux_ServeHTTP_def)
qed

text \<open>The requests that no handler takes change nothing.\<close>

lemma serve_requests_routed:
  "serve_requests m qs = serve_requests m (filter (\<lambda>q. mux_Handler m (fst q) \<noteq> None) qs)"
proof (induction qs)
  case (Cons q qs)
  show ?case
  proof (cases "mux_Handler m (fst q)")
    case None
    then show ?thesis using Cons serve_not_found [of m q qs] by (simp del: serve_requests.simps(2))
  next
    case (Some h)
    then have "filter (\<lambda>q. mux_Handler m (fst q) \<noteq> None) (q # qs) = q # filter (\<lambda>q. mux_Handler m (fst q) \<noteq> None) qs" by simp
    then show ?thesis using Cons by (simp only: serve_requests.simps(2))
  qed
qed simp

text \<open>The server answers request after request, whatever the handlers do.\<close>

lemma ServeHTTP_total: "\<exists>r w'. mux_ServeHTTP m q w = (Ret r, w')"
proof (cases "mux_Handler m (fst q)")
  case (Some h)
  obtain o' w' where "h (snd q) w = (o', w')" by fastforce
  then show ?thesis using Some by (cases o') (simp_all add: mux_ServeHTTP_def http_recover_def)
qed (simp add: mux_ServeHTTP_def)

lemma serve_total: "\<exists>rs w'. serve_requests m qs w = (Ret rs, w')"
proof (induction qs arbitrary: w)
  case (Cons q qs)
  obtain r w1 where q: "mux_ServeHTTP m q w = (Ret r, w1)" using ServeHTTP_total [of m q w] by blast
  obtain rs w2 where "serve_requests m qs w1 = (Ret rs, w2)" using Cons [of w1] by blast
  with q show ?case by (simp add: bindG_def)
qed simp

lemma serve_append:
  "serve_requests m ps w = (Ret rs, w1) \<Longrightarrow> serve_requests m qs w1 = (Ret rs', w2) \<Longrightarrow>
     serve_requests m (ps @ qs) w = (Ret (rs @ rs'), w2)"
proof (induction ps arbitrary: w rs)
  case (Cons p ps)
  obtain r w3 where p: "mux_ServeHTTP m p w = (Ret r, w3)" using ServeHTTP_total [of m p w] by blast
  obtain rs1 w4 where ps: "serve_requests m ps w3 = (Ret rs1, w4)" using serve_total [of m ps w3] by blast
  have "w4 = w1" "rs = (case r of None \<Rightarrow> rs1 | Some x \<Rightarrow> x # rs1)" using Cons.prems(1) p ps by (auto simp: bindG_def)
  then show ?case using Cons.IH [OF _ Cons.prems(2)] p ps by (simp add: bindG_def split: option.split)
qed simp

end
