(* ===== verification/Ws_Transport.thy ===== *)
theory Ws_Transport
  imports Gateways Go_Http
begin

section \<open>The WebSocket server (internal/transport/ws.go)\<close>

text \<open>
  The set-up of a WebSocket connection, its heartbeat and its reader. The connection's methods and
  the result of the protocol upgrade belong to the package gorilla/websocket and are parameters.
\<close>

subsection \<open>The server (NewWebSocketServer, Name)\<close>

record WebSocketServer =
  wsv_Path :: string

definition NewWebSocketServer :: "string \<Rightarrow> WebSocketServer" where
  "NewWebSocketServer path = \<lparr>wsv_Path = (if path = [] then ''/ws'' else path)\<rparr>"

definition WebSocketServer_Name :: "WebSocketServer \<Rightarrow> string" where
  "WebSocketServer_Name s = WebSocket"

subsection \<open>Access to the session object\<close>

definition get_ws :: "nat \<Rightarrow> ('c net, 'c wsSession) go" where
  "get_ws a = bindG (deref_sess a) (\<lambda>s. case s of WsSession v \<Rightarrow> ret v | TcpSession _ \<Rightarrow> panicG TypeAssertion)"

definition put_ws :: "nat \<Rightarrow> 'c wsSession \<Rightarrow> ('c net, unit) go" where
  "put_ws a v = set_sess a (WsSession v)"

definition ws_conn_call :: "nat \<Rightarrow> ('c \<Rightarrow> 'a \<times> 'c) \<Rightarrow> ('c net, 'a) go" where
  "ws_conn_call a f = bindG (get_ws a) (\<lambda>v. case f (wss_conn v) of (r, c) \<Rightarrow>
     thenG (put_ws a (v\<lparr>wss_conn := c\<rparr>)) (ret r))"

definition ws_session_Close :: "'c libs \<Rightarrow> nat \<Rightarrow> ('c net, trans_err option) go" where
  "ws_session_Close lib a = bindG (get_ws a) (\<lambda>v. case wsSession_Close (lib_ws lib) v of (r, v') \<Rightarrow>
     thenG (put_ws a v') (case r of Ret e \<Rightarrow> ret e | Panic p \<Rightarrow> panicG p))"

subsection \<open>The heartbeat (setupHeartbeat)\<close>

definition ws_timeout :: "Options \<Rightarrow> Duration" where
  "ws_timeout opt = (if 0 <s o_ReadTimeout opt then o_ReadTimeout opt else 60 * time_Second)"

definition setupHeartbeat :: "'c libs \<Rightarrow> nat \<Rightarrow> Options \<Rightarrow> ('c net, unit) go" where
  "setupHeartbeat lib s opt =
     bindG time_Now (\<lambda>now.
     thenG (ws_conn_call s (ws_SetReadDeadline (lib_ws lib) (Time_Add now (ws_timeout opt))))
    (bindG (get_ws s) (\<lambda>v. put_ws s (v\<lparr>wss_pongTimeout := Some (ws_timeout opt)\<rparr>))))"

text \<open>The pong handler, when the library calls it; it returns what \<open>SetReadDeadline\<close> reports.\<close>

definition pong_handler :: "'c libs \<Rightarrow> nat \<Rightarrow> ('c net, io_err option) go" where
  "pong_handler lib s = bindG (get_ws s) (\<lambda>v. case wss_pongTimeout v of
     None \<Rightarrow> ret None
   | Some timeout \<Rightarrow> bindG time_Now (\<lambda>now. ws_conn_call s (ws_SetReadDeadline (lib_ws lib) (Time_Add now timeout))))"

text \<open>The pinging goroutine: a tick sends a ping; it ends when the channel is closed.\<close>

definition ws_ping_tick :: "'c libs \<Rightarrow> nat \<Rightarrow> ('c net, unit) go" where
  "ws_ping_tick lib s = bindG time_Now (\<lambda>now.
     thenG (ws_conn_call s (ws_WriteControl (lib_ws lib) PingMessage ''ping'' (Time_Add now (5 * time_Second)))) (ret ()))"

definition ws_ping_ends :: "'c wsSession \<Rightarrow> bool" where
  "ws_ping_ends v \<longleftrightarrow> ch_closed (wss_closeChan v)"

subsection \<open>The reader (readLoop, handleLegacyTextMessage)\<close>

definition handleLegacyTextMessage :: "'c libs \<Rightarrow> nat \<Rightarrow> nat \<Rightarrow> string \<Rightarrow> ('c net, unit) go" where
  "handleLegacyTextMessage lib s sc txt =
     (if txt = [] then ret ()
      else bindG (get_ws s) (\<lambda>v. case wss_protocolManager v of
        None \<Rightarrow> panicG NilDereference
      | Some pm \<Rightarrow>
         (let factory = Manager_GetMessageFactory pm in
          bindG uuid_New (\<lambda>u. bindG time_Now (\<lambda>now.
            OnEnvelope lib sc
              (if 0 < length txt \<and> txt ! 0 = CHR ''/'' then CreateCommandMessage factory u (Time_UnixMilli now) txt
               else CreateTextMessage factory u (Time_UnixMilli now) txt))))))"

text \<open>A text message: an envelope goes to the gateway, anything else is a message of an old client.\<close>

definition ws_message :: "'c libs \<Rightarrow> nat \<Rightarrow> nat \<Rightarrow> Options \<Rightarrow> string \<Rightarrow> ('c net, unit) go" where
  "ws_message lib s sc opt data = bindG (get_ws s) (\<lambda>v. case wss_protocolManager v of
     None \<Rightarrow> panicG NilDereference
   | Some pm \<Rightarrow>
      (case Manager_DecodeMessage (lib_proto lib) pm data zero_Envelope (o_MaxFrameSize opt) of
         Panic p \<Rightarrow> panicG p
       | Ret (err, envelope) \<Rightarrow>
           if err = None \<and> e_Type envelope \<noteq> [] then OnEnvelope lib sc envelope
           else handleLegacyTextMessage lib s sc data))"

text \<open>One turn; \<open>False\<close> ends the loop.\<close>

definition ws_readLoop_turn :: "'c libs \<Rightarrow> nat \<Rightarrow> nat \<Rightarrow> Options \<Rightarrow> ('c net, bool) go" where
  "ws_readLoop_turn lib s sc opt = bindG (ws_conn_call s (ws_ReadMessage (lib_ws lib))) (\<lambda>r. case r of
     Inl err \<Rightarrow> bindG (get_ws s) (\<lambda>v.
       thenG (if Base_State (wss_base v) = SessionStateActive
              then log_line ''websocket_read_error'' (Base_ID (wss_base v)) else ret ()) (ret False))
   | Inr (mt, data) \<Rightarrow>
       if mt \<noteq> TextMessage then ret True else thenG (ws_message lib s sc opt data) (ret True))"

definition ws_readLoop_exit :: "'c libs \<Rightarrow> nat \<Rightarrow> nat \<Rightarrow> ('c net, unit) go" where
  "ws_readLoop_exit lib s sc = thenG (OnSessionClose lib sc) (thenG (ws_session_Close lib s) (ret ()))"

text \<open>With a bound on the number of turns; \<open>False\<close> is a loop that has not ended within it.\<close>

fun ws_readLoop :: "nat \<Rightarrow> 'c libs \<Rightarrow> nat \<Rightarrow> nat \<Rightarrow> Options \<Rightarrow> ('c net, bool) go" where
  "ws_readLoop 0 lib s sc opt = ret False"
| "ws_readLoop (Suc n) lib s sc opt = (\<lambda>w. case ws_readLoop_turn lib s sc opt w of
     (Ret True, w') \<Rightarrow> ws_readLoop n lib s sc opt w'
   | (Ret False, w') \<Rightarrow> thenG (ws_readLoop_exit lib s sc) (ret True) w'
   | (Panic p, w') \<Rightarrow> (case ws_readLoop_exit lib s sc w' of
        (Panic q, w'') \<Rightarrow> (Panic q, w'')
      | (Ret _, w'') \<Rightarrow> (Panic p, w'')))"

subsection \<open>A new connection (handleConnection)\<close>

text \<open>
  The upgrade gives a connection or an error. Returns the pointers for which the reader is
  started, or nothing after a failed upgrade.
\<close>

definition ws_handleConnection :: "'c libs \<Rightarrow> Options \<Rightarrow> io_err + 'c \<Rightarrow> ('c net, (nat \<times> nat) option) go" where
  "ws_handleConnection lib opt upgraded = (case upgraded of
     Inl err \<Rightarrow> thenG (log_line ''websocket_upgrade_error'' []) (ret None)
   | Inr c \<Rightarrow>
       bindG uuid_New (\<lambda>uid. bindG (getG (\<lambda>w. length (n_sess w))) (\<lambda>s.
         thenG (modifyG (\<lambda>w. w\<lparr>n_sess := n_sess w @ [WsSession (newWsSession (lib_ws lib) uid c (GetWSProtocolManager opt))]\<rparr>))
        (bindG (NewSessionContext s) (\<lambda>sc.
           thenG (OnSessionOpen lib sc)
          (thenG (setupHeartbeat lib s opt)
          (ret (Some (s, sc)))))))))"

subsection \<open>Starting (Start)\<close>

text \<open>
  \<open>ListenAndServe\<close> listens on port http when there is no address, and returns the error of
  listening, or the error of a closed server once the goroutine that waits for the context has shut it
  down. What happens to a listening server is a sequence of events: a request, a path with the result
  of its upgrade, or the end of the context. The end of the context closes the listener, so later
  requests are not served. The set-up of a connection is one step here; what the goroutines of the
  connections do beside each other is the subject of \<open>Ws_System\<close>. Returns the pointers of the started
  readers, and no error (\<open>None\<close>) while the server is still waiting.
\<close>

datatype 'c ws_event =
    WsRequest string "io_err + 'c"
  | ContextDone

definition http_ErrServerClosed :: io_err where
  "http_ErrServerClosed = ConnError ''http: Server closed''"

fun ws_serve :: "(io_err + 'c \<Rightarrow> ('s, 'r option) go) mux \<Rightarrow> 'c ws_event list \<Rightarrow> ('s, 'r list \<times> io_err option) go" where
  "ws_serve m [] = ret ([], None)"
| "ws_serve m (ContextDone # evs) = ret ([], Some http_ErrServerClosed)"
| "ws_serve m (WsRequest path up # evs) = bindG (mux_ServeHTTP m (path, up)) (\<lambda>r. bindG (ws_serve m evs) (\<lambda>(rs, e).
     ret (case r of None \<Rightarrow> rs | Some x \<Rightarrow> x # rs, e)))"

definition WebSocketServer_Start ::
  "'c libs \<Rightarrow> WebSocketServer \<Rightarrow> string \<Rightarrow> Options \<Rightarrow> (string \<Rightarrow> io_err option) \<Rightarrow> 'c ws_event list \<Rightarrow>
    ('c net, (nat \<times> nat) list \<times> io_err option) go" where
  "WebSocketServer_Start lib ws addr opt listen evs =
     (case mux_HandleFunc [] (wsv_Path ws) (ws_handleConnection lib opt) of
        Panic p \<Rightarrow> panicG p
      | Ret m \<Rightarrow>
          thenG (log_line ''websocket_listen'' (wsv_Path ws))
         (case listen (if addr = [] then '':http'' else addr) of
            Some e \<Rightarrow> ret ([], Some e)
          | None \<Rightarrow> ws_serve m evs))"

end
