(* ===== verification/Ws_Properties.thy ===== *)
theory Ws_Properties
  imports Ws_Transport Tcp_Transcript
begin

section \<open>Properties of the WebSocket server\<close>

text \<open>
  What becomes of a text message, and the end of a connection: the reader ends with the peer's
  messages, closes the session and takes it out of the session manager exactly once.
\<close>

subsection \<open>Messages\<close>

lemma get_ws_app: "n_sess w ! s = WsSession v \<Longrightarrow> s < length (n_sess w) \<Longrightarrow> get_ws s w = (Ret v, w)"
  by (simp add: get_ws_def deref_sess_def bindG_app)

text \<open>The envelope that a text message of an old client becomes.\<close>

definition legacy_envelope :: "Manager \<Rightarrow> string \<Rightarrow> int64 \<Rightarrow> string \<Rightarrow> Envelope" where
  "legacy_envelope pm u now txt =
     (if txt ! 0 = CHR ''/'' then CreateCommandMessage (Manager_GetMessageFactory pm) u now txt
      else CreateTextMessage (Manager_GetMessageFactory pm) u now txt)"

lemma legacy_run:
  assumes "n_sess w ! s = WsSession v" and "s < length (n_sess w)" and "wss_protocolManager v = Some pm" and "txt \<noteq> []"
  shows "handleLegacyTextMessage lib s sc txt w =
    OnEnvelope lib sc (legacy_envelope pm (n_uuid w (n_uuids w)) (Time_UnixMilli (n_clock w (n_reads w))) txt)
      (w\<lparr>n_uuids := Suc (n_uuids w), n_reads := Suc (n_reads w)\<rparr>)"
  using assms by (simp add: handleLegacyTextMessage_def legacy_envelope_def get_ws_app Let_def)

lemma decode_not_object:
  assumes "take 1 d \<noteq> ''{''"
  shows "\<exists>err e'. JSONCodec_Decode d e m = (Some err, e')"
proof (cases "limit_reader m d")
  case Nil
  then show ?thesis by (simp add: JSONCodec_Decode_def)
next
  case (Cons c r)
  then have "take 1 d = [c]" by (cases d; cases "nat m") (auto simp: limit_reader_def split: if_splits)
  with assms have "c \<noteq> CHR ''{''" by simp
  then show ?thesis using Cons by (simp add: JSONCodec_Decode_def)
qed

lemma decoded_type: "JSONCodec_Decode r e m = (None, e') \<Longrightarrow> e_Type e' \<noteq> []"
  by (auto simp: JSONCodec_Decode_def split: list.splits prod.splits option.splits if_splits)

text \<open>What the reader does with a text, by the outcome of decoding it.\<close>

lemma ws_message_outcome:
  assumes "n_sess w ! s = WsSession v" and "s < length (n_sess w)" and "wss_protocolManager v = Some pm" and "pm_codec pm = JSONCodec"
  shows "JSONCodec_Decode msg zero_Envelope (o_MaxFrameSize opt) = (None, e') \<Longrightarrow> ws_message lib s sc opt msg w = OnEnvelope lib sc e' w"
    "JSONCodec_Decode msg zero_Envelope (o_MaxFrameSize opt) = (Some err, e') \<Longrightarrow>
      ws_message lib s sc opt msg w = handleLegacyTextMessage lib s sc msg w"
  using assms decoded_type by (auto simp: ws_message_def get_ws_app Manager_DecodeMessage_def Codec_Decode_def)

text \<open>
  C19: what a WebSocket text message becomes. With the JSON codec, and for every text the peer
  sends: a text that decodes within the limit reaches the gateway as the envelope it decodes to, which for an
  encoded envelope that the codec can carry is that envelope; every other non-empty text, that is one at which
  the decoder reports an error, even after it has read a type, and in particular every text that does not
  start with a brace, reaches it as a command message when it starts with a
  slash and as a text message otherwise, with the text as its payload; and an empty message is
  dropped without any effect.
\<close>

theorem ws_message_delivery:
  assumes "n_sess w ! s = WsSession v" and "s < length (n_sess w)" and "wss_protocolManager v = Some pm" and "pm_codec pm = JSONCodec"
  shows "(json_carries e \<and> (o_MaxFrameSize opt \<le> 0 \<or> int (length (json_envelope e)) \<le> o_MaxFrameSize opt) \<longrightarrow>
      ws_message lib s sc opt (JSONCodec_Encode e) w = OnEnvelope lib sc e w) \<and>
    (JSONCodec_Decode msg zero_Envelope (o_MaxFrameSize opt) = (None, e') \<longrightarrow>
      ws_message lib s sc opt msg w = OnEnvelope lib sc e' w) \<and>
    (msg \<noteq> [] \<and> (fst (JSONCodec_Decode msg zero_Envelope (o_MaxFrameSize opt)) \<noteq> None \<or> take 1 msg \<noteq> ''{'') \<longrightarrow>
      ws_message lib s sc opt msg w =
        OnEnvelope lib sc (legacy_envelope pm (n_uuid w (n_uuids w)) (Time_UnixMilli (n_clock w (n_reads w))) msg)
          (w\<lparr>n_uuids := Suc (n_uuids w), n_reads := Suc (n_reads w)\<rparr>)) \<and>
    ws_message lib s sc opt [] w = (Ret (), w)"
proof (intro conjI impI)
  note out = ws_message_outcome [OF assms]
  {
    assume e: "json_carries e \<and> (o_MaxFrameSize opt \<le> 0 \<or> int (length (json_envelope e)) \<le> o_MaxFrameSize opt)"
    then have "valid_envelope e = e" "e_Type e \<noteq> []" by (simp_all add: json_carries_def valid_envelope_def to_valid_id)
    with e JSONCodec_Decode_Encode [of e "o_MaxFrameSize opt" "[]"]
    show "ws_message lib s sc opt (JSONCodec_Encode e) w = OnEnvelope lib sc e w" by (intro out(1)) simp
  next
    assume "JSONCodec_Decode msg zero_Envelope (o_MaxFrameSize opt) = (None, e')"
    then show "ws_message lib s sc opt msg w = OnEnvelope lib sc e' w" by (rule out(1))
  next
    assume t: "msg \<noteq> [] \<and> (fst (JSONCodec_Decode msg zero_Envelope (o_MaxFrameSize opt)) \<noteq> None \<or> take 1 msg \<noteq> ''{'')"
    then obtain err e1 where "JSONCodec_Decode msg zero_Envelope (o_MaxFrameSize opt) = (Some err, e1)"
      using decode_not_object [of msg zero_Envelope "o_MaxFrameSize opt"] by (cases "JSONCodec_Decode msg zero_Envelope (o_MaxFrameSize opt)") auto
    with t show "ws_message lib s sc opt msg w =
        OnEnvelope lib sc (legacy_envelope pm (n_uuid w (n_uuids w)) (Time_UnixMilli (n_clock w (n_reads w))) msg)
          (w\<lparr>n_uuids := Suc (n_uuids w), n_reads := Suc (n_reads w)\<rparr>)"
      using out(2) legacy_run [OF assms(1-3)] by simp
  next
    from decode_not_object [of "[]" zero_Envelope "o_MaxFrameSize opt"] out(2) [of "[]" opt]
    show "ws_message lib s sc opt [] w = (Ret (), w)" by (auto simp: handleLegacyTextMessage_def)
  }
qed

definition demo_wss :: "unit wsSession" where
  "demo_wss = newWsSession demo_ws ''ws-1'' () (Some demo_pm)"

text \<open>The witness sends a text whose type is read before the decoder fails at the time.\<close>

definition demo_bad :: string where
  "demo_bad = json_object [json_member ''type'' (json_string ''text''), json_member ''ts'' (json_string ''x'')]"

lemma demo_bad_decode:
  "JSONCodec_Decode demo_bad zero_Envelope (o_MaxFrameSize demo_opt) = (Some (JsonDecode JTypeMismatch), zero_Envelope\<lparr>e_Type := ''text''\<rparr>)"
proof -
  let ?ms = "[(''type'', json_string ''text'', JStr (to_valid ''text'')), (''ts'', json_string ''x'', JStr (to_valid ''x''))]"
  have keys: "plain_key ''type''" "plain_key ''ts''" and valid: "to_valid ''text'' = ''text''" by code_simp+
  have find: "find_field envelope_fields ''type'' = Some (''type'', set_string (\<lambda>s e. e\<lparr>e_Type := s\<rparr>))"
    "find_field envelope_fields ''ts'' = Some (''ts'', set_int64 (\<lambda>i e. e\<lparr>e_Ts := i\<rparr>))"
    by (simp_all add: find_field_def envelope_fields_def)
  have "demo_bad = json_object (map (\<lambda>(k, t, v). json_member k t) ?ms) @ []" by (simp add: demo_bad_def)
  moreover have "json_Decode envelope_fields (json_object (map (\<lambda>(k, t, v). json_member k t) ?ms) @ []) zero_Envelope =
      set_members envelope_fields (map (\<lambda>(k, t, v). (k, v)) ?ms) None zero_Envelope"
    by (rule json_object_reads(1)) (simp_all add: keys parses_string)
  ultimately have "json_Decode envelope_fields demo_bad zero_Envelope = (Some JTypeMismatch, zero_Envelope\<lparr>e_Type := ''text''\<rparr>)"
    by (simp add: find valid set_int64_def)
  moreover have "int (length demo_bad) \<le> o_MaxFrameSize demo_opt" "take 1 demo_bad = ''{''" by code_simp+
  then have "limit_reader (o_MaxFrameSize demo_opt) demo_bad = demo_bad" "take 1 demo_bad = ''{''" by (simp_all add: limit_reader_def)
  moreover have "JSONCodec_Decode d zero_Envelope m = (Some (JsonDecode err), e)"
    if "json_Decode envelope_fields d zero_Envelope = (Some err, e)" "limit_reader m d = d" "take 1 d = ''{''" for d m err e
    using that by (cases d) (simp_all add: JSONCodec_Decode_def)
  ultimately show ?thesis by blast
qed

theorem ws_message_delivery_witness:
  "e_Type (snd (JSONCodec_Decode demo_bad zero_Envelope (o_MaxFrameSize demo_opt))) = ''text'' \<and>
   ws_message demo_libs 0 0 demo_opt demo_bad (demo_net\<lparr>n_sess := [WsSession demo_wss]\<rparr>) =
     OnEnvelope demo_libs 0 (CreateTextMessage NewMessageFactory (demo_uuid 0) (Time_UnixMilli (demo_clock 0)) demo_bad)
       (demo_net\<lparr>n_sess := [WsSession demo_wss], n_uuids := 1, n_reads := 1\<rparr>)"
proof -
  have "wss_protocolManager demo_wss = Some demo_pm" by (simp add: demo_wss_def newWsSession_def)
  moreover have "pm_codec demo_pm = JSONCodec" "Manager_GetMessageFactory demo_pm = NewMessageFactory" by code_simp+
  moreover have "demo_bad \<noteq> []" "demo_bad ! 0 \<noteq> CHR ''/''" by code_simp+
  ultimately show ?thesis
    using ws_message_delivery [of "demo_net\<lparr>n_sess := [WsSession demo_wss]\<rparr>" 0 demo_wss demo_pm zero_Envelope demo_opt demo_libs 0 demo_bad]
      demo_bad_decode by (simp add: legacy_envelope_def demo_net_def new_net_def)
qed

subsection \<open>The end of a connection\<close>

text \<open>
  The connection library as far as the reader's end depends on it: \<open>left c\<close> bounds the messages
  that can still be read from a connection; reading a message uses one up and writing adds none.
\<close>

definition writes_add_none :: "'c ws_lib \<Rightarrow> ('c \<Rightarrow> nat) \<Rightarrow> bool" where
  "writes_add_none wl left \<longleftrightarrow> (\<forall>c mt d. left (snd (ws_WriteMessage wl mt d c)) \<le> left c)"

definition finite_input :: "'c ws_lib \<Rightarrow> ('c \<Rightarrow> nat) \<Rightarrow> bool" where
  "finite_input wl left \<longleftrightarrow>
     (\<forall>c m c'. ws_ReadMessage wl c = (Inr m, c') \<longrightarrow> left c' < left c) \<and>
     (\<forall>c e c'. ws_ReadMessage wl c = (Inl e, c') \<longrightarrow> left c' \<le> left c) \<and>
     writes_add_none wl left"

lemma finite_writes: "finite_input wl left \<Longrightarrow> writes_add_none wl left"
  by (simp add: finite_input_def)

definition ws_left :: "('c \<Rightarrow> nat) \<Rightarrow> nat \<Rightarrow> 'c net \<Rightarrow> nat" where
  "ws_left left i w = (case n_sess w ! i of WsSession v \<Rightarrow> left (wss_conn v) | TcpSession _ \<Rightarrow> 0)"

text \<open>Calm computations that add no input to connection \<open>i\<close>.\<close>

definition drains :: "('c \<Rightarrow> nat) \<Rightarrow> nat \<Rightarrow> ('c net, 'a) go \<Rightarrow> bool" where
  "drains left i m \<longleftrightarrow> (\<forall>w. net_ok w \<longrightarrow> i < length (n_ctx w) \<longrightarrow> is_Tcp (n_sess w ! i) = False \<longrightarrow>
     (\<exists>r w'. m w = (Ret r, w') \<and> quiet w w' \<and> ws_left left i w' \<le> ws_left left i w))"

named_theorems drain_rules \<open>computations that add no input\<close>

lemma drainsI:
  assumes "\<And>w. net_ok w \<Longrightarrow> i < length (n_ctx w) \<Longrightarrow> is_Tcp (n_sess w ! i) = False \<Longrightarrow>
    \<exists>r w'. m w = (Ret r, w') \<and> quiet w w' \<and> ws_left left i w' \<le> ws_left left i w"
  shows "drains left i m"
  using assms by (simp add: drains_def)

lemma drainsE:
  assumes "drains left i m" and "net_ok w" and "i < length (n_ctx w)" and "is_Tcp (n_sess w ! i) = False"
  obtains r w' where "m w = (Ret r, w')" and "quiet w w'" and "ws_left left i w' \<le> ws_left left i w"
  using assms unfolding drains_def by blast

lemma drains_bind [drain_rules]:
  assumes "drains left i m" and "\<And>x. drains left i (f x)"
  shows "drains left i (bindG m f)"
proof (rule drainsI)
  fix w :: "'a net"
  assume w: "net_ok w" "i < length (n_ctx w)" "is_Tcp (n_sess w ! i) = False"
  from assms(1) w obtain x w' where 1: "m w = (Ret x, w')" "quiet w w'" "ws_left left i w' \<le> ws_left left i w" by (rule drainsE)
  then have "net_ok w'" "i < length (n_ctx w')" "is_Tcp (n_sess w' ! i) = False" using w by (auto simp: quiet_def)
  with assms(2) [of x] obtain y w'' where "f x w' = (Ret y, w'')" "quiet w' w''" "ws_left left i w'' \<le> ws_left left i w'" by (rule drainsE)
  with 1 show "\<exists>r w'. bindG m f w = (Ret r, w') \<and> quiet w w' \<and> ws_left left i w' \<le> ws_left left i w"
    using quiet_trans [of w w' w''] by auto
qed

lemma drains_then [drain_rules]: "drains left i m \<Longrightarrow> drains left i n \<Longrightarrow> drains left i (thenG m n)"
  unfolding thenG_def by (rule drains_bind)

lemma drains_if [drain_rules]: "(b \<Longrightarrow> drains left i m) \<Longrightarrow> (\<not> b \<Longrightarrow> drains left i n) \<Longrightarrow> drains left i (if b then m else n)"
  by simp

lemma drains_small [drain_rules]:
  "drains left i (ret x)" "drains left i (getG f)" "drains left i (log_line key arg)" "drains left i uuid_New" "drains left i time_Now"
  "drains left i (deref_ctx i)"
  by (auto intro!: drainsI simp: quiet_def ws_left_def deref_ctx_def)

lemma drains_log_err [drain_rules]: "drains left i (log_err key i err)"
  unfolding log_err_def by (cases err) (auto intro: drain_rules)

lemma drains_Send [drain_rules]:
  assumes "writes_add_none (lib_ws lib) left"
  shows "drains left i (SessionContext_Send lib i e)"
proof (rule drainsI)
  fix w :: "'a net"
  assume w: "net_ok w" "i < length (n_ctx w)" "is_Tcp (n_sess w ! i) = False"
  have "calm False i (SessionContext_Send lib i e)" by (rule calm_Send)
  from calmE [OF this w] obtain r w' where r: "SessionContext_Send lib i e w = (Ret r, w')" "quiet w w'" .
  from w(3) obtain v where v: "n_sess w ! i = WsSession v" by (cases "n_sess w ! i") (simp_all add: is_Tcp_def)
  obtain r0 v' where s: "wsSession_SendEnvelope (lib_proto lib) (lib_ws lib) e v = (r0, v')" by fastforce
  have "left (wss_conn (snd (wsSession_SendEnvelope (lib_proto lib) (lib_ws lib) e v))) \<le> left (wss_conn v)"
    using assms by (auto simp: wsSession_SendEnvelope_def writes_add_none_def split: option.split sum.split prod.split) (metis snd_conv)
  then have "ws_left left i w' \<le> ws_left left i w"
    using r v s net_okD [OF w(1,2)] w(2)
    by (auto simp: SessionContext_Send_def deref_ok on_sess_def Session_SendEnvelope_def ws_left_def bindG_app
        split: if_splits prod.splits)
  with r show "\<exists>r w'. SessionContext_Send lib i e w = (Ret r, w') \<and> quiet w w' \<and> ws_left left i w' \<le> ws_left left i w" by blast
qed

lemma drains_OnEnvelope [drain_rules]:
  assumes "writes_add_none (lib_ws lib) left"
  shows "drains left i (OnEnvelope lib i msg)"
proof -
  have "drains left i (case h of Some f \<Rightarrow> run_handler lib f i msg | None \<Rightarrow> log_line ''no handler for message type'' (e_Type msg))" for h
    by (cases h) (auto simp: run_handler_def ping_handler_def intro!: drain_rules assms split: HandlerFunc.split)
  then show ?thesis unfolding OnEnvelope_def dispatcher_Dispatch_def by (intro drain_rules)
qed

lemma get_ws_run:
  assumes "net_ok w" and "i < length (n_ctx w)" and "is_Tcp (n_sess w ! i) = False"
  obtains v where "n_sess w ! i = WsSession v" and "get_ws i w = (Ret v, w)" and "ws_ok v" and "ws_left left i w = left (wss_conn v)"
proof -
  from assms(3) obtain v where v: "n_sess w ! i = WsSession v" by (cases "n_sess w ! i") (simp_all add: is_Tcp_def)
  with net_okD [OF assms(1,2)] show thesis by (intro that [of v]) (simp_all add: get_ws_app ws_left_def session_defs)
qed

lemma drains_get:
  assumes "\<And>v. ws_ok v \<Longrightarrow> drains left i (f v)"
  shows "drains left i (bindG (get_ws i) f)"
proof (rule drainsI)
  fix w :: "'a net"
  assume w: "net_ok w" "i < length (n_ctx w)" "is_Tcp (n_sess w ! i) = False"
  from get_ws_run [OF w] obtain v where v: "get_ws i w = (Ret v, w)" "ws_ok v" .
  from assms [OF v(2)] w obtain r w' where "f v w = (Ret r, w')" "quiet w w'" "ws_left left i w' \<le> ws_left left i w" by (rule drainsE)
  with v(1) show "\<exists>r w'. bindG (get_ws i) f w = (Ret r, w') \<and> quiet w w' \<and> ws_left left i w' \<le> ws_left left i w" by auto
qed

lemma drains_message [drain_rules]:
  assumes "writes_add_none (lib_ws lib) left" and "0 \<le> o_MaxFrameSize opt"
  shows "drains left i (ws_message lib i i opt d)"
proof -
  have legacy: "drains left i (handleLegacyTextMessage lib i i d)"
    unfolding handleLegacyTextMessage_def
    by (intro drain_rules drains_get) (auto simp: ws_ok_def Let_def intro!: drain_rules assms(1))
  have dec: "\<exists>err e'. Manager_DecodeMessage (lib_proto lib) pm d zero_Envelope (o_MaxFrameSize opt) = Ret (err, e')" for pm
    using assms(2) by (cases "JSONCodec_Decode d zero_Envelope (o_MaxFrameSize opt)")
      (auto simp: Manager_DecodeMessage_def Codec_Decode_def ProtobufCodec_Decode_def split: option.split MessageCodec.split)
  show ?thesis
    unfolding ws_message_def
  proof (rule drains_get)
    fix v :: "'a wsSession"
    assume "ws_ok v"
    then obtain pm where pm: "wss_protocolManager v = Some pm" by (auto simp: ws_ok_def)
    from dec [of pm] obtain err e' where
      "Manager_DecodeMessage (lib_proto lib) pm d zero_Envelope (o_MaxFrameSize opt) = Ret (err, e')" by blast
    with pm show "drains left i (case wss_protocolManager v of None \<Rightarrow> panicG NilDereference
      | Some pm \<Rightarrow> (case Manager_DecodeMessage (lib_proto lib) pm d zero_Envelope (o_MaxFrameSize opt) of
          Ret (err, envelope) \<Rightarrow> if err = None \<and> e_Type envelope \<noteq> [] then OnEnvelope lib i envelope else handleLegacyTextMessage lib i i d
        | Panic p \<Rightarrow> panicG p))"
      using legacy by (auto intro!: drain_rules assms(1))
  qed
qed

text \<open>A call of the connection's library, whatever it does to the connection.\<close>

lemma ws_conn_call_run:
  assumes "net_ok w" and "i < length (n_ctx w)" and "is_Tcp (n_sess w ! i) = False"
  obtains v where "n_sess w ! i = WsSession v" and "ws_conn_call i f w = (Ret (fst (f (wss_conn v))),
      w\<lparr>n_sess := (n_sess w)[i := WsSession (v\<lparr>wss_conn := snd (f (wss_conn v))\<rparr>)]\<rparr>)"
    and "quiet w (w\<lparr>n_sess := (n_sess w)[i := WsSession (v\<lparr>wss_conn := snd (f (wss_conn v))\<rparr>)]\<rparr>)" and "ws_ok v"
proof -
  from get_ws_run [OF assms] obtain v where v: "n_sess w ! i = WsSession v" "get_ws i w = (Ret v, w)" "ws_ok v" .
  moreover have "quiet w (w\<lparr>n_sess := (n_sess w)[i := WsSession (v\<lparr>wss_conn := snd (f (wss_conn v))\<rparr>)]\<rparr>)"
    using assms v by (intro quiet_set_sess) (auto simp: session_defs ws_ok_def is_Tcp_def)
  ultimately show thesis
    by (intro that [of v]) (simp_all add: ws_conn_call_def put_ws_def set_sess_def case_prod_beta)
qed

lemma calm_ws_conn_call [calm_rules]: "calm False i (ws_conn_call i f)"
  by (rule calmI) (auto elim: ws_conn_call_run [where f = f])

lemma calm_set_pong [calm_rules]: "calm False i (bindG (get_ws i) (\<lambda>v. put_ws i (v\<lparr>wss_pongTimeout := Some d\<rparr>)))"
proof (rule calmI)
  fix w :: "'a net"
  assume w: "net_ok w" "i < length (n_ctx w)" "is_Tcp (n_sess w ! i) = False"
  from get_ws_run [OF w] obtain v where v: "n_sess w ! i = WsSession v" "get_ws i w = (Ret v, w)" "ws_ok v" .
  have "quiet w (w\<lparr>n_sess := (n_sess w)[i := WsSession (v\<lparr>wss_pongTimeout := Some d\<rparr>)]\<rparr>)"
    using w v by (intro quiet_set_sess) (auto simp: session_defs ws_ok_def is_Tcp_def)
  then show "\<exists>r w'. bindG (get_ws i) (\<lambda>v. put_ws i (v\<lparr>wss_pongTimeout := Some d\<rparr>)) w = (Ret r, w') \<and> quiet w w'"
    using v(2) by (simp add: put_ws_def set_sess_def)
qed

lemma calm_setupHeartbeat [calm_rules]: "calm False i (setupHeartbeat lib i opt)"
  unfolding setupHeartbeat_def by (rule calm_bind [OF calm_time], rule calm_then [OF calm_ws_conn_call calm_set_pong])

lemma ws_turn:
  assumes "finite_input (lib_ws lib) left" and "0 \<le> o_MaxFrameSize opt"
    and "net_ok w" and "i < length (n_ctx w)" and "is_Tcp (n_sess w ! i) = False"
  shows "\<exists>b w'. ws_readLoop_turn lib i i opt w = (Ret b, w') \<and> quiet w w' \<and> (b \<longrightarrow> ws_left left i w' < ws_left left i w)"
proof -
  from ws_conn_call_run [OF assms(3-5), of "ws_ReadMessage (lib_ws lib)"] obtain v where v: "n_sess w ! i = WsSession v"
    and call: "ws_conn_call i (ws_ReadMessage (lib_ws lib)) w = (Ret (fst (ws_ReadMessage (lib_ws lib) (wss_conn v))),
      w\<lparr>n_sess := (n_sess w)[i := WsSession (v\<lparr>wss_conn := snd (ws_ReadMessage (lib_ws lib) (wss_conn v))\<rparr>)]\<rparr>)"
    and q: "quiet w (w\<lparr>n_sess := (n_sess w)[i := WsSession (v\<lparr>wss_conn := snd (ws_ReadMessage (lib_ws lib) (wss_conn v))\<rparr>)]\<rparr>)" .
  obtain r c where rc: "ws_ReadMessage (lib_ws lib) (wss_conn v) = (r, c)" by fastforce
  let ?w = "w\<lparr>n_sess := (n_sess w)[i := WsSession (v\<lparr>wss_conn := c\<rparr>)]\<rparr>"
  have w: "net_ok ?w" "i < length (n_ctx ?w)" "is_Tcp (n_sess ?w ! i) = False"
    using q rc assms(4,5) by (auto simp: quiet_def)
  have ls: "ws_left left i ?w = left c" "ws_left left i w = left (wss_conn v)"
    using v net_okD(1) [OF assms(3,4)] by (simp_all add: ws_left_def)
  have q': "quiet w ?w" using q rc by simp
  show ?thesis
  proof (cases r)
    case (Inl err)
    from get_ws_run [OF w] obtain x where x: "get_ws i ?w = (Ret x, ?w)" .
    have "\<exists>w'. bindG (get_ws i) (\<lambda>v. thenG (if Base_State (wss_base v) = SessionStateActive
        then log_line ''websocket_read_error'' (Base_ID (wss_base v)) else ret ()) (ret False)) ?w = (Ret False, w') \<and> quiet ?w w'"
      using w(1) by (simp add: bindG_Ret [where m = "get_ws i" and w = ?w, OF x] thenG_app quiet_def)
    then show ?thesis using call rc Inl quiet_trans [OF q'] by (auto simp: ws_readLoop_turn_def)
  next
    case (Inr m)
    obtain mt d where m: "m = (mt, d)" by (cases m)
    have less: "left c < left (wss_conn v)" using assms(1) rc Inr m by (auto simp: finite_input_def)
    show ?thesis
    proof (cases "mt = TextMessage")
      case True
      from drainsE [OF drains_message [OF finite_writes [OF assms(1)] assms(2)] w] obtain y w' where
        "ws_message lib i i opt d ?w = (Ret y, w')" "quiet ?w w'" "ws_left left i w' \<le> ws_left left i ?w" .
      then show ?thesis using call rc Inr m True less ls quiet_trans [OF q'] by (auto simp: ws_readLoop_turn_def)
    next
      case False
      then show ?thesis using call rc Inr m less ls q' by (auto simp: ws_readLoop_turn_def)
    qed
  qed
qed

lemma ws_exit:
  assumes "net_ok w" and "i < length (n_ctx w)" and "is_Tcp (n_sess w ! i) = False"
  shows "\<exists>w'. ws_readLoop_exit lib i i w = (Ret (), w') \<and> Session_closed (n_sess w' ! i) \<and>
    manager w' = removed (sc_Id (n_ctx w ! i)) (manager w)"
proof -
  from OnSessionClose_spec [OF assms(1,2), of lib] obtain s w1 where w1: "OnSessionClose lib i w = (Ret (), w1)"
    "n_sess w1 = (n_sess w)[i := s]" "manager w1 = removed (sc_Id (n_ctx w ! i)) (manager w)"
    "Session_closed s" "is_Tcp s = is_Tcp (n_sess w ! i)" by auto
  from w1(5) assms(3) obtain v where v: "s = WsSession v" by (cases s) (simp_all add: is_Tcp_def)
  have i: "n_sess w1 ! i = WsSession v" "i < length (n_sess w1)" using w1(2) v net_okD(1) [OF assms(1,2)] by simp_all
  have "wsSession_Close (lib_ws lib) v = (Ret None, v)" using ws_obj.close_again [of v "lib_ws lib"] w1(4) v by (simp add: session_defs)
  then have "ws_session_Close lib i w1 = (Ret None, w1)"
    using i list_update_id [of "n_sess w1" i] by (simp add: ws_session_Close_def get_ws_app put_ws_def set_sess_def)
  then show ?thesis using w1 i v by (auto simp: ws_readLoop_exit_def)
qed

lemma ws_loop_ends:
  assumes "finite_input (lib_ws lib) left" and "0 \<le> o_MaxFrameSize opt"
    and "net_ok w" and "i < length (n_ctx w)" and "is_Tcp (n_sess w ! i) = False" and "ws_left left i w < n"
  shows "\<exists>w'. ws_readLoop n lib i i opt w = (Ret True, w') \<and> Session_closed (n_sess w' ! i) \<and>
    manager w' = removed (sc_Id (n_ctx w ! i)) (manager w)"
  using assms(3-6)
proof (induction n arbitrary: w)
  case (Suc n)
  from ws_turn [OF assms(1,2) Suc.prems(1-3)] obtain b w1 where 1: "ws_readLoop_turn lib i i opt w = (Ret b, w1)" "quiet w w1"
    "b \<longrightarrow> ws_left left i w1 < ws_left left i w" by blast
  have w1: "net_ok w1" "i < length (n_ctx w1)" "is_Tcp (n_sess w1 ! i) = False" "n_ctx w1 = n_ctx w" "manager w1 = manager w"
    using 1(2) Suc.prems by (auto simp: quiet_def)
  show ?case
  proof (cases b)
    case True
    with 1(3) Suc.prems(4) have "ws_left left i w1 < n" by simp
    from Suc.IH [OF w1(1-3) this] 1(1) True w1 show ?thesis by auto
  next
    case False
    with ws_exit [OF w1(1-3), of lib] 1(1) w1 show ?thesis by (auto simp: thenG_app)
  qed
qed simp

definition ws_alloc :: "'c libs \<Rightarrow> Options \<Rightarrow> 'c \<Rightarrow> 'c net \<Rightarrow> 'c net" where
  "ws_alloc lib opt c w = w\<lparr>n_uuids := Suc (n_uuids w),
     n_sess := n_sess w @ [WsSession (newWsSession (lib_ws lib) (n_uuid w (n_uuids w)) c (GetWSProtocolManager opt))],
     n_ctx := n_ctx w @ [\<lparr>sc_Id = n_uuid w (n_uuids w), sc_RemoteAddr = ws_RemoteAddr (lib_ws lib) c, sc_sess = length (n_ctx w),
       sc_closed = SessionContextUnClosed, sc_closeOnce = False\<rparr>]\<rparr>"

lemma ws_alloc_ok:
  assumes "net_ok w" and "GetWSProtocolManager opt \<noteq> None"
  shows "net_ok (ws_alloc lib opt c w)"
proof -
  have len: "length (n_sess w) = length (n_ctx w)" using assms(1) by (simp add: net_ok_def)
  have "ctx_ok (ws_alloc lib opt c w) j" if "j < Suc (length (n_ctx w))" for j
  proof (cases "j < length (n_ctx w)")
    case True
    then show ?thesis using assms(1) len by (simp add: net_ok_def ctx_ok_def nth_append ws_alloc_def)
  next
    case False
    with that have "j = length (n_ctx w)" by simp
    then show ?thesis using assms(2) len
      by (simp add: ctx_ok_def nth_append ws_alloc_def session_defs ws_ok_def newWsSession_def
          SessionContextUnClosed_def SessionContextClosed_def)
  qed
  then show ?thesis using assms(1) len by (simp add: net_ok_def ws_alloc_def)
qed

lemma ws_open_spec:
  assumes "net_ok w" and "GetWSProtocolManager opt \<noteq> None"
  defines "n \<equiv> length (n_ctx w)"
  shows "\<exists>w' sc. ws_handleConnection lib opt (Inr c) w = (Ret (Some (n, n)), w') \<and> net_ok w' \<and> n_ctx w' = n_ctx w @ [sc] \<and>
    sc_Id sc = n_uuid w (n_uuids w) \<and> is_Tcp (n_sess w' ! n) = False \<and>
    manager w' = (manager w)\<lparr>sm_Map := Store (sc_Id sc) n (sm_Map (manager w)), sm_count := sm_count (manager w) + 1\<rparr> \<and>
    n_uuid w' = n_uuid w \<and> n_uuids w < n_uuids w' \<and> (\<forall>j < n. is_Tcp (n_sess w' ! j) = is_Tcp (n_sess w ! j))"
proof -
  let ?w = "ws_alloc lib opt c w"
  have len: "length (n_sess w) = n" using assms(1) by (simp add: net_ok_def n_def)
  have al: "net_ok ?w" "n < length (n_ctx ?w)" "is_Tcp (n_sess ?w ! n) = False" "sc_Id (n_ctx ?w ! n) = n_uuid w (n_uuids w)" "manager ?w = manager w"
    using ws_alloc_ok [OF assms(1,2)] len by (simp_all add: ws_alloc_def n_def is_Tcp_def nth_append)
  have old: "\<forall>j < n. n_sess ?w ! j = n_sess w ! j" using len by (simp add: ws_alloc_def nth_append)
  from OnSessionOpen_spec [OF al(1-3), of lib] obtain w1 where 1: "OnSessionOpen lib n ?w = (Ret (), w1)" "net_ok w1" "n_ctx w1 = n_ctx ?w"
    "manager w1 = (manager w)\<lparr>sm_Map := Store (n_uuid w (n_uuids w)) n (sm_Map (manager w)), sm_count := sm_count (manager w) + 1\<rparr>"
    "n_uuid w1 = n_uuid ?w" "n_uuids ?w \<le> n_uuids w1" "\<And>j. j < length (n_ctx ?w) \<Longrightarrow> is_Tcp (n_sess w1 ! j) = is_Tcp (n_sess ?w ! j)"
    using al by auto
  have w1: "n < length (n_ctx w1)" "is_Tcp (n_sess w1 ! n) = False" using 1(3,7) al(2,3) by simp_all
  from calmE [OF calm_setupHeartbeat 1(2) w1] obtain r w2 where 2: "setupHeartbeat lib n opt w1 = (Ret r, w2)" "quiet w1 w2" .
  have "ws_handleConnection lib opt (Inr c) w = thenG (OnSessionOpen lib n) (thenG (setupHeartbeat lib n opt) (ret (Some (n, n)))) ?w"
    using len by (simp add: ws_handleConnection_def NewSessionContext_app ws_alloc_def nth_append n_def session_defs Session_RemoteAddr_def
        newWsSession_def)
  with 1(1) 2(1) have "ws_handleConnection lib opt (Inr c) w = (Ret (Some (n, n)), w2)" by simp
  moreover have "n_ctx w2 = n_ctx w @ [n_ctx ?w ! n]" using 1(3) 2(2) by (simp add: quiet_def ws_alloc_def n_def)
  moreover have "\<forall>j < n. is_Tcp (n_sess w2 ! j) = is_Tcp (n_sess w ! j)" using 1(3,7) 2(2) old al(2) by (simp add: quiet_def)
  moreover have "n_uuid w2 = n_uuid w" "n_uuids w < n_uuids w2" using 1(5,6) 2(2) by (auto simp: quiet_def ws_alloc_def)
  moreover have "net_ok w2" "is_Tcp (n_sess w2 ! n) = False" "manager w2 = manager w1" using 2(2) w1 by (auto simp: quiet_def)
  ultimately show ?thesis using 1(4) al(4) by (intro exI [of _ w2] exI [of _ "n_ctx ?w ! n"]) simp
qed

text \<open>
  C20: a WebSocket connection comes to its end. Over any connection library and any connection
  with finitely many messages left, accepting it registers its session under a new identifier and
  starts the reader; the reader ends after at most one turn per message and one more, without a
  panic; the session is closed and taken out of the session manager exactly once, so that the
  manager's sessions and its count are those of before the connection.
\<close>

theorem ws_connection_ends:
  assumes "finite_input (lib_ws lib) left" and "0 \<le> o_MaxFrameSize opt" and "GetWSProtocolManager opt \<noteq> None"
    and "net_ok w" and "GetSession (n_gw w) (n_uuid w (n_uuids w)) = None"
  shows "\<exists>n w1 w2. ws_handleConnection lib opt (Inr c) w = (Ret (Some (n, n)), w1) \<and>
    GetSession (n_gw w1) (n_uuid w (n_uuids w)) = Some n \<and>
    SessionManager_Count (GetSessionManager (n_gw w1)) = SessionManager_Count (GetSessionManager (n_gw w)) + 1 \<and>
    ws_readLoop (Suc (ws_left left n w1)) lib n n opt w1 = (Ret True, w2) \<and> Session_closed (n_sess w2 ! n) \<and>
    (\<forall>k. GetSession (n_gw w2) k = GetSession (n_gw w) k) \<and>
    SessionManager_Count (GetSessionManager (n_gw w2)) = SessionManager_Count (GetSessionManager (n_gw w))"
proof -
  let ?n = "length (n_ctx w)" and ?u = "n_uuid w (n_uuids w)"
  have sm: "syncmap_ok (sm_Map (manager w))" "Load (sm_Map (manager w)) ?u = None"
    using assms(4,5) by (auto simp: net_ok_def GetSession_def SessionManager_Get_def)
  from ws_open_spec [OF assms(4,3), of lib c] obtain w1 where
    1: "ws_handleConnection lib opt (Inr c) w = (Ret (Some (?n, ?n)), w1)" "net_ok w1" "?n < length (n_ctx w1)" "is_Tcp (n_sess w1 ! ?n) = False"
      "sc_Id (n_ctx w1 ! ?n) = ?u"
      "manager w1 = (manager w)\<lparr>sm_Map := Store ?u ?n (sm_Map (manager w)), sm_count := sm_count (manager w) + 1\<rparr>" by (auto simp: nth_append)
  from ws_loop_ends [OF assms(1,2) 1(2-4), of "Suc (ws_left left ?n w1)"] 1(5,6) obtain w2 where
    "ws_readLoop (Suc (ws_left left ?n w1)) lib ?n ?n opt w1 = (Ret True, w2)" "Session_closed (n_sess w2 ! ?n)"
    "manager w2 = removed ?u ((manager w)\<lparr>sm_Map := Store ?u ?n (sm_Map (manager w)), sm_count := sm_count (manager w) + 1\<rparr>)" by auto
  then show ?thesis using 1(1,6) removed_added [OF sm] sm
    by (intro exI [of _ ?n] exI [of _ w1] exI [of _ w2])
      (simp add: GetSession_def SessionManager_Get_def SessionManager_Count_def GetSessionManager_def syncmap.load_store)
qed

text \<open>A connection that holds the messages still to come.\<close>

definition list_ws :: "string list ws_lib" where
  "list_ws = \<lparr>ws_RemoteAddr = (\<lambda>_. ''ws-peer''), ws_WriteMessage = (\<lambda>_ _ c. (None, c)),
     ws_ReadMessage = (\<lambda>c. case c of [] \<Rightarrow> (Inl EOF, []) | m # ms \<Rightarrow> (Inr (TextMessage, m), ms)),
     ws_WriteControl = (\<lambda>_ _ _ c. (None, c)), ws_SetReadDeadline = (\<lambda>_ c. (None, c)), ws_Close = (\<lambda>c. (None, c))\<rparr>"

definition list_libs :: "string list libs" where
  "list_libs = \<lparr>lib_proto = demo_proto, lib_ws = list_ws\<rparr>"

theorem ws_connection_ends_witness:
  "\<exists>n w1 w2. ws_handleConnection list_libs (demo_opt\<lparr>o_WSProtocolManager := Some demo_pm\<rparr>) (Inr [''hello'', ''/who''])
      (new_net demo_uuid demo_clock) = (Ret (Some (n, n)), w1) \<and>
    ws_readLoop (Suc (ws_left length n w1)) list_libs n n (demo_opt\<lparr>o_WSProtocolManager := Some demo_pm\<rparr>) w1 = (Ret True, w2) \<and>
    SessionManager_Count (GetSessionManager (n_gw w2)) = 0"
proof -
  have "finite_input (lib_ws list_libs) length"
    by (auto simp: finite_input_def writes_add_none_def list_libs_def list_ws_def split: list.splits)
  moreover have "0 \<le> o_MaxFrameSize (demo_opt\<lparr>o_WSProtocolManager := Some demo_pm\<rparr>)" by (simp add: demo_opt_def)
  moreover have "GetWSProtocolManager (demo_opt\<lparr>o_WSProtocolManager := Some demo_pm\<rparr>) \<noteq> None" by (simp add: GetWSProtocolManager_def)
  moreover have "net_ok (new_net demo_uuid demo_clock :: string list net)"
    by (simp add: new_net_def NewSimpleGateway_def NewSessionManager_def net_ok_def syncmap_ok_def)
  moreover have "GetSession (n_gw (new_net demo_uuid demo_clock :: string list net)) k = None"
    "SessionManager_Count (GetSessionManager (n_gw (new_net demo_uuid demo_clock :: string list net))) = 0" for k
    by (simp_all add: new_net_def NewSimpleGateway_def NewSessionManager_def GetSession_def SessionManager_Get_def Load_def
        SessionManager_Count_def GetSessionManager_def)
  ultimately show ?thesis
    using ws_connection_ends [of list_libs length "demo_opt\<lparr>o_WSProtocolManager := Some demo_pm\<rparr>" "new_net demo_uuid demo_clock" "[''hello'', ''/who'']"]
    by auto
qed

subsection \<open>The server\<close>

definition upgraded :: "string \<Rightarrow> string \<times> (io_err + 'c) \<Rightarrow> bool" where
  "upgraded p q \<longleftrightarrow> fst q = p \<and> \<not> isl (snd q)"

lemma serve_one:
  fixes w :: "'c net"
  assumes "net_ok w" and "GetWSProtocolManager opt \<noteq> None" and "last p \<noteq> CHR ''/''"
  shows "\<exists>r w'. mux_ServeHTTP [(p, ws_handleConnection lib opt)] q w = (Ret r, w') \<and> net_ok w' \<and>
    (if upgraded p q
     then r = Some (length (n_ctx w), length (n_ctx w)) \<and> length (n_ctx w') = Suc (length (n_ctx w)) \<and> sm_count (manager w') = sm_count (manager w) + 1
     else r = None \<and> n_ctx w' = n_ctx w \<and> manager w' = manager w)"
proof (cases q)
  case (Pair path up)
  have m: "mux_Handler [(p, ws_handleConnection lib opt)] path = (if path = p then Some (ws_handleConnection lib opt) else None)"
    using assms(3) by (simp add: mux_Handler_single pattern_matches_exact)
  show ?thesis
  proof (cases "path = p \<and> \<not> isl up")
    case True
    then obtain c where "up = Inr c" by (cases up) auto
    with True ws_open_spec [OF assms(1,2), of lib c] m Pair show ?thesis
      by (auto simp: mux_ServeHTTP_def http_recover_def upgraded_def)
  next
    case False
    then show ?thesis using Pair m assms(1)
      by (cases up) (auto simp: mux_ServeHTTP_def http_recover_def upgraded_def ws_handleConnection_def log_line_def)
  qed
qed

lemma serve_all:
  fixes w :: "'c net"
  assumes "net_ok w" and "GetWSProtocolManager opt \<noteq> None" and "last p \<noteq> CHR ''/''"
  shows "\<exists>rs w'. serve_requests [(p, ws_handleConnection lib opt)] qs w = (Ret rs, w') \<and> net_ok w' \<and>
    rs = map (\<lambda>i. (i, i)) [length (n_ctx w) ..< length (n_ctx w) + length (filter (upgraded p) qs)] \<and>
    length (n_ctx w') = length (n_ctx w) + length (filter (upgraded p) qs) \<and>
    sm_count (manager w') = sm_count (manager w) + of_nat (length (filter (upgraded p) qs))"
  using assms(1)
proof (induction qs arbitrary: w)
  case (Cons q qs)
  from serve_one [OF Cons.prems assms(2,3), of lib q] obtain r w1 where
    1: "mux_ServeHTTP [(p, ws_handleConnection lib opt)] q w = (Ret r, w1)" "net_ok w1"
      "if upgraded p q
       then r = Some (length (n_ctx w), length (n_ctx w)) \<and> length (n_ctx w1) = Suc (length (n_ctx w)) \<and> sm_count (manager w1) = sm_count (manager w) + 1
       else r = None \<and> n_ctx w1 = n_ctx w \<and> manager w1 = manager w" by blast
  define k where "k = length (filter (upgraded p) qs)"
  have up: "[j ..< Suc (j + k)] = j # [Suc j ..< Suc (j + k)]" for j by (rule upt_conv_Cons) simp
  from Cons.IH [OF 1(2)] obtain rs w2 where
    2: "serve_requests [(p, ws_handleConnection lib opt)] qs w1 = (Ret rs, w2)" "net_ok w2"
      "rs = map (\<lambda>i. (i, i)) [length (n_ctx w1) ..< length (n_ctx w1) + k]" "length (n_ctx w2) = length (n_ctx w1) + k"
      "sm_count (manager w2) = sm_count (manager w1) + of_nat k" unfolding k_def by blast
  show ?case
    using 1 2 up [of "length (n_ctx w)"] by (cases "upgraded p q") (simp_all add: k_def [symmetric] del: upt_Suc)
qed simp

text \<open>The requests that arrive before the context ends.\<close>

fun requests_before :: "'c ws_event list \<Rightarrow> (string \<times> (io_err + 'c)) list" where
  "requests_before [] = []"
| "requests_before (ContextDone # evs) = []"
| "requests_before (WsRequest path up # evs) = (path, up) # requests_before evs"

lemma ws_serve_requests:
  "serve_requests m (requests_before evs) w = (Ret rs, w') \<Longrightarrow>
     ws_serve m evs w = (Ret (rs, if ContextDone \<in> set evs then Some http_ErrServerClosed else None), w')"
proof (induction evs arbitrary: w rs rule: requests_before.induct)
  case (3 path up evs)
  obtain r w1 where q: "mux_ServeHTTP m (path, up) w = (Ret r, w1)" using ServeHTTP_total [of m "(path, up)" w] by blast
  obtain rs1 w2 where qs: "serve_requests m (requests_before evs) w1 = (Ret rs1, w2)"
    using serve_total [of m "requests_before evs" w1] by blast
  with "3.prems" q have "w2 = w'" "rs = (case r of None \<Rightarrow> rs1 | Some x \<Rightarrow> x # rs1)" by (auto simp: bindG_def)
  then show ?case using "3.IH" [of w1 rs1] qs q by (simp add: bindG_def)
qed simp_all

text \<open>
  C21: what a WebSocket server accepts. For every configured path that is a clean slash path (so it does
  not end in a slash), or the empty path, which stands for \<open>/ws\<close>, and
  every sequence of requests and ends of the context: when listening fails, the server returns that error and no session
  comes into being; otherwise each request for the path that arrives before the context ends and whose
  upgrade succeeds, and no other, opens
  a session of its own, starts one reader for it and adds one to the session manager's count, and no
  handler panics; a request after the end of the context opens nothing. At a path without a slash
  the server panics before it listens.
\<close>

theorem ws_server_accepts:
  fixes w :: "'c net"
  assumes "net_ok w" and "GetWSProtocolManager opt \<noteq> None" and "p = [] \<or> plain_path p"
  defines "path \<equiv> wsv_Path (NewWebSocketServer p)"
  shows "(\<exists>rs e w'. WebSocketServer_Start lib (NewWebSocketServer p) addr opt listen evs w = (Ret (rs, e), w') \<and> net_ok w' \<and>
    (case listen (if addr = [] then '':http'' else addr) of
       Some err \<Rightarrow> rs = [] \<and> e = Some err \<and> n_sess w' = n_sess w \<and> n_gw w' = n_gw w
     | None \<Rightarrow> e = (if ContextDone \<in> set evs then Some http_ErrServerClosed else None) \<and> distinct rs \<and>
         length rs = length (filter (\<lambda>(r, up). r = path \<and> \<not> isl up) (requests_before evs)) \<and>
         length (n_sess w') = length (n_sess w) + length rs \<and>
         SessionManager_Count (GetSessionManager (n_gw w')) = SessionManager_Count (GetSessionManager (n_gw w)) + of_nat (length rs))) \<and>
    (\<forall>c cs. CHR ''/'' \<notin> set (c # cs) \<longrightarrow>
       (\<exists>err. WebSocketServer_Start lib (NewWebSocketServer (c # cs)) addr opt listen evs w = (Panic err, w)))"
proof
  let ?w = "w\<lparr>n_log := n_log w @ [(''websocket_listen'', path)]\<rparr>"
  have "plain_path ''/ws''" by code_simp
  then have plain: "plain_path path" using assms(3) by (auto simp: path_def NewWebSocketServer_def)
  have up: "(\<lambda>(r, up). r = path \<and> \<not> isl up) = (upgraded path :: string \<times> (io_err + 'c) \<Rightarrow> bool)" by (auto simp: upgraded_def)
  have "net_ok ?w" using assms(1) by simp
  from serve_all [OF this assms(2) plain_pathD(3) [OF plain], of lib "requests_before evs"] obtain rs w' where
    s: "serve_requests [(path, ws_handleConnection lib opt)] (requests_before evs) ?w = (Ret rs, w')" "net_ok w'"
      "rs = map (\<lambda>i. (i, i)) [length (n_ctx w) ..< length (n_ctx w) + length (filter (upgraded path) (requests_before evs))]"
      "length (n_ctx w') = length (n_ctx w) + length (filter (upgraded path) (requests_before evs))"
      "sm_count (manager w') = sm_count (manager w) + of_nat (length (filter (upgraded path) (requests_before evs)))" by auto
  have "distinct rs" unfolding s(3) by (simp add: distinct_map inj_on_def)
  moreover have "length (n_sess w) = length (n_ctx w)" "length (n_sess w') = length (n_ctx w')" using assms(1) s(2) by (simp_all add: net_ok_def)
  ultimately show "\<exists>rs e w'. WebSocketServer_Start lib (NewWebSocketServer p) addr opt listen evs w = (Ret (rs, e), w') \<and> net_ok w' \<and>
    (case listen (if addr = [] then '':http'' else addr) of
       Some err \<Rightarrow> rs = [] \<and> e = Some err \<and> n_sess w' = n_sess w \<and> n_gw w' = n_gw w
     | None \<Rightarrow> e = (if ContextDone \<in> set evs then Some http_ErrServerClosed else None) \<and> distinct rs \<and>
         length rs = length (filter (\<lambda>(r, up). r = path \<and> \<not> isl up) (requests_before evs)) \<and>
         length (n_sess w') = length (n_sess w) + length rs \<and>
         SessionManager_Count (GetSessionManager (n_gw w')) = SessionManager_Count (GetSessionManager (n_gw w)) + of_nat (length rs))"
    using assms(1) plain_pathD(1,2) [OF plain] s ws_serve_requests [OF s(1)] unfolding up
    by (cases "listen (if addr = [] then '':http'' else addr)")
      (simp_all add: WebSocketServer_Start_def mux_HandleFunc_def path_def [symmetric] log_line_def SessionManager_Count_def GetSessionManager_def)
  show "\<forall>c cs. CHR ''/'' \<notin> set (c # cs) \<longrightarrow>
      (\<exists>err. WebSocketServer_Start lib (NewWebSocketServer (c # cs)) addr opt listen evs w = (Panic err, w))"
    by (simp add: WebSocketServer_Start_def NewWebSocketServer_def mux_HandleFunc_def)
qed

theorem ws_server_accepts_witness:
  "\<exists>rs w'. WebSocketServer_Start list_libs (NewWebSocketServer []) [] (demo_opt\<lparr>o_WSProtocolManager := Some demo_pm\<rparr>) (\<lambda>_. None)
      [WsRequest ''/ws'' (Inr [''hello'']), WsRequest ''/ws/x'' (Inr []), WsRequest ''/ws'' (Inl EOF), WsRequest ''/ws'' (Inr []),
       ContextDone, WsRequest ''/ws'' (Inr [])] (new_net demo_uuid demo_clock) =
        (Ret (rs, Some http_ErrServerClosed), w') \<and> length rs = 2"
proof -
  have "net_ok (new_net demo_uuid demo_clock :: string list net)"
    by (simp add: new_net_def NewSimpleGateway_def NewSessionManager_def net_ok_def syncmap_ok_def)
  moreover have "GetWSProtocolManager (demo_opt\<lparr>o_WSProtocolManager := Some demo_pm\<rparr>) \<noteq> None" by (simp add: GetWSProtocolManager_def)
  ultimately show ?thesis
    using ws_server_accepts [of "new_net demo_uuid demo_clock" "demo_opt\<lparr>o_WSProtocolManager := Some demo_pm\<rparr>" "[]" list_libs "[]" "\<lambda>_. None"
        "[WsRequest ''/ws'' (Inr [''hello'']), WsRequest ''/ws/x'' (Inr []), WsRequest ''/ws'' (Inl EOF), WsRequest ''/ws'' (Inr []),
          ContextDone, WsRequest ''/ws'' (Inr [])]"]
    by (auto simp: NewWebSocketServer_def)
qed

end
