(* ===== verification/Ws_System.thy ===== *)
theory Ws_System
  imports Ws_Properties Tcp_Properties
begin

section \<open>The WebSocket server as a system of interleaved goroutines\<close>

text \<open>
  The state is that of \<open>Tcp_System\<close>: per connection a reader and, as \<open>r_heart\<close>, the goroutine that
  pings; there is no lifecycle watcher. A step is an HTTP request with the result of its upgrade, one
  turn of a reader or its end, a ping, the end of a pinging goroutine, a pong, or anything that
  happens to a connection on the other side (\<open>peer\<close>).
\<close>

definition set_conn :: "nat \<Rightarrow> 'c \<Rightarrow> 'c net \<Rightarrow> 'c net" where
  "set_conn s c w = (case n_sess w ! s of
     WsSession v \<Rightarrow> w\<lparr>n_sess := (n_sess w)[s := WsSession (v\<lparr>wss_conn := c\<rparr>)]\<rparr>
   | TcpSession _ \<Rightarrow> w)"

definition ws_closed :: "'c Session \<Rightarrow> bool" where
  "ws_closed s = (case s of WsSession v \<Rightarrow> ws_ping_ends v | TcpSession _ \<Rightarrow> False)"

inductive ws_step :: "'c libs \<Rightarrow> Options \<Rightarrow> 'c server \<Rightarrow> 'c server \<Rightarrow> bool" for lib opt where
  request:
    "\<lbrakk>ws_handleConnection lib opt up (sv_net S) = (r, w);
      run = (case r of Ret (Some (s, sc)) \<Rightarrow> [\<lparr>r_sess = s, r_ctx = sc, r_reader = Reading, r_watcher = Watching, r_heart = True\<rparr>] | _ \<Rightarrow> [])\<rbrakk>
     \<Longrightarrow> ws_step lib opt S (S\<lparr>sv_net := w, sv_runs := sv_runs S @ run, sv_panicked := sv_panicked S \<or> is_panic r\<rparr>)"
| peer:
    "i < length (sv_runs S) \<Longrightarrow> ws_step lib opt S (S\<lparr>sv_net := set_conn (r_sess (sv_runs S ! i)) c (sv_net S)\<rparr>)"
| read:
    "\<lbrakk>i < length (sv_runs S); run = sv_runs S ! i; r_reader run = Reading;
      ws_readLoop_turn lib (r_sess run) (r_ctx run) opt (sv_net S) = (r, w)\<rbrakk>
     \<Longrightarrow> ws_step lib opt S (after (r, w) i (run\<lparr>r_reader := (if r = Ret True then Reading else Leaving)\<rparr>) S)"
| leave:
    "\<lbrakk>i < length (sv_runs S); run = sv_runs S ! i; r_reader run = Leaving;
      ws_readLoop_exit lib (r_sess run) (r_ctx run) (sv_net S) = (r, w)\<rbrakk>
     \<Longrightarrow> ws_step lib opt S (after (r, w) i (run\<lparr>r_reader := ReaderGone\<rparr>) S)"
| ping:
    "\<lbrakk>i < length (sv_runs S); run = sv_runs S ! i; r_heart run; ws_ping_tick lib (r_sess run) (sv_net S) = (r, w)\<rbrakk>
     \<Longrightarrow> ws_step lib opt S (after (r, w) i run S)"
| ping_end:
    "\<lbrakk>i < length (sv_runs S); run = sv_runs S ! i; r_heart run; ws_closed (n_sess (sv_net S) ! r_sess run)\<rbrakk>
     \<Longrightarrow> ws_step lib opt S (after (Ret (), sv_net S) i (run\<lparr>r_heart := False\<rparr>) S)"
| pong:
    "\<lbrakk>i < length (sv_runs S); run = sv_runs S ! i; pong_handler lib (r_sess run) (sv_net S) = (r, w)\<rbrakk>
     \<Longrightarrow> ws_step lib opt S (after (r, w) i run S)"

text \<open>What \<open>main\<close> sets: a protocol manager, and a frame size that is not negative.\<close>

definition ws_opt_ok :: "Options \<Rightarrow> bool" where
  "ws_opt_ok opt \<longleftrightarrow> 0 \<le> o_MaxFrameSize opt \<and> GetWSProtocolManager opt \<noteq> None"

interpretation ws: event_system tcp_start_state "ws_step lib opt" for lib opt .

definition ws_reachable :: "'c libs \<Rightarrow> Options \<Rightarrow> 'c server \<Rightarrow> bool" where
  "ws_reachable lib opt = event_system.reachable tcp_start_state (ws_step lib opt)"

subsection \<open>The turns of the goroutines are calm\<close>

lemma drains_calm: "drains (\<lambda>_. 0) i m \<Longrightarrow> calm False i m"
  by (fastforce simp: drains_def calm_def)

lemma calm_get_ws [calm_rules]: "calm False i (get_ws i)"
  by (rule calmI) (metis get_ws_run quiet_refl)

lemma calm_ws_message [calm_rules]: "0 \<le> o_MaxFrameSize opt \<Longrightarrow> calm False i (ws_message lib i i opt d)"
  by (rule drains_calm [OF drains_message]) (simp_all add: writes_add_none_def)

lemma calm_ws_turn [calm_rules]:
  assumes "ws_opt_ok opt"
  shows "calm False i (ws_readLoop_turn lib i i opt)"
  unfolding ws_readLoop_turn_def
  by (rule calm_bind [OF calm_ws_conn_call]) (use assms in \<open>auto simp: ws_opt_ok_def intro!: calm_rules split: sum.split\<close>)

lemma calm_ws_ping [calm_rules]: "calm False i (ws_ping_tick lib i)"
  unfolding ws_ping_tick_def by (intro calm_rules)

lemma calm_pong [calm_rules]: "calm False i (pong_handler lib i)"
proof -
  have "calm False i (case wss_pongTimeout v of None \<Rightarrow> ret None
    | Some timeout \<Rightarrow> bindG time_Now (\<lambda>now. ws_conn_call i (ws_SetReadDeadline (lib_ws lib) (Time_Add now timeout))))" for v :: "'a wsSession"
    by (cases "wss_pongTimeout v") (auto intro!: calm_rules)
  then show ?thesis unfolding pong_handler_def by (intro calm_rules)
qed

lemma calm_ws_session_Close [calm_rules]: "calm False i (ws_session_Close lib i)"
proof (rule calmI)
  fix w :: "'a net"
  assume w: "net_ok w" "i < length (n_ctx w)" "is_Tcp (n_sess w ! i) = False"
  from get_ws_run [OF w] obtain v where v: "n_sess w ! i = WsSession v" "get_ws i w = (Ret v, w)" "ws_ok v" .
  from ws_obj.close_closes [OF v(3), of "lib_ws lib"] obtain r v' where r: "wsSession_Close (lib_ws lib) v = (Ret r, v')" by blast
  have "calm False i (on_sess i (Session_Close lib))" by (rule calm_sess_close)
  from calmE [OF this w] obtain x w' where x: "on_sess i (Session_Close lib) w = (Ret x, w')" "quiet w w'" .
  then have "w' = w\<lparr>n_sess := (n_sess w)[i := WsSession v']\<rparr>"
    using v(1) r net_okD(1) [OF w(1,2)] by (simp add: on_sess_def Session_Close_def)
  then show "\<exists>r w'. ws_session_Close lib i w = (Ret r, w') \<and> quiet w w'"
    using x(2) v(2) r by (simp add: ws_session_Close_def put_ws_def set_sess_def)
qed

lemma quiet_set_conn:
  assumes "net_ok w" and "i < length (n_ctx w)" and "is_Tcp (n_sess w ! i) = False"
  shows "quiet w (set_conn i c w)"
proof -
  from ws_conn_call_run [OF assms, of "\<lambda>_. ((), c)"] obtain v where
    "n_sess w ! i = WsSession v" "quiet w (w\<lparr>n_sess := (n_sess w)[i := WsSession (v\<lparr>wss_conn := c\<rparr>)]\<rparr>)" by auto
  then show ?thesis by (simp add: set_conn_def)
qed

subsection \<open>The invariant\<close>

definition ws_inv :: "'c server \<Rightarrow> bool" where
  "ws_inv S \<longleftrightarrow> sessions_inv False S \<and> list_all (\<lambda>r. r_watcher r = Watching) (sv_runs S)"

lemma ws_invD: "ws_inv S \<Longrightarrow> sessions_inv False S" "ws_inv S \<Longrightarrow> i < length (sv_runs S) \<Longrightarrow> r_watcher (sv_runs S ! i) = Watching"
  by (simp_all add: ws_inv_def list_all_length)

lemma ws_invI: "sessions_inv False S \<Longrightarrow> (\<And>i. i < length (sv_runs S) \<Longrightarrow> r_watcher (sv_runs S ! i) = Watching) \<Longrightarrow> ws_inv S"
  by (simp add: ws_inv_def list_all_length)

lemma ws_invI_after:
  assumes "ws_inv S" and "sessions_inv False (after rw i run S)" and "r_watcher run = Watching"
  shows "ws_inv (after rw i run S)"
proof (rule ws_invI [OF assms(2)])
  fix j
  assume "j < length (sv_runs (after rw i run S))"
  then show "r_watcher (sv_runs (after rw i run S) ! j) = Watching"
    using ws_invD(2) [OF assms(1), of j] assms(3) by (cases "j = i") (simp_all add: after_def)
qed

lemma ws_inv_calm:
  assumes "ws_inv S" and "i < length (sv_runs S)" and "calm False i m" and "m (sv_net S) = (r, w)"
    and "removals run = removals (sv_runs S ! i)" and "r_sess run = i" and "r_ctx run = i" and "r_watcher run = Watching"
  shows "ws_inv (after (r, w) i run S)"
  using inv_calm [of False S i m r w "\<lambda>_ _. run"] assms ws_invD(1) by (auto intro: ws_invI_after)

lemma ws_inv_request:
  assumes "ws_inv S" and "ws_opt_ok opt" and "ws_handleConnection lib opt up (sv_net S) = (r, w)"
  shows "ws_inv (S\<lparr>sv_net := w, sv_runs := sv_runs S @ (case r of Ret (Some (s, sc)) \<Rightarrow>
    [\<lparr>r_sess = s, r_ctx = sc, r_reader = Reading, r_watcher = Watching, r_heart = True\<rparr>] | _ \<Rightarrow> []), sv_panicked := sv_panicked S \<or> is_panic r\<rparr>)"
proof (cases up)
  case (Inl err)
  then have "r = Ret None" "w = (sv_net S)\<lparr>n_log := n_log (sv_net S) @ [(''websocket_upgrade_error'', [])]\<rparr>"
    using assms(3) by (simp_all add: ws_handleConnection_def)
  then show ?thesis using assms(1) by (simp add: ws_inv_def sessions_inv_def is_panic_def ids_ok_def run_ok_def)
next
  case (Inr c)
  have ok: "net_ok (sv_net S)" "\<not> sv_panicked S" using assms(1) by (auto simp: ws_inv_def sessions_inv_def)
  let ?n = "length (n_ctx (sv_net S))"
  from ws_open_spec [OF ok(1), of opt lib c] assms(2,3) Inr obtain sc where
    sc: "r = Ret (Some (?n, ?n))" "net_ok w" "n_ctx w = n_ctx (sv_net S) @ [sc]" "sc_Id sc = n_uuid (sv_net S) (n_uuids (sv_net S))"
      "manager w = (manager (sv_net S))\<lparr>sm_Map := Store (sc_Id sc) ?n (sm_Map (manager (sv_net S))), sm_count := sm_count (manager (sv_net S)) + 1\<rparr>"
      "n_uuid w = n_uuid (sv_net S)" "n_uuids (sv_net S) < n_uuids w" "is_Tcp (n_sess w ! ?n) = False"
      "\<And>j. j < ?n \<Longrightarrow> is_Tcp (n_sess w ! j) = is_Tcp (n_sess (sv_net S) ! j)"
    by (auto simp: ws_opt_ok_def)
  from inv_added [OF ws_invD(1) [OF assms(1)] sc(2-9), of True] show ?thesis
    using assms(1) ok(2) by (simp add: ws_inv_def sc(1) new_run_def is_panic_def sessions_inv_def)
qed

lemma ws_inv_step:
  assumes "ws_step lib opt S T" and "ws_inv S" and "ws_opt_ok opt"
  shows "ws_inv T"
proof -
  note d = sessions_invD [OF ws_invD(1) [OF assms(2)]]
  note watch = ws_invD(2) [OF assms(2)]
  from assms(1) show ?thesis
  proof (cases rule: ws_step.cases)
    case (request up r w run)
    then show ?thesis using ws_inv_request [OF assms(2,3) request(2)] by simp
  next
    case (peer i c)
    have "sessions_inv False (after (Ret (), set_conn i c (sv_net S)) i (sv_runs S ! i) S)"
      using ws_invD(1) [OF assms(2)] peer(2) d [OF peer(2)] by (intro inv_quiet quiet_set_conn) simp_all
    then show ?thesis using peer d [OF peer(2)] assms(2) by (simp add: ws_inv_def after_def is_panic_def list_update_id)
  next
    case (read i run r w)
    then show ?thesis using d [OF read(2)] watch [OF read(2)]
      by (auto intro!: ws_inv_calm [OF assms(2) read(2) calm_ws_turn [OF assms(3)], of lib] simp: removals_def)
  next
    case (leave i run r w)
    have "calm False i (thenG (ws_session_Close lib i) (ret ()))" by (intro calm_rules)
    from inv_leave [OF ws_invD(1) [OF assms(2)] leave(2) _ _ this, of lib r w] leave d [OF leave(2)]
    have "sessions_inv False (after (r, w) i (run\<lparr>r_reader := ReaderGone\<rparr>) S)" by (simp add: ws_readLoop_exit_def)
    from ws_invI_after [OF assms(2) this] leave watch [OF leave(2)] show ?thesis by simp
  next
    case (ping i run r w)
    then show ?thesis using d [OF ping(2)] watch [OF ping(2)]
      by (auto intro!: ws_inv_calm [OF assms(2) ping(2) calm_ws_ping, of lib])
  next
    case (ping_end i run)
    then show ?thesis using d [OF ping_end(2)] watch [OF ping_end(2)]
      by (auto intro!: ws_inv_calm [OF assms(2) ping_end(2) calm_ret, of "()"] simp: removals_def)
  next
    case (pong i run r w)
    then show ?thesis using d [OF pong(2)] watch [OF pong(2)]
      by (auto intro!: ws_inv_calm [OF assms(2) pong(2) calm_pong, of lib])
  qed
qed

lemma ws_inv_start: "tcp_start_state S \<Longrightarrow> ws_inv S"
  by (auto simp: ws_inv_def tcp_start_state_def new_server_def new_net_def NewSimpleGateway_def NewSessionManager_def sessions_inv_def
      net_ok_def ids_ok_def balance_def syncmap_ok_def Load_def)

lemma ws_inv_reachable: "ws.reachable lib opt S \<Longrightarrow> ws_opt_ok opt \<Longrightarrow> ws_inv S"
  by (erule ws.reachable_invariant [where I = ws_inv]) (auto intro: ws_inv_start ws_inv_step)

text \<open>
  C18: the session manager of the WebSocket server under every schedule. Whatever the connection library
  does and however requests, readers, pings and pongs interleave: no goroutine has panicked; the manager's
  map holds exactly the sessions whose reader has not ended, every other session is closed; and, other than with TCP, \<open>Count\<close> is
  exactly the number of those sessions, because only the reader removes one.
\<close>

theorem ws_session_accounting:
  assumes "ws_opt_ok opt" and "ws_reachable lib opt S"
  shows "\<not> sv_panicked S \<and>
    set (SessionManager_GetAll (GetSessionManager (n_gw (sv_net S)))) = {i. i < length (sv_runs S) \<and> r_reader (sv_runs S ! i) \<noteq> ReaderGone} \<and>
    (\<forall>i < length (sv_runs S). r_reader (sv_runs S ! i) = ReaderGone \<longrightarrow> Session_closed (n_sess (sv_net S) ! i)) \<and>
    SessionManager_Count (GetSessionManager (n_gw (sv_net S))) = of_nat (length (SessionManager_GetAll (GetSessionManager (n_gw (sv_net S)))))"
proof -
  have inv: "ws_inv S" using ws_inv_reachable assms unfolding ws_reachable_def by blast
  then have sinv: "sessions_inv False S" by (rule ws_invD)
  have rm: "removals (sv_runs S ! i) = (if r_reader (sv_runs S ! i) = ReaderGone then 1 else 0)" if "i < length (sv_runs S)" for i
    using ws_invD(2) [OF inv that] by (simp add: removals_def)
  have "count_runs 2 (sv_runs S) = 0"
    using inv by (auto simp: count_runs_def filter_empty_conv removals_def list_all_iff ws_inv_def)
  then have "SessionManager_Count (manager (sv_net S)) = of_nat (length (SessionManager_GetAll (manager (sv_net S))))"
    using sinv live_sessions(2) [OF sinv] balance_counts [of "sv_runs S"] by (simp add: SessionManager_Count_def sessions_inv_def)
  moreover have "Session_closed (n_sess (sv_net S) ! i)" if "i < length (sv_runs S)" "r_reader (sv_runs S ! i) = ReaderGone" for i
    using sinv that rm [OF that(1)] net_okD(6) [of "sv_net S" i] by (auto simp: sessions_inv_def run_ok_def)
  moreover have "set (SessionManager_GetAll (manager (sv_net S))) = {i. i < length (sv_runs S) \<and> r_reader (sv_runs S ! i) \<noteq> ReaderGone}"
    unfolding live_sessions(1) [OF sinv] using rm by auto
  ultimately show ?thesis using sinv by (simp add: GetSessionManager_def sessions_inv_def)
qed

theorem ws_session_accounting_witness:
  "\<exists>S. ws_reachable list_libs (demo_opt\<lparr>o_WSProtocolManager := Some demo_pm\<rparr>) S \<and> SessionManager_GetAll (GetSessionManager (n_gw (sv_net S))) = [0] \<and>
     SessionManager_Count (GetSessionManager (n_gw (sv_net S))) = 1"
proof -
  let ?opt = "demo_opt\<lparr>o_WSProtocolManager := Some demo_pm\<rparr>" and ?S = "new_server demo_uuid demo_clock :: string list server"
  have opt: "ws_opt_ok ?opt" by (simp add: ws_opt_ok_def GetWSProtocolManager_def demo_opt_def)
  have start: "tcp_start_state ?S" using demo_start by (auto simp: tcp_start_state_def demo_server_def new_server_def new_net_def)
  have "net_ok (sv_net ?S)" using ws_invD(1) [OF ws_inv_start [OF start]] by (simp add: sessions_inv_def)
  from ws_open_spec [OF this, of ?opt list_libs "[''hello'']"] opt obtain w where
    w: "ws_handleConnection list_libs ?opt (Inr [''hello'']) (sv_net ?S) = (Ret (Some (0, 0)), w)"
      "manager w = (manager (sv_net ?S))\<lparr>sm_Map := Store (demo_uuid 0) 0 (sm_Map (manager (sv_net ?S))), sm_count := sm_count (manager (sv_net ?S)) + 1\<rparr>"
    by (auto simp: ws_opt_ok_def new_server_def new_net_def)
  let ?T = "?S\<lparr>sv_net := w, sv_runs := sv_runs ?S @ [\<lparr>r_sess = 0, r_ctx = 0, r_reader = Reading, r_watcher = Watching, r_heart = True\<rparr>],
    sv_panicked := sv_panicked ?S \<or> is_panic (Ret (Some (0 :: nat, 0 :: nat)))\<rparr>"
  have "ws_step list_libs ?opt ?S ?T" using ws_step.request [OF w(1) refl] by simp
  then have r: "ws_reachable list_libs ?opt ?T"
    unfolding ws_reachable_def using ws.reach_step [OF ws.reach_start [OF start]] by blast
  have "SessionManager_GetAll (manager w) = [0]"
    by (simp add: w(2) SessionManager_GetAll_def new_server_def new_net_def NewSimpleGateway_def NewSessionManager_def Store_def)
  with ws_session_accounting [OF opt r] r show ?thesis by (intro exI [of _ ?T]) (simp add: GetSessionManager_def)
qed

end
