(* ===== verification/Message_Payloads.thy ===== *)
theory Message_Payloads
  imports Codec_Properties
begin

section \<open>The payloads of the messages (envelope.go, message_factory.go)\<close>

text \<open>
  A message of the factory carries its payload as JSON in \<open>Data\<close>. The fields below are the json tags of
  the payload structs; what a factory method puts into a message is what the receiver of the encoded
  message reads from it, for every payload of the protocol.
\<close>

subsection \<open>The fields of the payloads\<close>

definition text_fields :: "TextPayload json_field list" where
  "text_fields = [(''text'', set_string (\<lambda>s p. p\<lparr>tp_Text := s\<rparr>))]"

definition nick_fields :: "SetNickPayload json_field list" where
  "nick_fields = [(''nick'', set_string (\<lambda>s p. p\<lparr>np_Nick := s\<rparr>))]"

definition command_fields :: "CommandPayload json_field list" where
  "command_fields = [(''raw'', set_string (\<lambda>s p. p\<lparr>cp_Raw := s\<rparr>))]"

definition ack_fields :: "AckPayload json_field list" where
  "ack_fields = [(''status'', set_string (\<lambda>s p. p\<lparr>ap_Status := s\<rparr>))]"

definition direct_fields :: "DirectPayload json_field list" where
  "direct_fields = [(''to'', set_strings (\<lambda>ss p. p\<lparr>dp_To := ss\<rparr>)), (''content'', set_string (\<lambda>s p. p\<lparr>dp_Content := s\<rparr>))]"

definition file_meta_fields :: "FileMetaPayload json_field list" where
  "file_meta_fields =
     [(''name'', set_string (\<lambda>s p. p\<lparr>fm_Name := s\<rparr>)), (''size'', set_int64 (\<lambda>i p. p\<lparr>fm_Size := i\<rparr>)),
      (''mime_type'', set_string (\<lambda>s p. p\<lparr>fm_MimeType := s\<rparr>)), (''checksum'', set_string (\<lambda>s p. p\<lparr>fm_Checksum := s\<rparr>))]"

definition file_chunk_fields :: "FileChunkPayload json_field list" where
  "file_chunk_fields =
     [(''file_id'', set_string (\<lambda>s p. p\<lparr>fk_FileID := s\<rparr>)), (''chunk_id'', set_int64 (\<lambda>i p. p\<lparr>fk_ChunkID := i\<rparr>)),
      (''data'', set_nil_bytes (\<lambda>b p. p\<lparr>fk_Data := b\<rparr>)), (''is_last'', set_bool (\<lambda>b p. p\<lparr>fk_IsLast := b\<rparr>)),
      (''checksum'', set_string (\<lambda>s p. p\<lparr>fk_Checksum := s\<rparr>))]"

subsection \<open>Literals and arrays are read back\<close>

lemma not_quote:
  "CHR ''['' \<noteq> quote_char" "CHR '']'' \<noteq> quote_char" "CHR ''n'' \<noteq> quote_char" "CHR ''t'' \<noteq> quote_char" "CHR ''f'' \<noteq> quote_char"
  "\<not> is_ws (CHR ''['')" "\<not> is_ws (CHR '']'')" "\<not> is_ws (CHR ''n'')" "\<not> is_ws (CHR ''t'')" "\<not> is_ws (CHR ''f'')"
  by (simp_all add: quote_char_def is_ws_def)

lemma parses_null: "parses d ''null'' JNull"
  by (simp add: parses_def jvalue.simps not_quote starts_def)

lemma parses_bool: "parses d (json_bool b) (JBool b)"
  by (cases b) (simp_all add: parses_def json_bool_def jvalue.simps not_quote starts_def)

definition nil_bytes_val :: "string option \<Rightarrow> jval" where
  "nil_bytes_val b = (case b of None \<Rightarrow> JNull | Some s \<Rightarrow> JStr (b64_encode s))"

lemma parses_nil_bytes: "parses d (json_bytes b) (nil_bytes_val b)"
  using parses_bytes [of d] parses_null [of d] by (cases b) (simp_all add: nil_bytes_val_def json_bytes_def)

lemma jvalue_json_string: "jvalue d (json_string s @ X) = Some (JStr (to_valid s), X)"
  by (simp add: json_string_def jvalue_string parse_json_runes)

lemma jelems_join:
  "ss \<noteq> [] \<Longrightarrow> jelems d (strings_Join (map json_string ss) '','' @ CHR '']'' # X) = Some (map (\<lambda>s. JStr (to_valid s)) ss, X)"
proof (induction ss)
  case (Cons s ss)
  show ?case
  proof (cases ss)
    case Nil
    then show ?thesis by (simp add: jelems.simps jvalue_json_string not_quote)
  next
    case (Cons s2 ss2)
    then show ?thesis using Cons.IH by (simp add: jelems.simps [of d "json_string s @ _"] jvalue_json_string not_ws)
  qed
qed simp

definition strings_val :: "string list option \<Rightarrow> jval" where
  "strings_val xs = (case xs of None \<Rightarrow> JNull | Some ss \<Rightarrow> JArr (map (\<lambda>s. JStr (to_valid s)) ss))"

lemma parses_strings: "parses (Suc d) (json_strings xs) (strings_val xs)"
proof (cases xs)
  case (Some ss)
  show ?thesis
  proof (cases ss)
    case (Cons s ss2)
    obtain u where u: "strings_Join (map json_string ss) '','' = quote_char # u"
      by (cases ss2) (auto simp: Cons json_string_def)
    have "jelems d (quote_char # u @ CHR '']'' # Y) = Some (map (\<lambda>s. JStr (to_valid s)) ss, Y)" for Y
      using jelems_join [of ss d Y] Cons u by simp
    then show ?thesis using u not_quote not_ws
      by (simp add: parses_def Some json_strings_def strings_val_def jvalue.simps)
  qed (simp add: parses_def Some json_strings_def strings_val_def jvalue.simps not_quote)
qed (simp add: json_strings_def strings_val_def parses_null)

lemma string_elems_valid: "string_elems (map (\<lambda>s. JStr (to_valid s)) ss) = (None, map to_valid ss)"
  by (induction ss) (simp_all add: set_string_def)

lemma set_read:
  "set_string us (JStr s) x = (None, us s x)"
  "set_bool ub (JBool b) x = (None, ub b x)"
  "set_nil_bytes un (nil_bytes_val bs) x = (None, un bs x)"
  "set_strings ul (strings_val ss) x = (None, ul (map_option (map to_valid) ss) x)"
  by (auto simp: set_string_def set_bool_def set_nil_bytes_def set_bytes_def set_strings_def nil_bytes_val_def
      strings_val_def b64_roundtrip string_elems_valid split: option.split)


subsection \<open>What the receiver of a message reads\<close>

text \<open>\<open>json.Unmarshal\<close> of the data of the message that the receiver decoded.\<close>

definition received :: "'p json_field list \<Rightarrow> 'p \<Rightarrow> Envelope \<Rightarrow> json_err option \<times> 'p" where
  "received fs p e = json_Unmarshal fs (e_Data (snd (JSONCodec_Decode (JSONCodec_Encode e) zero_Envelope 0))) p"

lemma received_members:
  assumes "e_Type e \<noteq> []" and "e_Data e = json_object (map (\<lambda>(k, t, v). json_member k t) ms)" and "ms \<noteq> []"
    and "list_all (\<lambda>(k, t, v). plain_key k \<and> parses (json_depth - 1) t v) ms"
  shows "received fs p e = set_members fs (map (\<lambda>(k, t, v). (k, v)) ms) None p"
proof -
  have "JSONCodec_Decode (JSONCodec_Encode e) zero_Envelope 0 = (None, valid_envelope e)"
    using JSONCodec_Decode_Encode [of e 0 "[]"] assms(1) by simp
  then have "received fs p e = json_Unmarshal fs (json_object (map (\<lambda>(k, t, v). json_member k t) ms) @ []) p"
    by (simp add: received_def valid_envelope_def assms(2))
  then show ?thesis using json_object_reads(2) [OF assms(3,4), of "[]"] by (simp add: skip_ws_def)
qed

lemma payload_keys:
  "plain_key ''text''" "plain_key ''nick''" "plain_key ''raw''" "plain_key ''status''" "plain_key ''to''" "plain_key ''content''"
  "plain_key ''seq''" "plain_key ''timestamp''" "plain_key ''name''" "plain_key ''size''" "plain_key ''mime_type''" "plain_key ''checksum''"
  "plain_key ''file_id''" "plain_key ''chunk_id''" "plain_key ''data''" "plain_key ''is_last''"
  by code_simp+

lemmas payload_parses = parses_string parses_int parses_bool parses_nil_bytes payload_keys

lemma received_text: "received text_fields p (CreateTextMessage f u t s) = (None, \<lparr>tp_Text = to_valid s\<rparr>)"
  by (subst received_members [where ms = "[(''text'', json_string s, JStr (to_valid s))]"])
    (simp_all add: CreateTextMessage_def MsgText_def json_text_def payload_parses text_fields_def find_field_def set_read)


lemma received_nick: "received nick_fields p (CreateSetNickMessage f u t s) = (None, \<lparr>np_Nick = to_valid s\<rparr>)"
  by (subst received_members [where ms = "[(''nick'', json_string s, JStr (to_valid s))]"])
    (simp_all add: msg_type_defs payload_parses find_field_def set_read CreateSetNickMessage_def json_nick_def nick_fields_def)

lemma received_command: "received command_fields p (CreateCommandMessage f u t s) = (None, \<lparr>cp_Raw = to_valid s\<rparr>)"
  by (subst received_members [where ms = "[(''raw'', json_string s, JStr (to_valid s))]"])
    (simp_all add: msg_type_defs payload_parses find_field_def set_read CreateCommandMessage_def json_command_def command_fields_def)

lemma received_ack: "received ack_fields p (CreateAckMessage f u t s cid) = (None, \<lparr>ap_Status = to_valid s\<rparr>)"
  by (subst received_members [where ms = "[(''status'', json_string s, JStr (to_valid s))]"])
    (simp_all add: msg_type_defs payload_parses find_field_def set_read CreateAckMessage_def json_ack_def ack_fields_def)

lemma received_ping: "received ping_fields p (CreatePingMessage f u t t' i) = (None, \<lparr>pg_Seq = i, pg_Timestamp = t\<rparr>)"
  by (subst received_members [where ms = "[(''seq'', json_int i, JNum (json_int i)), (''timestamp'', json_int t, JNum (json_int t))]"])
    (simp_all add: msg_type_defs payload_parses find_field_def set_read CreatePingMessage_def json_ping_def ping_fields_def)

lemma received_pong: "received ping_fields p (CreatePongMessage f u t t' i cid) = (None, \<lparr>pg_Seq = i, pg_Timestamp = t\<rparr>)"
  by (subst received_members [where ms = "[(''seq'', json_int i, JNum (json_int i)), (''timestamp'', json_int t, JNum (json_int t))]"])
    (simp_all add: msg_type_defs payload_parses find_field_def set_read CreatePongMessage_def json_ping_def ping_fields_def)

lemma parses_recipients: "parses (json_depth - Suc 0) (json_strings dest) (strings_val dest)"
  using parses_strings [of "json_depth - 2" dest] by (simp add: json_depth_def)

lemma received_direct: "received direct_fields p (CreateDirectMessage f u t from dest s) =
    (None, \<lparr>dp_To = map_option (map to_valid) dest, dp_Content = to_valid s\<rparr>)"
  by (subst received_members [where ms = "[(''to'', json_strings dest, strings_val dest), (''content'', json_string s, JStr (to_valid s))]"])
    (simp_all add: msg_type_defs payload_parses find_field_def set_read parses_recipients CreateDirectMessage_def json_direct_def direct_fields_def)

lemma received_meta: "received file_meta_fields p (CreateFileMetaMessage f u t from m) =
    (None, m\<lparr>fm_Name := to_valid (fm_Name m), fm_MimeType := to_valid (fm_MimeType m), fm_Checksum := to_valid (fm_Checksum m)\<rparr>)"
  by (subst received_members [where ms = "[(''name'', json_string (fm_Name m), JStr (to_valid (fm_Name m))), (''size'', json_int (fm_Size m), JNum (json_int (fm_Size m))), (''mime_type'', json_string (fm_MimeType m), JStr (to_valid (fm_MimeType m))), (''checksum'', json_string (fm_Checksum m), JStr (to_valid (fm_Checksum m)))]"])
    (simp_all add: msg_type_defs payload_parses find_field_def set_read CreateFileMetaMessage_def json_file_meta_def file_meta_fields_def)

lemma received_chunk: "received file_chunk_fields p (CreateFileChunkMessage f u t from m) =
    (None, m\<lparr>fk_FileID := to_valid (fk_FileID m), fk_Checksum := to_valid (fk_Checksum m)\<rparr>)"
  by (subst received_members [where ms = "[(''file_id'', json_string (fk_FileID m), JStr (to_valid (fk_FileID m))), (''chunk_id'', json_int (fk_ChunkID m), JNum (json_int (fk_ChunkID m))), (''data'', json_bytes (fk_Data m), nil_bytes_val (fk_Data m)), (''is_last'', json_bool (fk_IsLast m), JBool (fk_IsLast m)), (''checksum'', json_string (fk_Checksum m), JStr (to_valid (fk_Checksum m)))]"])
    (simp_all add: msg_type_defs payload_parses find_field_def set_read CreateFileChunkMessage_def json_file_chunk_def file_chunk_fields_def)

text \<open>
  C13: what a message says arrives. Every message of the factory, encoded by the JSON codec and decoded
  by the receiver, yields its payload again: texts with their invalid UTF-8 bytes replaced, numbers,
  flags, the recipients of a direct message in order and the bytes of a file chunk exactly, with a nil
  slice and an empty one kept apart.
\<close>

theorem factory_payload_roundtrip:
  "received text_fields p1 (CreateTextMessage f u t s) = (None, \<lparr>tp_Text = to_valid s\<rparr>) \<and>
   received nick_fields p2 (CreateSetNickMessage f u t s) = (None, \<lparr>np_Nick = to_valid s\<rparr>) \<and>
   received command_fields p3 (CreateCommandMessage f u t s) = (None, \<lparr>cp_Raw = to_valid s\<rparr>) \<and>
   received ack_fields p4 (CreateAckMessage f u t s cid) = (None, \<lparr>ap_Status = to_valid s\<rparr>) \<and>
   received ping_fields p5 (CreatePingMessage f u t t' i) = (None, \<lparr>pg_Seq = i, pg_Timestamp = t\<rparr>) \<and>
   received ping_fields p6 (CreatePongMessage f u t t' i cid) = (None, \<lparr>pg_Seq = i, pg_Timestamp = t\<rparr>) \<and>
   received direct_fields p7 (CreateDirectMessage f u t from dest s) =
     (None, \<lparr>dp_To = map_option (map to_valid) dest, dp_Content = to_valid s\<rparr>) \<and>
   received file_meta_fields p8 (CreateFileMetaMessage f u t from meta) =
     (None, meta\<lparr>fm_Name := to_valid (fm_Name meta), fm_MimeType := to_valid (fm_MimeType meta), fm_Checksum := to_valid (fm_Checksum meta)\<rparr>) \<and>
   received file_chunk_fields p9 (CreateFileChunkMessage f u t from chunk) =
     (None, chunk\<lparr>fk_FileID := to_valid (fk_FileID chunk), fk_Checksum := to_valid (fk_Checksum chunk)\<rparr>)"
  by (simp add: received_text received_nick received_command received_ack received_ping received_pong received_direct
      received_meta received_chunk)

text \<open>
  A message that sets the nick has the type of a text message, so a receiver that goes by the type
  reads an empty text from it, without an error.
\<close>

lemma nick_read_as_text:
  "e_Type (CreateSetNickMessage f u t s) = e_Type (CreateTextMessage f u t s) \<and>
   received text_fields \<lparr>tp_Text = []\<rparr> (CreateSetNickMessage f u t s) = (None, \<lparr>tp_Text = []\<rparr>)"
proof
  have "fold_name ''text'' \<noteq> fold_name ''nick''" by code_simp
  then show "received text_fields \<lparr>tp_Text = []\<rparr> (CreateSetNickMessage f u t s) = (None, \<lparr>tp_Text = []\<rparr>)"
    by (subst received_members [where ms = "[(''nick'', json_string s, JStr (to_valid s))]"])
      (simp_all add: CreateSetNickMessage_def msg_type_defs json_nick_def payload_parses text_fields_def find_field_def)
qed (simp add: CreateSetNickMessage_def CreateTextMessage_def)

end
