(* ===== verification/Go_Rfc3339.thy ===== *)
theory Go_Rfc3339
  imports Go_Time Go_String_Lemmas
begin

section \<open>Instants as text (\<open>time.Time.MarshalJSON\<close> and \<open>UnmarshalJSON\<close>)\<close>

text \<open>
  The JSON text of an instant is its RFC 3339 form: date, time with the fraction of a second
  without trailing zeros, and the offset of its zone. The offset of the zone at an instant, in
  seconds, is a parameter as in \<open>Go_Time\<close>; a text names no zone, so reading gives the instant only.
  The reader accepts the RFC 3339 form that the package documents.
\<close>

subsection \<open>The calendar\<close>

definition leap :: "int \<Rightarrow> bool" where
  "leap y \<longleftrightarrow> y mod 4 = 0 \<and> (y mod 100 \<noteq> 0 \<or> y mod 400 = 0)"

definition daysIn :: "int \<Rightarrow> int \<Rightarrow> int" where
  "daysIn y m = (if m = 2 then (if leap y then 29 else 28)
     else if m = 4 \<or> m = 6 \<or> m = 9 \<or> m = 11 then 30 else 31)"

text \<open>The number of days from 1 January of year 1 to a date.\<close>

definition days_of_date :: "int \<Rightarrow> int \<Rightarrow> int \<Rightarrow> int" where
  "days_of_date y m d =
     365 * (y - 1) + (y - 1) div 4 - (y - 1) div 100 + (y - 1) div 400 +
     sum_list (map (daysIn y) [1..m - 1]) + (d - 1)"

subsection \<open>Output\<close>

text \<open>The fraction of a second: nine digits without trailing zeros, nothing when it is zero.\<close>

definition frac_text :: "int \<Rightarrow> string" where
  "frac_text ns = (if ns = 0 then [] else
     CHR ''.'' # rev (dropWhile (\<lambda>c. c = CHR ''0'') (rev (pad_int 9 ns))))"

definition zone_text :: "int \<Rightarrow> string" where
  "zone_text off =
     (if off = 0 then ''Z''
      else let zone = go_quot off 60 in
        (if zone < 0 then ''-'' else ''+'') @ pad_int 2 (abs zone div 60) @ '':'' @ pad_int 2 (abs zone mod 60))"

text \<open>The text; an error when the year needs more than four digits or the offset is a day or more.\<close>

definition time_text :: "(Time \<Rightarrow> int) \<Rightarrow> Time \<Rightarrow> string option" where
  "time_text tz t =
     (let secs = t div 1000000000 + tz t; day = secs div 86400; sod = secs mod 86400
      in case civil_date day of (y, m, d) \<Rightarrow>
        if y < 0 \<or> 9999 < y \<or> 24 \<le> abs (go_quot (tz t) 60) div 60 then None
        else Some (pad_int 4 y @ ''-'' @ pad_int 2 m @ ''-'' @ pad_int 2 d @ ''T'' @
          pad_int 2 (sod div 3600) @ '':'' @ pad_int 2 (sod div 60 mod 60) @ '':'' @ pad_int 2 (sod mod 60) @
          frac_text (t mod 1000000000) @ zone_text (tz t)))"

subsection \<open>Input\<close>

definition num_field :: "string \<Rightarrow> int \<Rightarrow> int \<Rightarrow> int option" where
  "num_field s lo hi = (case uint_loop 10 False 0 s of
     Inr v \<Rightarrow> if lo \<le> v \<and> v \<le> hi then Some v else None
   | Inl _ \<Rightarrow> None)"

text \<open>A fraction of a second, if there is one, and the rest; digits after the ninth do not count.\<close>

definition parse_frac :: "string \<Rightarrow> int \<times> string" where
  "parse_frac s = (case s of
     c # t \<Rightarrow> if c = CHR ''.'' \<and> takeWhile is_digit t \<noteq> [] then
         (case uint_loop 10 False 0 (take 9 (takeWhile is_digit t @ replicate 9 CHR ''0'')) of
            Inr v \<Rightarrow> (v, dropWhile is_digit t)
          | Inl _ \<Rightarrow> (0, s))
       else (0, s)
   | [] \<Rightarrow> (0, s))"

definition parse_zone :: "string \<Rightarrow> int option" where
  "parse_zone s =
     (if s = ''Z'' then Some 0
      else if length s \<noteq> 6 then None
      else case (num_field (take 2 (drop 1 s)) 0 23, num_field (drop 4 s) 0 59) of
        (Some hr, Some mm) \<Rightarrow>
          if (s ! 0 = CHR ''-'' \<or> s ! 0 = CHR ''+'') \<and> s ! 3 = CHR '':''
          then Some ((if s ! 0 = CHR ''-'' then -1 else 1) * ((hr * 60 + mm) * 60)) else None
      | _ \<Rightarrow> None)"

definition text_time :: "string \<Rightarrow> Time option" where
  "text_time s =
     (if length s < 19 then None
      else case (num_field (take 4 s) 0 9999, num_field (take 2 (drop 5 s)) 1 12) of
        (Some year, Some month) \<Rightarrow>
          (case (num_field (take 2 (drop 8 s)) 1 (daysIn year month), num_field (take 2 (drop 11 s)) 0 23,
                 num_field (take 2 (drop 14 s)) 0 59, num_field (take 2 (drop 17 s)) 0 59) of
             (Some day, Some hour, Some minute, Some sec) \<Rightarrow>
               if s ! 4 = CHR ''-'' \<and> s ! 7 = CHR ''-'' \<and> s ! 10 = CHR ''T'' \<and> s ! 13 = CHR '':'' \<and> s ! 16 = CHR '':'' then
                 (case parse_frac (drop 19 s) of (nsec, rest) \<Rightarrow>
                    map_option (\<lambda>off. (days_of_date year month day * 86400 + hour * 3600 + minute * 60 + sec - off) * 1000000000 + nsec)
                      (parse_zone rest))
               else None
           | _ \<Rightarrow> None)
      | _ \<Rightarrow> None)"

subsection \<open>The civil date is a date of the calendar\<close>

definition year_start :: "int \<Rightarrow> int" where
  "year_start y = 365 * y + y div 4 - y div 100"

definition year_of :: "int \<Rightarrow> int" where
  "year_of doe = (doe - doe div 1460 + doe div 36524 - doe div 146096) div 365"

definition year_len :: "int \<Rightarrow> int" where
  "year_len y = (if leap (y + 1) then 366 else 365)"

lemma year_of_step: "0 \<le> a \<Longrightarrow> a < 146096 \<Longrightarrow> year_of a \<le> year_of (a + 1)"
proof -
  assume a: "0 \<le> a" "a < 146096"
  define p q r u where "p = a div 1460" and "q = (a + 1) div 1460" and "r = a div 36524" and "u = (a + 1) div 36524"
  have r: "r \<le> u" unfolding r_def u_def by (rule zdiv_mono1) auto
  have q: "q \<le> p + 1" unfolding p_def q_def by linarith
  have z: "a div 146096 = 0" using a by simp
  have "a - p + r - a div 146096 \<le> a + 1 - q + u - (a + 1) div 146096"
  proof (cases "a = 146095")
    case True
    then show ?thesis by (simp add: p_def q_def r_def u_def)
  next
    case False
    then have "(a + 1) div 146096 = 0" using a by simp
    with r q z show ?thesis by linarith
  qed
  then show ?thesis unfolding year_of_def p_def q_def r_def u_def by (rule zdiv_mono1) simp
qed

lemma year_of_mono: "0 \<le> a \<Longrightarrow> a \<le> b \<Longrightarrow> b \<le> 146096 \<Longrightarrow> year_of a \<le> year_of b"
proof (induction "nat (b - a)" arbitrary: b)
  case (Suc n)
  then have "year_of a \<le> year_of (b - 1)" by (intro Suc.hyps(1)) auto
  also have "\<dots> \<le> year_of (b - 1 + 1)" using Suc by (intro year_of_step) auto
  finally show ?case by simp
qed simp

lemma year_table: "list_all (\<lambda>y. year_of (year_start y) = y \<and> year_of (year_start y + year_len y - 1) = y \<and>
    year_start y + year_len y = (if y = 399 then 146097 else year_start (y + 1)) \<and>
    year_start y + year_len y \<le> 146097) (map int [0..<400])"
  by code_simp

lemma year_table':
  assumes "0 \<le> y" and "y < 400"
  shows "year_of (year_start y) = y" "year_of (year_start y + year_len y - 1) = y"
    "year_start y + year_len y = (if y = 399 then 146097 else year_start (y + 1))" "year_start y + year_len y \<le> 146097"
proof -
  have "y \<in> set (map int [0..<400])" using assms by (auto intro!: image_eqI [where x = "nat y"])
  then show "year_of (year_start y) = y" "year_of (year_start y + year_len y - 1) = y"
    "year_start y + year_len y = (if y = 399 then 146097 else year_start (y + 1))" "year_start y + year_len y \<le> 146097"
    using year_table unfolding list_all_iff by blast+
qed

lemma year_of_range:
  assumes "0 \<le> doe" and "doe < 146097"
  shows "0 \<le> year_of doe" "year_of doe < 400" "year_start (year_of doe) \<le> doe"
    "doe < year_start (year_of doe) + year_len (year_of doe)"
proof -
  let ?y = "year_of doe"
  have ends: "year_of 0 = 0" "year_of 146096 = 399" by (simp_all add: year_of_def)
  show y0: "0 \<le> ?y" using year_of_mono [of 0 doe] assms ends by simp
  show y1: "?y < 400" using year_of_mono [of doe 146096] assms ends by simp
  have start: "0 \<le> year_start y" if "0 \<le> y" for y using that unfolding year_start_def by linarith
  note table = year_table' [OF y0 y1]
  show "year_start ?y \<le> doe"
  proof (rule ccontr)
    assume less: "\<not> year_start ?y \<le> doe"
    then have "0 < ?y" using assms y0 by (cases "?y = 0") (auto simp: year_start_def)
    then have prev: "0 \<le> ?y - 1" "?y - 1 < 400" "?y - 1 \<noteq> 399" using y1 by auto
    have "doe \<le> year_start (?y - 1) + year_len (?y - 1) - 1" using less year_table'(3) [OF prev(1,2)] prev(3) by simp
    moreover have "year_start (?y - 1) + year_len (?y - 1) - 1 \<le> 146096"
      using year_table'(4) [OF prev(1,2)] by simp
    ultimately have "?y \<le> ?y - 1"
      using year_of_mono [of doe "year_start (?y - 1) + year_len (?y - 1) - 1"] assms year_table'(2) [OF prev(1,2)] by simp
    then show False by simp
  qed
  show "doe < year_start ?y + year_len ?y"
  proof (rule ccontr)
    assume "\<not> doe < year_start ?y + year_len ?y"
    then have le: "year_start ?y + year_len ?y \<le> doe" by simp
    then have "?y \<noteq> 399" using table(3) assms by auto
    then have nxt: "0 \<le> ?y + 1" "?y + 1 < 400" using y0 y1 by auto
    have "year_start (?y + 1) \<le> doe" using le table(3) \<open>?y \<noteq> 399\<close> by simp
    then have "?y + 1 \<le> ?y"
      using year_of_mono [OF start [OF nxt(1)], of doe] assms year_table'(1) [OF nxt] by simp
    then show False by simp
  qed
qed

definition month_ok :: "int \<Rightarrow> bool" where
  "month_ok doy \<longleftrightarrow> (let mp = (5 * doy + 2) div 153; d = doy - (153 * mp + 2) div 5 + 1 in
     0 \<le> mp \<and> mp \<le> 11 \<and> 1 \<le> d \<and>
     d \<le> (if mp = 11 then (if doy = 365 then 29 else 28) else if mp = 1 \<or> mp = 3 \<or> mp = 6 \<or> mp = 8 then 30 else 31))"

lemma month_table: "list_all month_ok (map int [0..<366])"
  by code_simp

lemma month_ok: "0 \<le> doy \<Longrightarrow> doy < 366 \<Longrightarrow> month_ok doy"
proof -
  assume "0 \<le> doy" "doy < 366"
  then have "doy \<in> set (map int [0..<366])" by (auto intro!: image_eqI [where x = "nat doy"])
  then show ?thesis using month_table unfolding list_all_iff by blast
qed

lemma div_pred: "0 < k \<Longrightarrow> w div k = (w - 1) div k + (if w mod k = 0 then 1 else 0)" for w k :: int
proof (cases "w mod k = 0")
  case True
  assume k: "0 < k"
  from True obtain q where w: "w = k * q" by auto
  have "(w - 1) div k = q - 1" unfolding w using k by (intro int_div_pos_eq [where r = "k - 1"]) (auto simp: algebra_simps)
  with w k show ?thesis by simp
next
  case False
  assume k: "0 < k"
  then have "0 < w mod k" "w mod k < k" using False pos_mod_bound [of k w] pos_mod_sign [of k w] by linarith+
  moreover have "w = k * (w div k) + w mod k" by simp
  ultimately have "(w - 1) div k = w div k"
    using k by (intro int_div_pos_eq [where r = "w mod k - 1"]) linarith+
  with False show ?thesis by simp
qed

lemma leap_sum:
  "a = a' + (if p then 1 else 0) \<Longrightarrow> b = b' + (if q then 1 else 0) \<Longrightarrow> c = c' + (if r then 1 else 0) \<Longrightarrow>
     (r \<Longrightarrow> q) \<Longrightarrow> (q \<Longrightarrow> p) \<Longrightarrow> a - b + c = a' - b' + c' + (if p \<and> (\<not> q \<or> r) then 1 else 0)" for a b c :: int
  by (cases p; cases q; cases r) simp_all

lemma leap_days:
  "w div 4 - w div 100 + w div 400 =
     (w - 1) div 4 - (w - 1) div 100 + (w - 1) div 400 + (if leap w then 1 else 0)"
  unfolding leap_def
proof (rule leap_sum)
  show "w mod 400 = 0 \<Longrightarrow> w mod 100 = 0" "w mod 100 = 0 \<Longrightarrow> w mod 4 = 0"
    by (auto intro: dvd_trans [of _ 400] dvd_trans [of _ 100] simp: dvd_eq_mod_eq_0 [symmetric])
qed (rule div_pred, simp)+

lemma leap_era: "leap (w + 400 * e) \<longleftrightarrow> leap w"
proof -
  have "(w + 400 * e) mod 4 = w mod 4" using mod_mult_self2 [of w 4 "100 * e"] by simp
  moreover have "(w + 400 * e) mod 100 = w mod 100" using mod_mult_self2 [of w 100 "4 * e"] by simp
  moreover have "(w + 400 * e) mod 400 = w mod 400" by (rule mod_mult_self2)
  ultimately show ?thesis unfolding leap_def by (simp only:)
qed

lemma era_days: "365 * (Y + 400 * e) + (Y + 400 * e) div 4 - (Y + 400 * e) div 100 + (Y + 400 * e) div 400 =
    146097 * e + year_start Y" if "0 \<le> Y" "Y < 400" for Y e :: int
proof -
  have "(Y + 400 * e) div 4 = Y div 4 + 100 * e" "(Y + 400 * e) div 100 = Y div 100 + 4 * e" "(Y + 400 * e) div 400 = e"
    using div_mult_self2 [of 4 Y "100 * e"] div_mult_self2 [of 100 Y "4 * e"] div_mult_self2 [of 400 Y e] that by simp_all
  then show ?thesis by (simp add: year_start_def)
qed

text \<open>The days of a date, counted from March of the year before or of the same year.\<close>

lemma month_sum:
  assumes "0 \<le> mp" and "mp \<le> 11"
  shows "sum_list (map (daysIn y) [1..(if mp < 10 then mp + 3 else mp - 9) - 1]) =
    (153 * mp + 2) div 5 + (if mp < 10 then 59 + (if leap y then 1 else 0) else - 306)"
proof -
  have "mp = 0 \<or> mp = 1 \<or> mp = 2 \<or> mp = 3 \<or> mp = 4 \<or> mp = 5 \<or> mp = 6 \<or> mp = 7 \<or> mp = 8 \<or>
      mp = 9 \<or> mp = 10 \<or> mp = 11" using assms by arith
  then show ?thesis by (elim disjE) (simp_all add: upto.simps daysIn_def)
qed

lemma days_from_march:
  assumes "0 \<le> mp" and "mp \<le> 11"
  shows "days_of_date (if mp < 10 then w else w + 1) (if mp < 10 then mp + 3 else mp - 9) d =
    365 * w + (w div 4 - w div 100 + w div 400) + (153 * mp + 2) div 5 + d - 307"
proof (cases "mp < 10")
  case True
  then show ?thesis unfolding days_of_date_def month_sum [OF assms] leap_days [of w] by simp
next
  case False
  then show ?thesis unfolding days_of_date_def month_sum [OF assms] by simp
qed

lemma civil_date_ok:
  assumes "civil_date n = (y, m, d)"
  shows "1 \<le> m" "m \<le> 12" "1 \<le> d" "d \<le> daysIn y m" "days_of_date y m d = n"
proof -
  define era doe where "era = (n + 306) div 146097" and "doe = (n + 306) mod 146097"
  define Y doy where "Y = year_of doe" and "doy = doe - year_start Y"
  define mp where "mp = (5 * doy + 2) div 153"
  have doe: "0 \<le> doe" "doe < 146097" "n + 306 = 146097 * era + doe" by (simp_all add: era_def doe_def)
  note Y = year_of_range [OF doe(1,2), folded Y_def]
  have doy: "0 \<le> doy" "doy < 366" "doy = 365 \<Longrightarrow> leap (Y + 1)"
    using Y(3,4) by (auto simp: doy_def year_len_def split: if_splits)
  let ?d = "doy - (153 * mp + 2) div 5 + 1"
  have ok: "0 \<le> mp" "mp \<le> 11" "1 \<le> ?d"
    "?d \<le> (if mp = 11 then (if doy = 365 then 29 else 28) else if mp = 1 \<or> mp = 3 \<or> mp = 6 \<or> mp = 8 then 30 else 31)"
    using month_ok [OF doy(1,2)] unfolding month_ok_def Let_def mp_def [symmetric] by blast+
  have eq: "y = (if mp < 10 then Y + 400 * era else Y + 400 * era + 1)" "m = (if mp < 10 then mp + 3 else mp - 9)" "d = ?d"
    using assms ok(1,2)
    unfolding civil_date_def Let_def era_def [symmetric] doe_def [symmetric] year_of_def [symmetric] Y_def [symmetric]
      year_start_def [symmetric] doy_def [symmetric] mp_def [symmetric]
    by (simp_all split: if_splits)
  show "1 \<le> m" "m \<le> 12" "1 \<le> d" using ok(1,2,3) eq by auto
  have "leap (Y + 400 * era + 1) \<longleftrightarrow> leap (Y + 1)" using leap_era [of "Y + 1" era] by (simp add: add_ac)
  then show "d \<le> daysIn y m"
    using ok doy(3) unfolding eq by (auto simp: daysIn_def split: if_splits)
  have "days_of_date y m d = 146097 * era + year_start Y + (153 * mp + 2) div 5 + ?d - 307"
    using days_from_march [OF ok(1,2), of "Y + 400 * era" ?d] era_days [OF Y(1,2), of era] unfolding eq by simp
  then show "days_of_date y m d = n" using doe(3) by (simp add: doy_def)
qed

subsection \<open>Reading gives back what was written\<close>

lemma int_digits_length: "n < 10 ^ Suc k \<Longrightarrow> length (int_digits n) \<le> Suc k"
proof (induction k arbitrary: n)
  case 0
  then show ?case by (subst int_digits.simps) simp
next
  case (Suc k)
  then have "n div 10 < 10 ^ Suc k" by (simp add: int_div_less_self div_less_iff_less_mult)
  then show ?case using Suc.IH [of "n div 10"] by (subst int_digits.simps) simp
qed

lemma pad_int_length: "0 \<le> i \<Longrightarrow> i < 10 ^ Suc k \<Longrightarrow> length (pad_int (Suc k) i) = Suc k"
  using int_digits_length [of i k] by (simp add: pad_int_def Let_def)

lemma uint_loop_zeros: "uint_loop 10 False 0 (replicate k CHR ''0'' @ s) = uint_loop 10 False 0 s"
  by (induction k) simp_all

lemma pad_int_value: "0 \<le> i \<Longrightarrow> i < 2 ^ 64 \<Longrightarrow> uint_loop 10 False 0 (pad_int k i) = Inr i"
  by (simp add: pad_int_def Let_def uint_loop_zeros uint_loop_digits)

lemma pad_int_digits: "0 \<le> i \<Longrightarrow> list_all is_digit (pad_int k i)"
  by (simp add: pad_int_def Let_def int_digits_digits) (simp add: list_all_iff is_digit_def)

lemma num_field_pad: "lo \<le> i \<Longrightarrow> i \<le> hi \<Longrightarrow> 0 \<le> i \<Longrightarrow> i < 2 ^ 64 \<Longrightarrow> num_field (pad_int k i) lo hi = Some i"
  by (simp add: num_field_def pad_int_value)

lemma strip_zeros: "\<exists>k. xs = rev (dropWhile (\<lambda>c. c = CHR ''0'') (rev xs)) @ replicate k CHR ''0''"
proof -
  have "takeWhile (\<lambda>c. c = CHR ''0'') (rev xs) = replicate (length (takeWhile (\<lambda>c. c = CHR ''0'') (rev xs))) CHR ''0''"
    by (rule replicate_length_same [symmetric]) (auto dest: set_takeWhileD)
  then obtain k where "takeWhile (\<lambda>c. c = CHR ''0'') (rev xs) = replicate k CHR ''0''" by blast
  then have "rev (takeWhile (\<lambda>c. c = CHR ''0'') (rev xs)) = replicate k CHR ''0''" by simp
  then show ?thesis by (metis rev_append rev_rev_ident takeWhile_dropWhile_id)
qed

lemma parse_frac_text:
  assumes "0 \<le> ns" and "ns < 10 ^ 9" and "rest = [] \<or> \<not> is_digit (hd rest)" and "rest = [] \<or> hd rest \<noteq> CHR ''.''"
  shows "parse_frac (frac_text ns @ rest) = (ns, rest)"
proof (cases "ns = 0")
  case True
  then show ?thesis using assms(4) by (cases rest) (simp_all add: frac_text_def parse_frac_def)
next
  case False
  define ds where "ds = rev (dropWhile (\<lambda>c. c = CHR ''0'') (rev (pad_int 9 ns)))"
  obtain k where k: "pad_int 9 ns = ds @ replicate k CHR ''0''" using strip_zeros unfolding ds_def by blast
  have len: "length (pad_int 9 ns) = 9" using pad_int_length [of ns 8] assms(1,2) by simp
  have val: "uint_loop 10 False 0 (pad_int 9 ns) = Inr ns" using assms(1,2) by (intro pad_int_value) auto
  have dig: "list_all is_digit ds" using pad_int_digits [OF assms(1), of 9] by (simp add: k)
  have ne: "ds \<noteq> []"
  proof
    assume "ds = []"
    then have "pad_int 9 ns = replicate k CHR ''0'' @ []" using k by simp
    then have "uint_loop 10 False 0 (pad_int 9 ns) = uint_loop 10 False 0 []" by (simp only: uint_loop_zeros)
    then show False using val False by simp
  qed
  have tw: "takeWhile is_digit (ds @ rest) = ds" "dropWhile is_digit (ds @ rest) = rest"
    using dig assms(3) by (cases rest; simp add: takeWhile_append2 dropWhile_append2 list_all_iff)+
  have "take 9 (ds @ replicate 9 CHR ''0'') = pad_int 9 ns" using len by (auto simp: k take_Cons' min_def)
  then show ?thesis using False ne tw val by (simp add: frac_text_def ds_def [symmetric] parse_frac_def)
qed

lemma zone_text_first: "hd (zone_text off) \<in> set ''Z+-''"
  by (simp add: zone_text_def Let_def)

lemma abs_zone: "off mod 60 = 0 \<Longrightarrow> go_quot off 60 * 60 = off" for off :: int
proof -
  assume "off mod 60 = 0"
  then obtain q where q: "off = 60 * q" by auto
  have "go_quot (60 * q) 60 = q" by (simp add: go_quot_def abs_mult sgn_mult mult_sgn_abs)
  then show ?thesis using q by simp
qed

lemma parse_zone_text:
  assumes "off mod 60 = 0" and "abs (go_quot off 60) div 60 < 24"
  shows "parse_zone (zone_text off) = Some off"
proof (cases "off = 0")
  case True
  then show ?thesis by (simp add: zone_text_def parse_zone_def)
next
  case False
  define zone where "zone = go_quot off 60"
  define h m where "h = abs zone div 60" and "m = abs zone mod 60"
  have hm: "0 \<le> h" "h < 24" "0 \<le> m" "m < 60" using assms(2) by (simp_all add: h_def m_def zone_def pos_imp_zdiv_nonneg_iff)
  have zone: "zone * 60 = off" "zone \<noteq> 0" using abs_zone [OF assms(1)] False by (auto simp: zone_def)
  have abs: "h * 60 + m = abs zone" by (simp add: h_def m_def)
  have len: "length (pad_int 2 h) = 2" "length (pad_int 2 m) = 2"
    using pad_int_length [of _ 1] hm by (simp_all add: numeral_2_eq_2)
  let ?s = "if zone < 0 then CHR ''-'' else CHR ''+''"
  have zt: "zone_text off = ?s # pad_int 2 h @ CHR '':'' # pad_int 2 m"
    using False by (simp add: zone_text_def Let_def zone_def [symmetric] h_def m_def)
  have f: "num_field (pad_int 2 h) 0 23 = Some h" "num_field (pad_int 2 m) 0 59 = Some m"
    using hm by (auto intro!: num_field_pad)
  have at: "zone_text off ! 3 = CHR '':''" "drop 4 (zone_text off) = pad_int 2 m" "take 2 (drop 1 (zone_text off)) = pad_int 2 h"
    "length (zone_text off) = 6" "zone_text off ! 0 = ?s" "zone_text off \<noteq> ''Z''"
    using len by (simp_all add: zt nth_append numeral_nat)
  have "(if ?s = CHR ''-'' then - 1 else 1) * ((h * 60 + m) * 60) = off"
    unfolding abs zone(1) [symmetric] by (auto simp: abs_if)
  moreover have "?s = CHR ''-'' \<or> ?s = CHR ''+''" by simp
  ultimately show ?thesis using at(6) by (simp only: parse_zone_def at(1-5) f) simp
qed

text \<open>
  An instant whose year has four digits and whose zone is a whole number of minutes from UTC is
  read back exactly as it was written.
\<close>

lemma clock_parts:
  fixes s :: int
  assumes "0 \<le> s" and "s < 86400"
  shows "0 \<le> s div 3600" "s div 3600 < 24" "s div 3600 * 3600 + s div 60 mod 60 * 60 + s mod 60 = s"
proof -
  have "s div 3600 = s div 60 div 60" using zdiv_zmult2_eq [of 60 s 60] by simp
  moreover have "s div 60 = 60 * (s div 60 div 60) + s div 60 mod 60" "s = 60 * (s div 60) + s mod 60" by simp_all
  ultimately show "s div 3600 * 3600 + s div 60 mod 60 * 60 + s mod 60 = s" by linarith
  show "0 \<le> s div 3600" using assms by (simp add: pos_imp_zdiv_nonneg_iff)
  show "s div 3600 < 24" using assms by linarith
qed

lemma text_time_text:
  assumes "time_text tz t = Some s" and "tz t mod 60 = 0"
  shows "text_time s = Some t"
proof -
  define secs where "secs = t div 1000000000 + tz t"
  define sod where "sod = secs mod 86400"
  obtain y m d where c: "civil_date (secs div 86400) = (y, m, d)" by (cases "civil_date (secs div 86400)")
  note date = civil_date_ok [OF c]
  define hh mm ss where "hh = sod div 3600" and "mm = sod div 60 mod 60" and "ss = sod mod 60"
  have sod: "0 \<le> sod" "sod < 86400" by (simp_all add: sod_def)
  have hms: "0 \<le> hh" "hh < 24" "0 \<le> mm" "mm < 60" "0 \<le> ss" "ss < 60" "hh * 3600 + mm * 60 + ss = sod"
    unfolding hh_def mm_def ss_def using clock_parts [OF sod] by simp_all
  define tail where "tail = frac_text (t mod 1000000000) @ zone_text (tz t)"
  have y: "0 \<le> y" "y \<le> 9999" and z: "abs (go_quot (tz t) 60) div 60 < 24"
    and s: "s = pad_int 4 y @ ''-'' @ pad_int 2 m @ ''-'' @ pad_int 2 d @ ''T'' @
        pad_int 2 hh @ '':'' @ pad_int 2 mm @ '':'' @ pad_int 2 ss @ tail"
    using assms(1) c by (auto simp: time_text_def Let_def secs_def [symmetric] sod_def hh_def mm_def ss_def tail_def split: if_splits)
  have d31: "d \<le> 31" using date(4) by (auto simp: daysIn_def split: if_splits)
  have len: "length (pad_int 4 y) = 4" "length (pad_int 2 m) = 2" "length (pad_int 2 d) = 2"
    "length (pad_int 2 hh) = 2" "length (pad_int 2 mm) = 2" "length (pad_int 2 ss) = 2"
    using pad_int_length [of _ 1] pad_int_length [of y 3] y date(1-3) d31 hms by (simp_all add: numeral_2_eq_2 numeral_nat)
  have f: "num_field (pad_int 4 y) 0 9999 = Some y" "num_field (pad_int 2 m) 1 12 = Some m"
    "num_field (pad_int 2 d) 1 (daysIn y m) = Some d" "num_field (pad_int 2 hh) 0 23 = Some hh"
    "num_field (pad_int 2 mm) 0 59 = Some mm" "num_field (pad_int 2 ss) 0 59 = Some ss"
    using y date d31 hms by (auto intro!: num_field_pad)
  have at: "take 4 s = pad_int 4 y" "take 2 (drop 5 s) = pad_int 2 m" "take 2 (drop 8 s) = pad_int 2 d"
    "take 2 (drop 11 s) = pad_int 2 hh" "take 2 (drop 14 s) = pad_int 2 mm" "take 2 (drop 17 s) = pad_int 2 ss"
    "drop 19 s = tail" "s ! 4 = CHR ''-''" "s ! 7 = CHR ''-''" "s ! 10 = CHR ''T''" "s ! 13 = CHR '':''" "s ! 16 = CHR '':''"
    "\<not> length s < 19"
    using len by (simp_all add: s nth_append)
  have frac: "parse_frac tail = (t mod 1000000000, zone_text (tz t))"
    unfolding tail_def using zone_text_first [of "tz t"] by (intro parse_frac_text) (auto simp: is_digit_def)
  have "days_of_date y m d * 86400 + hh * 3600 + mm * 60 + ss - tz t = t div 1000000000"
  proof -
    have "secs = secs div 86400 * 86400 + sod" by (simp add: sod_def)
    then show ?thesis using date(5) hms(7) secs_def by linarith
  qed
  then have t: "(days_of_date y m d * 86400 + hh * 3600 + mm * 60 + ss - tz t) * 1000000000 + t mod 1000000000 = t"
    by simp
  show ?thesis using t by (simp add: text_time_def at f frac parse_zone_text [OF assms(2) z])
qed

definition time_char :: "char \<Rightarrow> bool" where
  "time_char c \<longleftrightarrow> is_digit c \<or> c \<in> set ''-:.TZ+''"

lemma time_char_pad: "list_all time_char (pad_int k i)"
proof -
  have "list_all time_char (int_digits (abs i))"
    using int_digits_digits [of "abs i"] by (simp add: list_all_iff time_char_def)
  then show ?thesis by (simp add: pad_int_def Let_def) (simp add: list_all_iff time_char_def is_digit_def)
qed

lemma time_char_frac: "list_all time_char (frac_text ns)"
proof -
  have "set (dropWhile P (rev xs)) \<subseteq> set xs" for P and xs :: string by (auto dest!: set_dropWhileD)
  then have "list_all time_char (rev (dropWhile P (rev (pad_int 9 ns))))" for P
    using time_char_pad [of 9 ns] unfolding list_all_iff set_rev by blast
  then show ?thesis by (simp add: frac_text_def) (simp add: time_char_def)
qed

lemma time_char_zone: "list_all time_char (zone_text off)"
  unfolding zone_text_def Let_def by (simp add: time_char_pad) (simp add: time_char_def)

lemma time_text_chars: "time_text tz t = Some s \<Longrightarrow> list_all time_char s"
proof -
  have lits: "time_char CHR ''-''" "time_char CHR ''T''" "time_char CHR '':''" by (simp_all add: time_char_def)
  assume "time_text tz t = Some s"
  then show ?thesis
    by (auto simp: time_text_def Let_def time_char_pad time_char_frac time_char_zone lits split: if_splits prod.splits)
qed

end
