(* ===== verification/Redis_Bus.thy ===== *)
theory Redis_Bus
  imports Subscribers Go_Json Go_Rfc3339
begin

section \<open>The Redis stream bus (internal/bus/redisstream/bus.go)\<close>

text \<open>
  Publishing to and consuming from a Redis stream. The client library go-redis is a parameter: its
  commands act on a state of any type \<open>'s\<close>, which is part of the world. \<open>tz\<close> is the offset of the
  time zone, in which instants are written.
\<close>

datatype redis_err = RedisNil | RedisError string

text \<open>A message of a stream: its id and its values, all strings.\<close>

type_synonym xmessage = "string \<times> (string \<times> string) list"

record 's redis_lib =
  XGroupCreateMkStream :: "string \<Rightarrow> string \<Rightarrow> string \<Rightarrow> 's \<Rightarrow> redis_err option \<times> 's"
  XAdd :: "string \<Rightarrow> (string \<times> string) list \<Rightarrow> 's \<Rightarrow> redis_err option \<times> 's"
  XReadGroup :: "string \<Rightarrow> string \<Rightarrow> string list \<Rightarrow> int \<Rightarrow> Duration \<Rightarrow> 's \<Rightarrow> (redis_err + xmessage list list) \<times> 's"
  XAck :: "string \<Rightarrow> string \<Rightarrow> string \<Rightarrow> 's \<Rightarrow> redis_err option \<times> 's"

record Bus =
  bus_addr :: string
  bus_db :: int
  bus_stream :: string
  bus_group :: string

record Message =
  m_Type :: string
  m_When :: Time
  m_From :: string
  m_To :: string
  m_Text :: string

definition New_bus :: "string \<Rightarrow> int \<Rightarrow> string \<Rightarrow> string \<Rightarrow> Bus" where
  "New_bus addr db strm grp = \<lparr>bus_addr = addr, bus_db = db, bus_stream = strm, bus_group = grp\<rparr>"

text \<open>\<open>json.Marshal\<close>: empty optional fields are left out; an instant without a text is an error, and the payload is then empty.\<close>

definition Message_json :: "(Time \<Rightarrow> int) \<Rightarrow> Message \<Rightarrow> string" where
  "Message_json tz m = (case time_text tz (m_When m) of
     None \<Rightarrow> []
   | Some t \<Rightarrow> json_object ([json_member ''type'' (json_string (m_Type m)),
         json_member ''when'' ([quote_char] @ t @ [quote_char])] @
       omitempty ''from'' (m_From m) @ omitempty ''to'' (m_To m) @ omitempty ''text'' (m_Text m)))"

definition zero_Message :: Message where
  "zero_Message = \<lparr>m_Type = [], m_When = 0, m_From = [], m_To = [], m_Text = []\<rparr>"

definition set_time :: "jval \<Rightarrow> Message \<Rightarrow> json_err option \<times> Message" where
  "set_time v m = (case v of
     JStr s \<Rightarrow> (case text_time s of Some t \<Rightarrow> (None, m\<lparr>m_When := t\<rparr>) | None \<Rightarrow> (Some JTypeMismatch, m))
   | JNull \<Rightarrow> (None, m) | _ \<Rightarrow> (Some JTypeMismatch, m))"

definition Message_fields :: "Message json_field list" where
  "Message_fields = [(''type'', set_string (\<lambda>s m. m\<lparr>m_Type := s\<rparr>)), (''when'', set_time),
     (''from'', set_string (\<lambda>s m. m\<lparr>m_From := s\<rparr>)), (''to'', set_string (\<lambda>s m. m\<lparr>m_To := s\<rparr>)),
     (''text'', set_string (\<lambda>s m. m\<lparr>m_Text := s\<rparr>))]"

definition Message_parse :: "string \<Rightarrow> Message option" where
  "Message_parse raw = (case json_Unmarshal Message_fields raw zero_Message of
     (None, m) \<Rightarrow> Some m | (Some _, _) \<Rightarrow> None)"

subsection \<open>The bus in the world of the server\<close>

text \<open>The world with the state of the Redis client.\<close>

record ('h, 's) bus_world = "'h world" +
  bw_redis :: 's

definition redis_call :: "('s \<Rightarrow> 'a \<times> 's) \<Rightarrow> (('h, 's) bus_world, 'a) go" where
  "redis_call f = (\<lambda>w. case f (bw_redis w) of (r, s) \<Rightarrow> (Ret r, w\<lparr>bw_redis := s\<rparr>))"

definition EnsureGroup :: "'s redis_lib \<Rightarrow> Bus \<Rightarrow> (('h, 's) bus_world, redis_err option) go" where
  "EnsureGroup rl b =
     thenG (redis_call (XGroupCreateMkStream rl (bus_stream b) (bus_group b) ''$'')) (ret None)"

definition Publish :: "'s redis_lib \<Rightarrow> (Time \<Rightarrow> int) \<Rightarrow> Bus \<Rightarrow> Message \<Rightarrow> (('h, 's) bus_world, redis_err option) go" where
  "Publish rl tz b m = redis_call (XAdd rl (bus_stream b) [(''data'', Message_json tz m)])"

text \<open>One message of a batch: a payload that does not parse is acknowledged without the handler.\<close>

definition consume_one ::
  "'s redis_lib \<Rightarrow> Bus \<Rightarrow> (Message \<Rightarrow> (('h, 's) bus_world, unit) go) \<Rightarrow> xmessage \<Rightarrow> (('h, 's) bus_world, unit) go" where
  "consume_one rl b handler xmsg = (case xmsg of (mid, values) \<Rightarrow>
     let raw = (case map_of values ''data'' of Some s \<Rightarrow> s | None \<Rightarrow> [])
     in thenG (case Message_parse raw of Some m \<Rightarrow> handler m | None \<Rightarrow> ret ())
       (thenG (redis_call (XAck rl (bus_stream b) (bus_group b) mid)) (ret ())))"

text \<open>
  One round of \<open>Consume\<close>: \<open>ctxErr\<close> is the error of the context when it is looked at. The result is
  the error the loop returns with, or \<open>None\<close> to go on.
\<close>

definition Consume_round ::
  "'s redis_lib \<Rightarrow> Bus \<Rightarrow> string \<Rightarrow> (Message \<Rightarrow> (('h, 's) bus_world, unit) go) \<Rightarrow> string option \<Rightarrow>
     (('h, 's) bus_world, string option) go" where
  "Consume_round rl b consumer handler ctxErr =
     bindG (redis_call (XReadGroup rl (bus_group b) consumer [bus_stream b, ''>''] 100 (5 * time_Second))) (\<lambda>res. case res of
       Inl RedisNil \<Rightarrow> ret None
     | Inl (RedisError _) \<Rightarrow> ret ctxErr
     | Inr strs \<Rightarrow> thenG (forG (concat strs) (consume_one rl b handler)) (ret None))"

text \<open>The loop, over the errors that the context has round by round; \<open>None\<close> means it still runs.\<close>

fun Consume ::
  "'s redis_lib \<Rightarrow> Bus \<Rightarrow> string \<Rightarrow> (Message \<Rightarrow> (('h, 's) bus_world, unit) go) \<Rightarrow> string option list \<Rightarrow>
     (('h, 's) bus_world, string option) go" where
  "Consume rl b consumer handler [] = ret None"
| "Consume rl b consumer handler (ctxErr # rest) =
     bindG (Consume_round rl b consumer handler ctxErr) (\<lambda>err. case err of
       Some e \<Rightarrow> ret (Some e) | None \<Rightarrow> Consume rl b consumer handler rest)"

end
