(* ===== verification/Observe_Http.thy ===== *)
theory Observe_Http
  imports Go_Http
begin

section \<open>The HTTP endpoint (internal/observe/http.go)\<close>

text \<open>
  The monitoring endpoint with its three routes. The metrics handler belongs to the Prometheus package
  and the file server over the embedded files to net/http: both are parameters, functions of the path
  of the request. \<open>listen\<close> is the result of listening on an address; the server then runs as long as
  the program, over the requests it is given. Returns the bodies of the answers.
\<close>

record 's http_libs =
  promhttp_Handler :: "string \<Rightarrow> ('s, string option) go"
  static_FileServer :: "string \<Rightarrow> ('s, string option) go"

definition healthz_handler :: "string \<Rightarrow> ('s, string option) go" where
  "healthz_handler path = ret (Some (''ok'' @ [CHR 0x0A]))"

definition StartHTTP_mux :: "'s http_libs \<Rightarrow> (string \<Rightarrow> ('s, string option) go) mux outcome" where
  "StartHTTP_mux hl = (case mux_HandleFunc [] ''/healthz'' healthz_handler of
     Panic p \<Rightarrow> Panic p
   | Ret m \<Rightarrow> (case mux_HandleFunc m ''/metrics'' (promhttp_Handler hl) of
        Panic p \<Rightarrow> Panic p
      | Ret m \<Rightarrow> mux_HandleFunc m ''/'' (static_FileServer hl)))"

definition StartHTTP ::
  "'s http_libs \<Rightarrow> (string \<Rightarrow> string option) \<Rightarrow> string \<Rightarrow> string list \<Rightarrow> ('s, string list \<times> string option) go" where
  "StartHTTP hl listen addr paths = (case StartHTTP_mux hl of
     Panic p \<Rightarrow> panicG p
   | Ret m \<Rightarrow> (case listen (if addr = [] then '':http'' else addr) of
        Some err \<Rightarrow> ret ([], Some err)
      | None \<Rightarrow> bindG (serve_requests m (map (\<lambda>path. (path, path)) paths)) (\<lambda>bodies. ret (bodies, None))))"

text \<open>Every path has a handler; \<open>/health\<close> and \<open>/healthz/\<close> are answered by the file server.\<close>

definition http_route :: "'s http_libs \<Rightarrow> string \<Rightarrow> string \<Rightarrow> ('s, string option) go" where
  "http_route hl path = (if path = ''/healthz'' then healthz_handler
     else if path = ''/metrics'' then promhttp_Handler hl else static_FileServer hl)"

lemma mux_routes:
  "\<exists>m. StartHTTP_mux hl = Ret m \<and> (\<forall>path. mux_Handler m (CHR ''/'' # path) = Some (http_route hl (CHR ''/'' # path)))"
  by (auto simp: StartHTTP_mux_def mux_HandleFunc_def mux_Handler_def pattern_matches_def http_route_def)

text \<open>
  The health check is answered whatever the other handlers do: a handler that panics ends neither the
  server nor the answers to the other requests.
\<close>

lemma StartHTTP_healthz:
  "\<exists>before after w'. StartHTTP hl (\<lambda>_. None) addr (ps @ ''/healthz'' # qs) w = (Ret (before @ [''ok'' @ [CHR 0x0A]] @ after, None), w')"
proof -
  let ?q = "map (\<lambda>path. (path, path))"
  obtain m where m: "StartHTTP_mux hl = Ret m" "mux_Handler m ''/healthz'' = Some healthz_handler"
    using mux_routes [of hl] by (auto simp: http_route_def)
  obtain bs1 w1 where ps: "serve_requests m (?q ps) w = (Ret bs1, w1)" using serve_total [of m "?q ps" w] by blast
  obtain bs2 w2 where qs: "serve_requests m (?q qs) w1 = (Ret bs2, w2)" using serve_total [of m "?q qs" w1] by blast
  have "serve_requests m (?q (''/healthz'' # qs)) w1 = (Ret ((''ok'' @ [CHR 0x0A]) # bs2), w2)"
    using m(2) qs by (simp add: mux_ServeHTTP_def http_recover_def healthz_handler_def)
  from serve_append [OF ps this] m(1) show ?thesis by (auto simp: StartHTTP_def bindG_def)
qed

end
