(* ===== verification/Logger.thy ===== *)
theory Logger
  imports Go_String_Lemmas
begin

section \<open>The logger (pkg/logger/logger.go)\<close>

text \<open>
  The package's variables, the configuration they are set up with, and the level. The logger itself
  is built and written by the package zap: \<open>build\<close> stands for \<open>Config.Build\<close>, and \<open>None\<close> is the nil logger it
  returns with an error. The functions of zapcore that the configuration names are kept by name.
\<close>

subsection \<open>The log level\<close>

datatype Level = DebugLevel | InfoLevel | WarnLevel | ErrorLevel

text \<open>The order of the levels, as zap documents it; a logger at a level writes that level and above.\<close>

definition level_value :: "Level \<Rightarrow> int" where
  "level_value l = (case l of DebugLevel \<Rightarrow> -1 | InfoLevel \<Rightarrow> 0 | WarnLevel \<Rightarrow> 1 | ErrorLevel \<Rightarrow> 2)"

instantiation Level :: linorder
begin

definition less_eq_Level :: "Level \<Rightarrow> Level \<Rightarrow> bool" where
  "less_eq_Level a b \<longleftrightarrow> level_value a \<le> level_value b"

definition less_Level :: "Level \<Rightarrow> Level \<Rightarrow> bool" where
  "less_Level a b \<longleftrightarrow> level_value a < level_value b"

instance
proof
  fix a b c :: Level
  show "a < b \<longleftrightarrow> a \<le> b \<and> \<not> b \<le> a" "a \<le> a" "a \<le> b \<Longrightarrow> b \<le> c \<Longrightarrow> a \<le> c" "a \<le> b \<or> b \<le> a"
    by (auto simp: less_eq_Level_def less_Level_def)
  show "a \<le> b \<Longrightarrow> b \<le> a \<Longrightarrow> a = b"
    by (cases a; cases b) (simp_all add: less_eq_Level_def level_value_def)
qed

end

definition parseLevel :: "(rune \<Rightarrow> rune) \<Rightarrow> string \<Rightarrow> Level" where
  "parseLevel ulower s =
     (let t = strings_ToLower ulower (strings_TrimSpace s) in
      if t = ''debug'' then DebugLevel
      else if t = ''warn'' \<or> t = ''warning'' then WarnLevel
      else if t = ''error'' then ErrorLevel
      else InfoLevel)"

subsection \<open>The configuration of the logger\<close>

datatype zapcore_func = LowercaseLevelEncoder | ISO8601TimeEncoder | SecondsDurationEncoder | ShortCallerEncoder

record EncoderConfig =
  ec_TimeKey :: string
  ec_LevelKey :: string
  ec_NameKey :: string
  ec_CallerKey :: string
  ec_MessageKey :: string
  ec_StacktraceKey :: string
  ec_LineEnding :: string
  ec_EncodeLevel :: zapcore_func
  ec_EncodeTime :: zapcore_func
  ec_EncodeDuration :: zapcore_func
  ec_EncodeCaller :: zapcore_func

record zap_Config =
  zc_Development :: bool
  zc_Encoding :: string
  zc_EncoderConfig :: EncoderConfig
  zc_OutputPaths :: "string list"
  zc_ErrorOutputPaths :: "string list"

text \<open>
  The level of the configuration is the atomic level itself: whatever \<open>SetLevel\<close> stores later, the
  logger sees. So it is a variable beside the logger and not a field of what the logger was built
  from.
\<close>

record 'l logger_vars =
  baseLogger :: "'l option"
  atomicLVL :: Level

type_synonym environ = "string \<Rightarrow> string"

definition logger_getEnv :: "environ \<Rightarrow> string \<Rightarrow> string \<Rightarrow> string" where
  "logger_getEnv env k dflt = (let v = env k in if v \<noteq> [] then v else dflt)"

definition logger_config :: zap_Config where
  "logger_config = \<lparr>zc_Development = False, zc_Encoding = ''json'',
     zc_EncoderConfig = \<lparr>ec_TimeKey = ''ts'', ec_LevelKey = ''level'', ec_NameKey = ''logger'',
       ec_CallerKey = ''caller'', ec_MessageKey = ''msg'', ec_StacktraceKey = ''stack'', ec_LineEnding = [CHR 0x0A],
       ec_EncodeLevel = LowercaseLevelEncoder, ec_EncodeTime = ISO8601TimeEncoder,
       ec_EncodeDuration = SecondsDurationEncoder, ec_EncodeCaller = ShortCallerEncoder\<rparr>,
     zc_OutputPaths = [''stdout''], zc_ErrorOutputPaths = [''stderr'']\<rparr>"

definition logger_init :: "(rune \<Rightarrow> rune) \<Rightarrow> (zap_Config \<Rightarrow> 'l option) \<Rightarrow> environ \<Rightarrow> 'l logger_vars" where
  "logger_init ulower build env = \<lparr>baseLogger = build logger_config,
     atomicLVL = parseLevel ulower (logger_getEnv env ''CHAT_LOG_LEVEL'' ''info'')\<rparr>"

definition logger_L :: "'l logger_vars \<Rightarrow> 'l option" where
  "logger_L v = baseLogger v"

definition SetLevel :: "(rune \<Rightarrow> rune) \<Rightarrow> string \<Rightarrow> 'l logger_vars \<Rightarrow> 'l logger_vars" where
  "SetLevel ulower level v = v\<lparr>atomicLVL := parseLevel ulower level\<rparr>"

text \<open>Setting a level keeps the logger, the last one counts, and an unknown name sets the level \<open>info\<close>.\<close>

lemma SetLevel_last:
  "logger_L (SetLevel ulower s v) = logger_L v"
  "SetLevel ulower s (SetLevel ulower s' v) = SetLevel ulower s v"
  by (simp_all add: SetLevel_def logger_L_def)

end
