(* ===== verification/Config.thy ===== *)
theory Config
  imports Protocol Logger
begin

section \<open>Configuration (internal/config/config.go)\<close>

text \<open>
  The process environment is a function from variable names to values; \<open>os.Getenv\<close> gives the
  empty string for a variable that is not set. An \<open>int\<close> field is an \<open>int\<close> that stays within 64
  bits, which is shown below.
\<close>

subsection \<open>The configuration\<close>

record Config =
  cfg_TCPAddr :: string
  cfg_OutBuffer :: int
  cfg_WSAddr :: string
  cfg_HTTPAddr :: string
  cfg_LogLevel :: string
  cfg_TCPCodec :: int
  cfg_WSCodec :: int
  cfg_ReadTimeout :: int
  cfg_WriteTimeout :: int
  cfg_MaxFrameSize :: int
  cfg_RedisAddr :: string
  cfg_RedisDB :: int
  cfg_RedisStream :: string
  cfg_RedisGroup :: string
  cfg_RedisEnable :: bool

definition getEnv :: "environ \<Rightarrow> string \<Rightarrow> string \<Rightarrow> string" where
  "getEnv env key dflt = (let v = env key in if v \<noteq> [] then v else dflt)"

text \<open>\<open>n, _ := strconv.Atoi(s)\<close>: the value, whatever the error.\<close>

definition atoi_value :: "string \<Rightarrow> int" where
  "atoi_value s = fst (strconv_Atoi s)"

definition Load_config :: "environ \<Rightarrow> Config" where
  "Load_config env =
     (let addr = getEnv env ''CHAT_TCP_ADDR'' '':8080'';
          outBufStr = getEnv env ''CHAT_OUTBUF'' ''256'';
          outBuf = (case strconv_Atoi outBufStr of (n, err) \<Rightarrow> if err \<noteq> None \<or> n \<le> 0 then 256 else n);
          wsAddr = getEnv env ''CHAT_WS_ADDR'' '':8081'';
          httpAddr = getEnv env ''CHAT_HTTP_ADDR'' '':8082'';
          logLevel = getEnv env ''CHAT_LOG_LEVEL'' ''info'';
          tcpCodec = atoi_value (getEnv env ''CHAT_TCP_CODEC'' ''0'');
          wsCodec = atoi_value (getEnv env ''CHAT_WS_CODEC'' ''0'');
          rtStr = getEnv env ''CHAT_TCP_READ_TIMEOUT'' ''60'';
          wtStr = getEnv env ''CHAT_TCP_WRITE_TIMEOUT'' ''15'';
          mfsStr = getEnv env ''CHAT_TCP_MAX_FRAME'' ''1048576'';
          rt = atoi_value rtStr;
          wt = atoi_value wtStr;
          mfs = atoi_value mfsStr;
          redisAddr = getEnv env ''CHAT_REDIS_ADDR'' ''localhost:6379'';
          redisDBStr = getEnv env ''CHAT_REDIS_DB'' ''0'';
          redisDB = atoi_value redisDBStr;
          redisStream = getEnv env ''CHAT_REDIS_STREAM'' ''chat_stream'';
          redisGroup = getEnv env ''CHAT_REDIS_GROUP'' ''chat_group'';
          redisEnable = (getEnv env ''CHAT_REDIS_ENABLE'' ''true'' = ''true'')
      in \<lparr>cfg_TCPAddr = addr, cfg_OutBuffer = outBuf, cfg_WSAddr = wsAddr, cfg_HTTPAddr = httpAddr,
          cfg_LogLevel = logLevel, cfg_TCPCodec = tcpCodec, cfg_WSCodec = wsCodec, cfg_ReadTimeout = rt,
          cfg_WriteTimeout = wt, cfg_MaxFrameSize = mfs, cfg_RedisAddr = redisAddr, cfg_RedisDB = redisDB,
          cfg_RedisStream = redisStream, cfg_RedisGroup = redisGroup, cfg_RedisEnable = redisEnable\<rparr>)"

subsection \<open>Properties\<close>

lemma uint_loop_nonneg: "uint_loop base us n cs = Inr m \<Longrightarrow> 0 \<le> n \<Longrightarrow> 0 \<le> base \<Longrightarrow> 0 \<le> m"
proof (induction cs arbitrary: n)
  case (Cons c cs)
  have "0 \<le> n * base + d" if "digit_val c = Some d" for d
    using that Cons.prems by (auto simp: Let_def split: if_splits)
  with Cons show ?case by (auto simp del: digit_val.simps split: if_splits option.splits)
qed simp

lemma Atoi_range: "- (2 ^ 63) \<le> fst (strconv_Atoi s)" "fst (strconv_Atoi s) < 2 ^ 63"
proof -
  obtain neg ds where "split_sign s = (neg, ds)" by fastforce
  moreover have "0 \<le> m" if "uint_loop 10 False 0 ds = Inr m" for m using uint_loop_nonneg [OF that] by simp
  ultimately show "- (2 ^ 63) \<le> fst (strconv_Atoi s)" "fst (strconv_Atoi s) < 2 ^ 63"
    by (fastforce simp: strconv_Atoi_def signed_result_def split: sum.splits num_err.splits)+
qed

text \<open>
  C38: the configuration is well-formed. Whatever the environment holds, every integer of the
  loaded configuration is within the 64 bits of a Go \<open>int\<close>, the out buffer is positive, and no
  address, log level, stream or group is empty.
\<close>

theorem Load_well_formed:
  "0 < cfg_OutBuffer (Load_config env) \<and>
   list_all (\<lambda>i. - (2 ^ 63) \<le> i \<and> i < 2 ^ 63) [cfg_OutBuffer (Load_config env), cfg_TCPCodec (Load_config env),
     cfg_WSCodec (Load_config env), cfg_ReadTimeout (Load_config env), cfg_WriteTimeout (Load_config env),
     cfg_MaxFrameSize (Load_config env), cfg_RedisDB (Load_config env)] \<and>
   list_all (\<lambda>s. s \<noteq> []) [cfg_TCPAddr (Load_config env), cfg_WSAddr (Load_config env), cfg_HTTPAddr (Load_config env),
     cfg_LogLevel (Load_config env), cfg_RedisAddr (Load_config env), cfg_RedisStream (Load_config env), cfg_RedisGroup (Load_config env)]"
proof -
  have "0 < cfg_OutBuffer (Load_config env) \<and> cfg_OutBuffer (Load_config env) < 2 ^ 63"
    using Atoi_range [of "getEnv env ''CHAT_OUTBUF'' ''256''"]
    by (auto simp: Load_config_def Let_def split: prod.split)
  moreover have "- (2 ^ 63) \<le> atoi_value s \<and> atoi_value s < 2 ^ 63" for s using Atoi_range [of s] by (simp add: atoi_value_def)
  moreover have "getEnv env k d \<noteq> []" if "d \<noteq> []" for k d using that by (simp add: getEnv_def Let_def)
  ultimately show ?thesis by (simp add: Load_config_def Let_def)
qed

text \<open>
  How the environment chooses the codec. The TCP server speaks protobuf exactly when
  \<open>CHAT_TCP_CODEC\<close> reads as the number 1; every other value, the word \<open>protobuf\<close> among them, gives
  JSON, also when it is no number or names a codec that does not exist.
\<close>

theorem configured_codec:
  "Manager_GetCodec (NewProtocolManager (cfg_TCPCodec (Load_config env))) =
     (if atoi_value (getEnv env ''CHAT_TCP_CODEC'' ''0'') = 1 then ProtobufCodec else JSONCodec) \<and>
   Manager_GetCodec (NewProtocolManager (cfg_TCPCodec (Load_config (env(''CHAT_TCP_CODEC'' := ''protobuf''))))) = JSONCodec"
proof -
  have codec: "Manager_GetCodec (NewProtocolManager n) = (if n = 1 then ProtobufCodec else JSONCodec)" for n
    by (simp add: NewProtocolManager_def NewCodec_def CodecFactories_def CodecJson_def CodecProtobuf_def Manager_GetCodec_def)
  have "atoi_value ''protobuf'' = 0" by code_simp
  then show ?thesis by (simp add: codec Load_config_def Let_def getEnv_def)
qed

end
