(* ===== verification/Server_Main.thy ===== *)
theory Server_Main
  imports Redis_Bus Observe_Http Config Command_Builtins Tcp_Transport Ws_Transport
begin

section \<open>The server program (cmd/server/main.go)\<close>

text \<open>
  How \<open>main\<close> puts the parts together: the configuration, the subscribers of the hub, the options of
  the two transports, and the relay between the hub and the Redis stream. The relay subscribes two
  more handlers, so the handlers of the running server are those of \<open>Subscribers\<close> and these two.
\<close>

subsection \<open>Transport options\<close>

text \<open>\<open>time.Duration(n) * time.Second\<close>.\<close>

definition seconds :: "int \<Rightarrow> Duration" where
  "seconds n = of_int n * time_Second"

definition tcp_options :: "Config \<Rightarrow> Options" where
  "tcp_options cfg = \<lparr>o_OutBuffer = cfg_OutBuffer cfg, o_ReadTimeout = seconds (cfg_ReadTimeout cfg),
     o_WriteTimeout = seconds (cfg_WriteTimeout cfg), o_HeartbeatInterval = time_Second * 30,
     o_HeartbeatTimeout = time_Minute * 1, o_MaxFrameSize = cfg_MaxFrameSize cfg,
     o_TCPProtocolManager = Some (NewProtocolManager (cfg_TCPCodec cfg)), o_WSProtocolManager = None\<rparr>"

definition ws_options :: "Config \<Rightarrow> Options" where
  "ws_options cfg = \<lparr>o_OutBuffer = cfg_OutBuffer cfg, o_ReadTimeout = seconds (cfg_ReadTimeout cfg),
     o_WriteTimeout = seconds (cfg_WriteTimeout cfg), o_HeartbeatInterval = 0, o_HeartbeatTimeout = 0,
     o_MaxFrameSize = 0, o_TCPProtocolManager = None,
     o_WSProtocolManager = Some (NewProtocolManager (cfg_WSCodec cfg))\<rparr>"

text \<open>The servers that main starts, each in a goroutine of its own, the two transports with a
  gateway each; \<open>ServeHTTP\<close> is a call of \<open>StartHTTP\<close>.\<close>

datatype main_server =
    StartTCP TCPServer string Options SimpleGateway
  | StartWS WebSocketServer string Options SimpleGateway
  | ServeHTTP string

definition main_servers :: "Config \<Rightarrow> main_server list" where
  "main_servers cfg =
     [StartTCP (NewTCPServer (cfg_TCPAddr cfg)) (cfg_TCPAddr cfg) (tcp_options cfg) NewSimpleGateway,
      StartWS (NewWebSocketServer ''/ws'') (cfg_WSAddr cfg) (ws_options cfg) NewSimpleGateway,
      ServeHTTP (cfg_HTTPAddr cfg)]"

subsection \<open>The relay to the Redis stream\<close>

datatype main_handler = SubHandler sub_handler | PublishLocal | PublishDirect

definition main_run ::
  "'s redis_lib \<Rightarrow> (Time \<Rightarrow> int) \<Rightarrow> Bus \<Rightarrow> main_handler \<Rightarrow> Event \<Rightarrow> ((main_handler, 's) bus_world, unit) go" where
  "main_run rl tz b f e = (case f of
     SubHandler h \<Rightarrow> sub_run tz h e
   | PublishLocal \<Rightarrow> (case e of
         MessageEvent when from content _ \<Rightarrow>
           bindG (Publish rl tz b \<lparr>m_Type = ''message'', m_When = when, m_From = from, m_To = [], m_Text = content\<rparr>) (\<lambda>_. ret ())
       | _ \<Rightarrow> panicG TypeAssertion)
   | PublishDirect \<Rightarrow> (case e of
         DirectMessageEvent when from dest content \<Rightarrow>
           bindG (Publish rl tz b \<lparr>m_Type = ''direct'', m_When = when, m_From = from, m_To = dest, m_Text = content\<rparr>) (\<lambda>_. ret ())
       | _ \<Rightarrow> panicG TypeAssertion))"

text \<open>The handler of the messages that come from the stream.\<close>

definition remote_handler :: "Message \<Rightarrow> ((main_handler, 's) bus_world, unit) go" where
  "remote_handler m =
     (if m_Type m = ''message'' then Hub_BroadcastRemote (m_From m) (m_Text m) (m_When m)
      else if m_Type m = ''direct'' then Hub_Emit (DirectMessageEvent (m_When m) (m_From m) (m_To m) (m_Text m))
      else ret ())"

definition redis_setup :: "'s redis_lib \<Rightarrow> Bus \<Rightarrow> ((main_handler, 's) bus_world, unit) go" where
  "redis_setup rl b = thenG (EnsureGroup rl b)
     (thenG (Hub_Subscribe EventMessageLocal PublishLocal) (Hub_Subscribe EventMessageDirect PublishDirect))"

text \<open>The bus of a configuration; none when Redis is switched off.\<close>

definition main_bus :: "Config \<Rightarrow> Bus option" where
  "main_bus cfg = (if cfg_RedisEnable cfg \<and> cfg_RedisAddr cfg \<noteq> []
     then Some (New_bus (cfg_RedisAddr cfg) (cfg_RedisDB cfg) (cfg_RedisStream cfg) (cfg_RedisGroup cfg)) else None)"

text \<open>The logger's variables once \<open>main\<close> has loaded the configuration.\<close>

definition main_logger :: "(rune \<Rightarrow> rune) \<Rightarrow> (zap_Config \<Rightarrow> 'l option) \<Rightarrow> environ \<Rightarrow> 'l logger_vars" where
  "main_logger ulower build env = SetLevel ulower (cfg_LogLevel (Load_config env)) (logger_init ulower build env)"

text \<open>
  \<open>main\<close> on a new hub, up to the start of the servers and of \<open>Consume\<close>: it panics when the built-in
  commands cannot be registered. The subscriptions of the relay are made by a goroutine of their own,
  beside the servers that \<open>main\<close> has started; \<open>main_setup\<close> is the state once that goroutine has come to
  \<open>Consume\<close>, and messages from before that are not relayed.
\<close>

definition main_setup ::
  "(rune \<Rightarrow> rune) \<Rightarrow> 's redis_lib \<Rightarrow> Config \<Rightarrow> ((main_handler, 's) bus_world, unit) go" where
  "main_setup ulower rl cfg = (case RegisterBuiltins ulower NewRegistry of
     (Some err, _) \<Rightarrow> panicG (ErrorPanic err)
   | (None, _) \<Rightarrow> thenG (RegisterAll SubHandler)
       (case main_bus cfg of None \<Rightarrow> ret () | Some b \<Rightarrow> redis_setup rl b))"

text \<open>The consumer's name carries the time of day at which it was started.\<close>

definition consumer_name :: "(Time \<Rightarrow> int) \<Rightarrow> Time \<Rightarrow> string" where
  "consumer_name tz now = (let sod = (now div 1000000000 + tz now) mod 86400 in
     ''consumer-'' @ pad_int 2 (sod div 3600) @ pad_int 2 (sod div 60 mod 60) @ pad_int 2 (sod mod 60))"

definition main_consume ::
  "'s redis_lib \<Rightarrow> (Time \<Rightarrow> int) \<Rightarrow> Time \<Rightarrow> Bus \<Rightarrow> string option list \<Rightarrow> ((main_handler, 's) bus_world, string option) go" where
  "main_consume rl tz now b ctxErrs = Consume rl b (consumer_name tz now) remote_handler ctxErrs"

end
