(* ===== verification/Server_Properties.thy ===== *)
theory Server_Properties
  imports Server_Main Command_Properties Subscriber_Properties Ws_Properties
begin

section \<open>Properties of the running server\<close>

text \<open>
  What main's composition of the parts does: messages between servers over the Redis stream, the
  transport timeouts that a configuration gives, and the WebSocket server with the protobuf codec.
\<close>

subsection \<open>Messages on the stream\<close>

definition valid_message :: "Message \<Rightarrow> Message" where
  "valid_message m = m\<lparr>m_Type := to_valid (m_Type m), m_From := to_valid (m_From m), m_To := to_valid (m_To m),
     m_Text := to_valid (m_Text m)\<rparr>"

definition message_members :: "string \<Rightarrow> Message \<Rightarrow> (string \<times> string \<times> jval) list" where
  "message_members t m =
     [(''type'', json_string (m_Type m), JStr (to_valid (m_Type m))), (''when'', [quote_char] @ t @ [quote_char], JStr t)] @
     (if m_From m = [] then [] else [(''from'', json_string (m_From m), JStr (to_valid (m_From m)))]) @
     (if m_To m = [] then [] else [(''to'', json_string (m_To m), JStr (to_valid (m_To m)))]) @
     (if m_Text m = [] then [] else [(''text'', json_string (m_Text m), JStr (to_valid (m_Text m)))])"

lemma message_keys: "list_all plain_key [''type'', ''when'', ''from'', ''to'', ''text'']"
  by code_simp

lemma time_char_plain: "time_char c \<Longrightarrow> c \<noteq> quote_char \<and> c \<noteq> backslash \<and> 32 \<le> byte_of c \<and> byte_of c < 128"
  unfolding time_char_def is_digit_def by (auto simp: quote_char_def backslash_def)

lemma parses_time: "time_text tz t = Some s \<Longrightarrow> parses d ([quote_char] @ s @ [quote_char]) (JStr s)"
proof -
  assume "time_text tz t = Some s"
  then have "list_all (\<lambda>c. c \<noteq> quote_char \<and> c \<noteq> backslash \<and> 32 \<le> byte_of c \<and> byte_of c < 128) s"
    using time_text_chars time_char_plain by (fastforce simp: list_all_iff)
  then show ?thesis by (simp add: parses_def jvalue_string parse_str_plain_list)
qed

lemma message_members_parse:
  "time_text tz (m_When m) = Some t \<Longrightarrow> list_all (\<lambda>(k, t, v). plain_key k \<and> parses d t v) (message_members t m)"
  using message_keys parses_time [of tz "m_When m" t d] by (simp add: message_members_def parses_string)

lemma Message_json_members:
  "time_text tz (m_When m) = Some t \<Longrightarrow>
     Message_json tz m = json_object (map (\<lambda>(k, t, v). json_member k t) (message_members t m))"
  by (simp add: Message_json_def message_members_def omitempty_def)

lemma set_message_members:
  assumes "text_time t = Some (m_When m)"
  shows "set_members Message_fields (map (\<lambda>(k, t, v). (k, v)) (message_members t m)) None zero_Message = (None, valid_message m)"
proof -
  have nil: "to_valid [] = []" by (simp add: to_valid_def runes.simps)
  show ?thesis using assms nil
    by (cases "m_From m = []"; cases "m_To m = []"; cases "m_Text m = []")
      (simp_all add: message_members_def Message_fields_def find_field_def set_time_def zero_Message_def valid_message_def)
qed

lemma Message_parse_json:
  assumes "time_text tz (m_When m) \<noteq> None" and "tz (m_When m) mod 60 = 0"
  shows "Message_parse (Message_json tz m) = Some (valid_message m)"
proof -
  obtain t where t: "time_text tz (m_When m) = Some t" using assms(1) by auto
  have ne: "message_members t m \<noteq> []" by (simp add: message_members_def)
  have "json_Unmarshal Message_fields (Message_json tz m @ []) zero_Message = (None, valid_message m)"
    unfolding Message_json_members [OF t]
    by (subst json_object_reads(2) [OF ne message_members_parse [OF t]])
      (simp_all add: skip_ws_def set_message_members [OF text_time_text [OF t assms(2)]])
  then show ?thesis by (simp add: Message_parse_def)
qed

text \<open>
  C33: a message survives the stream. Whatever the sender, the receiver and the text are, a message
  whose instant has a year of at most four digits and a zone of whole minutes is read back with its
  instant exactly, to the nanosecond and whatever the zone, and with its texts up to bytes that are
  not UTF-8.
\<close>

theorem bus_message_roundtrip:
  assumes "time_text tz (m_When m) \<noteq> None" and "tz (m_When m) mod 60 = 0"
  shows "Message_parse (Message_json tz m) = Some (valid_message m) \<and> m_When (valid_message m) = m_When m \<and>
    (list_all utf8_valid [m_Type m, m_From m, m_To m, m_Text m] \<longrightarrow> valid_message m = m)"
  using Message_parse_json [OF assms] by (simp add: valid_message_def to_valid_id)

definition demo_message :: Message where
  "demo_message = \<lparr>m_Type = ''direct'', m_When = 63885000000123000000, m_From = ''ann'', m_To = ''bob'', m_Text = ''hi''\<rparr>"

lemma demo_message_text:
  "time_text (\<lambda>_. 28800) (m_When demo_message) = Some ''2025-06-09T01:20:00.123+08:00''"
  by code_simp

lemma demo_message_valid: "valid_message demo_message = demo_message"
  by code_simp

theorem bus_message_roundtrip_witness:
  "Message_json (\<lambda>_. 28800) demo_message \<noteq> [] \<and> Message_parse (Message_json (\<lambda>_. 28800) demo_message) = Some demo_message"
  using bus_message_roundtrip [of "\<lambda>_. 28800" demo_message] demo_message_text demo_message_valid
  by (simp add: Message_json_def json_object_def)

subsection \<open>The relay\<close>

lemma EnsureGroup_app:
  "EnsureGroup rl b w = (Ret None, w\<lparr>bw_redis := snd (XGroupCreateMkStream rl (bus_stream b) (bus_group b) ''$'' (bw_redis w))\<rparr>)"
  by (simp add: EnsureGroup_def redis_call_def thenG_app split: prod.splits)

lemma thenG_returns:
  "fst (m w) = Ret x \<Longrightarrow> (\<And>v. fst (n v) = Ret y) \<Longrightarrow> fst (thenG m n w) = Ret y"
  by (cases "m w") (simp add: thenG_app)

lemma RegisterAll_returns: "RegisterAll emb w = (Ret (), snd (RegisterAll emb w))"
proof -
  have "fst (Hub_Subscribe t f v) = Ret ()" for t f and v :: "('a, 'b) world_scheme" by (subst Subscribe_returns) simp
  then have "fst (RegisterAll emb w) = Ret ()"
    unfolding RegisterAll_def registerMessage_def registerUserLifecycle_def registerSystem_def registerFile_def
      registerHeartbeat_def registerDirect_def by (intro thenG_returns)
  then show ?thesis by (simp add: prod_eq_iff)
qed

text \<open>What is left after a publication.\<close>

definition published :: "'s redis_lib \<Rightarrow> Bus \<Rightarrow> string \<Rightarrow> ('h, 's) bus_world \<Rightarrow> ('h, 's) bus_world" where
  "published rl b payload w = w\<lparr>bw_redis := snd (XAdd rl (bus_stream b) [(''data'', payload)] (bw_redis w))\<rparr>"

lemma Publish_app:
  "Publish rl tz b m w = (Ret (fst (XAdd rl (bus_stream b) [(''data'', Message_json tz m)] (bw_redis w))),
     published rl b (Message_json tz m) w)"
  by (simp add: Publish_def published_def redis_call_def split: prod.splits)

text \<open>The handlers that main subscribes to an event.\<close>

definition main_handlers :: "Event \<Rightarrow> main_handler list" where
  "main_handlers e = SubHandler (handler_for e) #
     (if Event_Type e = EventMessageLocal then [PublishLocal]
      else if Event_Type e = EventMessageDirect then [PublishDirect] else [])"

text \<open>The state that main leaves: the subscriptions of \<open>RegisterAll\<close> and those of the relay.\<close>

lemma main_setup_state:
  fixes w :: "(main_handler, 's) bus_world" and rl :: "'s redis_lib"
  assumes "main_bus cfg = Some b"
  defines "v \<equiv> snd (RegisterAll SubHandler w)"
  defines "u \<equiv> v\<lparr>bw_redis := snd (XGroupCreateMkStream rl (bus_stream b) (bus_group b) ''$'' (bw_redis v))\<rparr>"
  shows "snd (main_setup ulower rl cfg w) =
    snd (Hub_Subscribe EventMessageDirect PublishDirect (snd (Hub_Subscribe EventMessageLocal PublishLocal u)))"
proof -
  have reg: "RegisterBuiltins ulower NewRegistry = (None, builtin_reg ulower)"
    using builtin_reg_register by (simp add: RegisterBuiltins_def)
  have all: "thenG (RegisterAll SubHandler) n w = n v" for n
    unfolding v_def by (rule thenG_Ret [where m = "RegisterAll SubHandler" and w = w, OF RegisterAll_returns])
  have grp: "thenG (EnsureGroup rl b) n v = n u" for n
    unfolding u_def by (rule thenG_Ret [where m = "EnsureGroup rl b" and w = v, OF EnsureGroup_app])
  show ?thesis using assms(1) by (simp add: main_setup_def reg all redis_setup_def grp snd_then_Subscribe)
qed

lemma main_setup_spawns:
  assumes "main_bus cfg = Some b" and "hub_handlers (w_hub w) = Map.empty"
  shows "spawns e (snd (main_setup ulower rl cfg w)) = map (\<lambda>f. (f, e)) (main_handlers e)"
proof -
  let ?v = "snd (RegisterAll SubHandler w)"
  let ?u = "?v\<lparr>bw_redis := snd (XGroupCreateMkStream rl (bus_stream b) (bus_group b) ''$'' (bw_redis ?v))\<rparr>"
  have "spawns e ?u = [(SubHandler (handler_for e), e)]"
    using RegisterAll_spawns [of e SubHandler w] assms(2) by (simp add: spawns_cong [of ?u ?v] spawns_def [of e w])
  then show ?thesis unfolding main_setup_state [OF assms(1)]
    by (simp add: spawns_Subscribe main_handlers_def event_type_defs)
qed

lemma main_setup_frame:
  assumes "main_bus cfg = Some b"
  shows "w_go (snd (main_setup ulower rl cfg w)) = w_go w" "w_heap (snd (main_setup ulower rl cfg w)) = w_heap w"
    "hub_clients (w_hub (snd (main_setup ulower rl cfg w))) = hub_clients (w_hub w)"
  by (simp_all add: main_setup_state [OF assms] Subscribe_frame RegisterAll_frame)

text \<open>A running server: the handlers are those that main subscribed on a new hub with Redis on.\<close>

definition main_running :: "Config \<Rightarrow> Bus \<Rightarrow> (main_handler, 's) bus_world \<Rightarrow> bool" where
  "main_running cfg b w \<longleftrightarrow> main_bus cfg = Some b \<and> (\<exists>ulower (rl :: 's redis_lib) w0.
     hub_handlers (w_hub w0) = Map.empty \<and> hub_handlers (w_hub w) = hub_handlers (w_hub (snd (main_setup ulower rl cfg w0))))"

lemma main_running_spawns: "main_running cfg b w \<Longrightarrow> spawns e w = map (\<lambda>f. (f, e)) (main_handlers e)"
  unfolding main_running_def using main_setup_spawns spawns_cong by metis

text \<open>What is left after a message was consumed that started the goroutines \<open>gs\<close>.\<close>

definition consumed ::
  "'s redis_lib \<Rightarrow> Bus \<Rightarrow> string \<Rightarrow> (main_handler \<times> Event) list \<Rightarrow> (main_handler, 's) bus_world \<Rightarrow> (main_handler, 's) bus_world" where
  "consumed rl b mid gs w = w\<lparr>w_go := w_go w @ gs, bw_redis := snd (XAck rl (bus_stream b) (bus_group b) mid (bw_redis w))\<rparr>"

lemma consume_remote:
  fixes w :: "(main_handler, 's) bus_world"
  assumes "main_running cfg b w" and "Message_parse payload = Some m"
    and "remote_handler m = (Hub_Emit e :: ((main_handler, 's) bus_world, unit) go)"
  shows "consume_one rl b remote_handler (mid, [(''data'', payload)]) w =
    (Ret (), consumed rl b mid (map (\<lambda>f. (f, e)) (main_handlers e)) w)"
proof -
  let ?v = "w\<lparr>w_go := w_go w @ map (\<lambda>f. (f, e)) (main_handlers e)\<rparr>"
  have emit: "Hub_Emit e w = (Ret (), ?v)" by (simp add: Emit_eq main_running_spawns [OF assms(1)])
  have "thenG (Hub_Emit e) n w = n ?v" for n :: "((main_handler, 's) bus_world, unit) go"
    by (rule thenG_Ret [where m = "Hub_Emit e" and w = w, OF emit])
  then show ?thesis
    using assms(2,3) by (simp add: consume_one_def consumed_def redis_call_def thenG_app split: prod.splits)
qed

text \<open>A local message: what it starts, and what its two goroutines do to the stream in either order.\<close>

lemma local_spawns:
  assumes "main_running cfg b w" and "e = MessageEvent t from content True"
  shows "Hub_BroadcastLocal t from content w = (Ret (), w\<lparr>w_go := w_go w @ [(SubHandler OnMessageLocal, e), (PublishLocal, e)]\<rparr>)"
  using main_running_spawns [OF assms(1), of e] assms(2)
  by (simp add: Hub_BroadcastLocal_def Emit_eq main_handlers_def event_type_defs)

lemma run_local:
  assumes "hub_ok v" and "e = MessageEvent t from content True"
  shows "\<exists>v'. main_run rl tz b (SubHandler OnMessageLocal) e v = (Ret (), v') \<and> bw_redis v' = bw_redis v \<and> w_go v' = w_go v"
  using assms(2) by (simp add: main_run_def sub_run_def SendToAll_eq [OF assms(1)] observe_defs thenG_app)

lemma run_publish:
  fixes v :: "(main_handler, 's) bus_world"
  assumes "e = MessageEvent t from content True"
  defines "m \<equiv> \<lparr>m_Type = ''message'', m_When = t, m_From = from, m_To = [], m_Text = content\<rparr>"
  shows "main_run rl tz b PublishLocal e v = (Ret (), published rl b (Message_json tz m) v)"
  by (simp add: assms main_run_def Publish_app bindG_app)

lemma local_published_once:
  fixes w :: "(main_handler, 's) bus_world" and rl tz b
  assumes "hub_ok w" and "w_go w = []" and "i < 2" and "e = MessageEvent t from content True"
  defines "m \<equiv> \<lparr>m_Type = ''message'', m_When = t, m_From = from, m_To = [], m_Text = content\<rparr>"
    and "run \<equiv> run_goroutine (main_run rl tz b)"
    and "w1 \<equiv> w\<lparr>w_go := [(SubHandler OnMessageLocal, e), (PublishLocal, e)]\<rparr>"
  shows "w_go (run 0 (run i w1)) = [] \<and> bw_redis (run 0 (run i w1)) = bw_redis (published rl b (Message_json tz m) w)"
proof -
  note pub = run_publish [OF assms(4), of rl tz b, folded m_def]
  have ok: "hub_ok (w\<lparr>w_go := gs\<rparr>)" "hub_ok ((published rl b p w)\<lparr>w_go := gs\<rparr>)" for gs p
    using assms(1) by (simp_all add: hub_ok_def published_def)
  from assms(3) consider "i = 0" | "i = 1" by linarith
  then show ?thesis
  proof cases
    case 1
    from run_local [OF ok(1) assms(4), of rl tz b "[(PublishLocal, e)]"] obtain v where
      "main_run rl tz b (SubHandler OnMessageLocal) e (w\<lparr>w_go := [(PublishLocal, e)]\<rparr>) = (Ret (), v)"
      "bw_redis v = bw_redis w" "w_go v = [(PublishLocal, e)]" by auto
    with 1 pub show ?thesis by (simp add: run_def w1_def run_goroutine_def recoverG_def published_def)
  next
    case 2
    from run_local [OF ok(2) assms(4), of rl tz b "[]" "Message_json tz m"] obtain v where
      "main_run rl tz b (SubHandler OnMessageLocal) e ((published rl b (Message_json tz m) w)\<lparr>w_go := []\<rparr>) = (Ret (), v)"
      "bw_redis v = bw_redis (published rl b (Message_json tz m) w)" "w_go v = []" by (auto simp: published_def)
    with 2 pub show ?thesis by (simp add: run_def w1_def run_goroutine_def recoverG_def published_def)
  qed
qed

text \<open>
  C23: a chat message crosses the stream once. On a server with Redis on, \<open>BroadcastLocal\<close> starts
  exactly two goroutines, the handler of local messages and the relay's; run in either order they
  leave one more payload on the stream and none of the goroutines pending. A server that consumes that
  payload starts exactly one handler, the one
  for remote messages, with the same sender, text and instant, and acknowledges the payload. The
  handler of a remote message publishes nothing, so the message does not come back to the stream.
\<close>

theorem relay_message:
  fixes w v :: "(main_handler, 's) bus_world" and rl :: "'s redis_lib"
  assumes "main_running cfg b w" and "hub_ok w" and "w_go w = []" and "main_running cfg' b v"
    and "time_text tz t \<noteq> None" and "tz t mod 60 = 0" and "utf8_valid from" and "utf8_valid content"
  defines "e \<equiv> MessageEvent t from content True" and "w1 \<equiv> snd (Hub_BroadcastLocal t from content w)"
    and "run \<equiv> run_goroutine (main_run rl tz b)"
  shows "\<exists>payload. w1 = w\<lparr>w_go := [(SubHandler OnMessageLocal, e), (PublishLocal, e)]\<rparr> \<and>
    (\<forall>i < 2. w_go (run 0 (run i w1)) = [] \<and>
       bw_redis (run 0 (run i w1)) = snd (XAdd rl (bus_stream b) [(''data'', payload)] (bw_redis w))) \<and>
    consume_one rl' b remote_handler (mid, [(''data'', payload)]) v =
      (Ret (), consumed rl' b mid [(SubHandler OnMessageRemote, MessageEvent t from content False)] v) \<and>
    main_run rl' tz b (SubHandler OnMessageRemote) (MessageEvent t from content False) u =
      (Ret (), u\<lparr>w_metrics := w_metrics u @ [MessagesTotal ''remote'']\<rparr>)"
proof -
  let ?m = "\<lparr>m_Type = ''message'', m_When = t, m_From = from, m_To = [], m_Text = content\<rparr>"
  have "is_ascii ''message''" "is_ascii []" by code_simp+
  then have "valid_message ?m = ?m" using assms(7,8) by (simp add: valid_message_def to_valid_id ascii_utf8_valid)
  with Message_parse_json [of tz ?m] assms(5,6) have "Message_parse (Message_json tz ?m) = Some ?m" by simp
  moreover have "remote_handler ?m = (Hub_Emit (MessageEvent t from content False) :: ((main_handler, 's) bus_world, unit) go)"
    by (simp add: remote_handler_def Hub_BroadcastRemote_def)
  ultimately have remote: "consume_one rl' b remote_handler (mid, [(''data'', Message_json tz ?m)]) v =
      (Ret (), consumed rl' b mid [(SubHandler OnMessageRemote, MessageEvent t from content False)] v)"
    using consume_remote [OF assms(4)] by (fastforce simp: main_handlers_def event_type_defs)
  have w1: "w1 = w\<lparr>w_go := [(SubHandler OnMessageLocal, e), (PublishLocal, e)]\<rparr>"
    using local_spawns [OF assms(1) e_def [THEN meta_eq_to_obj_eq]] assms(3) by (simp add: w1_def)
  have "w_go (run 0 (run i w1)) = [] \<and> bw_redis (run 0 (run i w1)) = snd (XAdd rl (bus_stream b) [(''data'', Message_json tz ?m)] (bw_redis w))"
    if "i < 2" for i
    using local_published_once [OF assms(2,3) that e_def [THEN meta_eq_to_obj_eq], of rl tz b] unfolding w1 run_def
    by (simp add: published_def)
  with remote w1 show ?thesis
    by (intro exI [where x = "Message_json tz ?m"])
      (simp add: main_run_def sub_run_def IncMessage_def observe_call_def)
qed

text \<open>A stream that keeps its payloads in a list, and a server started with the default configuration on it.\<close>

definition list_redis :: "string list redis_lib" where
  "list_redis = \<lparr>XGroupCreateMkStream = (\<lambda>_ _ _ s. (None, s)),
     XAdd = (\<lambda>_ vs s. (None, s @ map snd vs)),
     XReadGroup = (\<lambda>_ _ _ _ _ s. (Inr [map (\<lambda>p. (''0-1'', [(''data'', p)])) s], s)),
     XAck = (\<lambda>_ _ _ s. (None, drop 1 s))\<rparr>"

definition demo_cfg :: Config where "demo_cfg = Load_config (\<lambda>_. [])"

definition demo_bus :: Bus where "demo_bus = New_bus ''localhost:6379'' 0 ''chat_stream'' ''chat_group''"

definition demo_server :: "(main_handler, string list) bus_world" where
  "demo_server = snd (main_setup (\<lambda>r. r) list_redis demo_cfg (world.extend empty_world \<lparr>bw_redis = []\<rparr>))"

lemma demo_main_bus: "main_bus demo_cfg = Some demo_bus"
  by code_simp

lemma demo_running: "main_running demo_cfg demo_bus demo_server"
  unfolding main_running_def demo_server_def using demo_main_bus
  by (intro conjI exI [where x = "\<lambda>r. r"] exI [where x = list_redis]
      exI [where x = "world.extend empty_world \<lparr>bw_redis = []\<rparr>"]) (simp_all add: world.defs empty_world_def NewHub_def)

lemma demo_instant: "time_text (\<lambda>_. 28800) 63885000000123000000 \<noteq> None"
  using demo_message_text by (simp add: demo_message_def)

lemma demo_names_valid: "utf8_valid ''ann''" "utf8_valid ''bob''" "utf8_valid ''hi''"
  by code_simp+

lemma demo_server_idle: "hub_ok demo_server" "w_go demo_server = []"
  by (simp_all add: demo_server_def hub_ok_def main_setup_frame [OF demo_main_bus] world.defs empty_world_def NewHub_def syncmap_ok_def heap_ok_def Load_def)

theorem relay_message_witness:
  "main_running demo_cfg demo_bus demo_server \<and>
   (\<exists>payload. bw_redis (run_goroutine (main_run list_redis (\<lambda>_. 28800) demo_bus) 0
        (run_goroutine (main_run list_redis (\<lambda>_. 28800) demo_bus) 1
          (snd (Hub_BroadcastLocal 63885000000123000000 ''ann'' ''hi'' demo_server)))) = bw_redis demo_server @ [payload] \<and>
     consume_one list_redis demo_bus remote_handler (''0-1'', [(''data'', payload)]) demo_server =
      (Ret (), consumed list_redis demo_bus ''0-1''
        [(SubHandler OnMessageRemote, MessageEvent 63885000000123000000 ''ann'' ''hi'' False)] demo_server))"
  using demo_running relay_message [OF demo_running demo_server_idle demo_running demo_instant _ demo_names_valid(1,3), of list_redis list_redis "''0-1''"]
  by (fastforce simp: list_redis_def)

text \<open>
  C40: a direct message never leaves the stream. The relay's handler for direct messages publishes
  a payload; a server that consumes this payload starts the handler that delivers the message and,
  with the same event, the handler that publishes it again: every consumed direct message puts a
  new one on the stream, whose payload reads as the same message.
\<close>

theorem direct_message_republished:
  fixes w :: "(main_handler, 's) bus_world"
  assumes "main_running cfg b w" and "time_text tz t \<noteq> None" and "tz t mod 60 = 0"
    and "utf8_valid from" and "utf8_valid dest" and "utf8_valid content"
    and "e = DirectMessageEvent t from dest content"
  shows "\<exists>payload. main_run rl tz b PublishDirect e v = (Ret (), published rl b payload v) \<and>
    Message_parse payload = Some \<lparr>m_Type = ''direct'', m_When = t, m_From = from, m_To = dest, m_Text = content\<rparr> \<and>
    consume_one rl' b remote_handler (mid, [(''data'', payload)]) w =
      (Ret (), consumed rl' b mid [(SubHandler OnMessageDirect, e), (PublishDirect, e)] w)"
proof -
  let ?m = "\<lparr>m_Type = ''direct'', m_When = t, m_From = from, m_To = dest, m_Text = content\<rparr>"
  have "is_ascii ''direct''" by code_simp
  then have "valid_message ?m = ?m" using assms(4-6) by (simp add: valid_message_def to_valid_id ascii_utf8_valid)
  with Message_parse_json [of tz ?m] assms(2,3) have parse: "Message_parse (Message_json tz ?m) = Some ?m" by simp
  moreover have "remote_handler ?m = (Hub_Emit e :: ((main_handler, 's) bus_world, unit) go)"
    using assms(7) by (simp add: remote_handler_def)
  ultimately have "consume_one rl' b remote_handler (mid, [(''data'', Message_json tz ?m)]) w =
      (Ret (), consumed rl' b mid [(SubHandler OnMessageDirect, e), (PublishDirect, e)] w)"
    using consume_remote [OF assms(1)] assms(7) by (fastforce simp: main_handlers_def event_type_defs)
  then show ?thesis using parse
    by (intro exI [where x = "Message_json tz ?m"]) (simp add: assms(7) main_run_def Publish_app bindG_app)
qed

theorem direct_message_republished_witness:
  "main_running demo_cfg demo_bus demo_server \<and>
   (\<exists>payload. main_run list_redis (\<lambda>_. 28800) demo_bus PublishDirect (DirectMessageEvent 63885000000123000000 ''ann'' ''bob'' ''hi'') demo_server =
      (Ret (), published list_redis demo_bus payload demo_server) \<and> Message_parse payload = Some demo_message)"
  using demo_running direct_message_republished [OF demo_running demo_instant _ demo_names_valid refl, of list_redis demo_server]
  by (auto simp: demo_message_def)

subsection \<open>The read timeout of the TCP server\<close>

text \<open>A multiplication by \<open>10^18\<close> and one by \<open>10^9\<close> agree modulo \<open>2^64\<close> only on multiples of \<open>2^55\<close>.\<close>

lemma nanos_twice:
  assumes "of_int (s * 10 ^ 18) = (of_int (s * 10 ^ 9) :: int64)"
  shows "2 ^ 55 dvd s"
proof -
  have "take_bit 64 (s * 10 ^ 18) = take_bit 64 (s * 10 ^ 9)"
    using assms by (simp only: word_of_int_eq_iff) simp
  then have "(2 ^ 64 :: int) dvd s * 10 ^ 18 - s * 10 ^ 9"
    by (simp only: take_bit_eq_mod mod_eq_dvd_iff)
  moreover have "s * 10 ^ 18 - s * 10 ^ 9 = 2 ^ 9 * (1953124998046875 * s)" by simp
  moreover have "(2 ^ 64 :: int) = 2 ^ 9 * 2 ^ 55" by simp
  ultimately have "(2 ^ 55 :: int) dvd 1953124998046875 * s" by (simp only: dvd_mult_cancel_left) simp
  moreover have "coprime (2 ^ 55 :: int) 1953124998046875"
    by (simp only: coprime_power_left_iff coprime_left_2_iff_odd) simp
  ultimately show ?thesis using coprime_dvd_mult_right_iff by blast
qed

lemma read_deadline_eq:
  "read_deadline (tcp_options cfg) now = now + sint (of_int (cfg_ReadTimeout cfg * 10 ^ 18) :: int64)"
  by (simp add: read_deadline_def tcp_options_def seconds_def Time_Add_def time_Second_def mult.assoc)

text \<open>
  C39: no configured read timeout is honoured. The reader multiplies the timeout, a duration
  already, by a second once more, so for every positive number of seconds below \<open>2^33\<close> the deadline
  is not that many seconds away. The default of 60 seconds gives a deadline after 4659767778
  seconds, 147 years; 10 seconds give a deadline in the past, and every read on an open connection
  then fails at once, whatever the peer has sent.
\<close>

theorem read_timeout_overflow:
  assumes "0 < s" and "s < 2 ^ 33"
  shows "read_deadline (tcp_options (cfg\<lparr>cfg_ReadTimeout := s\<rparr>)) now \<noteq> now + s * 10 ^ 9 \<and>
    read_deadline (tcp_options (cfg\<lparr>cfg_ReadTimeout := 60\<rparr>)) now = now + 4659767778871345152 \<and>
    (now \<le> later \<and> \<not> nc_closed (ts_conn u) \<and>
       t = u\<lparr>ts_conn := net_SetReadDeadline (read_deadline (tcp_options (cfg\<lparr>cfg_ReadTimeout := 10\<rparr>)) now) (ts_conn u)\<rparr> \<longrightarrow>
     tcp_ReadFrame later t = (Inl (FrameIO (ConnError timeout_text)), t))"
proof (intro conjI impI)
  show "read_deadline (tcp_options (cfg\<lparr>cfg_ReadTimeout := s\<rparr>)) now \<noteq> now + s * 10 ^ 9"
  proof
    assume "read_deadline (tcp_options (cfg\<lparr>cfg_ReadTimeout := s\<rparr>)) now = now + s * 10 ^ 9"
    then have "sint (of_int (s * 10 ^ 18) :: int64) = s * 10 ^ 9" by (simp add: read_deadline_eq)
    moreover have "of_int (sint (of_int (s * 10 ^ 18) :: int64)) = (of_int (s * 10 ^ 18) :: int64)" by simp
    ultimately have "of_int (s * 10 ^ 18) = (of_int (s * 10 ^ 9) :: int64)" by (simp only:)
    then have "2 ^ 55 dvd s" by (rule nanos_twice)
    then show False using assms by (auto dest: zdvd_imp_le)
  qed
  show "read_deadline (tcp_options (cfg\<lparr>cfg_ReadTimeout := 60\<rparr>)) now = now + 4659767778871345152"
    by (simp add: read_deadline_eq)
  assume "now \<le> later \<and> \<not> nc_closed (ts_conn u) \<and>
    t = u\<lparr>ts_conn := net_SetReadDeadline (read_deadline (tcp_options (cfg\<lparr>cfg_ReadTimeout := 10\<rparr>)) now) (ts_conn u)\<rparr>"
  moreover have "read_deadline (tcp_options (cfg\<lparr>cfg_ReadTimeout := 10\<rparr>)) now = now - 8446744073709551616"
    by (simp add: read_deadline_eq)
  ultimately show "tcp_ReadFrame later t = (Inl (FrameIO (ConnError timeout_text)), t)"
    by (simp add: tcp_ReadFrame_def net_SetReadDeadline_def)
qed

theorem read_timeout_overflow_witness:
  "(0 :: int) < 60 \<and> read_deadline (tcp_options demo_cfg) 0 = 4659767778871345152"
proof -
  have "demo_cfg\<lparr>cfg_ReadTimeout := 60\<rparr> = demo_cfg" by code_simp
  then show ?thesis using read_timeout_overflow [of 60 demo_cfg 0] by simp
qed

subsection \<open>The WebSocket server with the protobuf codec\<close>

definition pb_empty :: pb_Envelope where
  "pb_empty = \<lparr>pb_Version = [], pb_Type = MSG_TYPE_UNSPECIFIED, pb_Encoding = ENCODING_UNSPECIFIED, pb_MessageId = [],
     pb_CorrelationId = [], pb_From = [], pb_To = [], pb_Timestamp = 0, pb_Data = []\<rparr>"

text \<open>
  The WebSocket server cannot read protobuf. \<open>main\<close> gives the WebSocket server no frame size,
  and the protobuf codec reads no byte under a size of zero. With \<open>CHAT_WS_CODEC\<close> 1, and the
  library reading no bytes as the empty message, every text message that the peer sends, an encoded
  envelope of any type among them, reaches the gateway as the text (or command) message of an old
  client whose content is the raw bytes.
\<close>

theorem ws_protobuf_as_text:
  assumes proto_empty: "proto_Unmarshal (lib_proto lib) [] = Some pb_empty"
    and "cfg_WSCodec cfg = 1" and "n_sess w ! s = WsSession v" and "s < length (n_sess w)"
    and "wss_protocolManager v = GetWSProtocolManager (ws_options cfg)" and "data \<noteq> []"
  shows "ws_message lib s sc (ws_options cfg) data w =
    OnEnvelope lib sc (legacy_envelope (NewProtocolManager 1) (n_uuid w (n_uuids w)) (Time_UnixMilli (n_clock w (n_reads w))) data)
      (w\<lparr>n_uuids := Suc (n_uuids w), n_reads := Suc (n_reads w)\<rparr>)"
proof -
  have pm: "wss_protocolManager v = Some (NewProtocolManager 1)"
    using assms(2,5) by (simp add: GetWSProtocolManager_def ws_options_def)
  have codec: "pm_codec (NewProtocolManager 1) = ProtobufCodec" by code_simp
  have dec: "Manager_DecodeMessage (lib_proto lib) (NewProtocolManager 1) data zero_Envelope 0 = Ret (None, envelope_of_pb pb_empty)"
    by (simp add: Manager_DecodeMessage_def codec Codec_Decode_def ProtobufCodec_Decode_def proto_empty)
  have type: "e_Type (envelope_of_pb pb_empty) = []"
    by (simp add: envelope_of_pb_def pb_empty_def fromPBMsgType_def pb_enum_defs)
  show ?thesis
    using dec type assms(2) legacy_run [OF assms(3,4) pm assms(6)]
    by (simp add: ws_message_def get_ws_app [OF assms(3,4)] pm ws_options_def)
qed

theorem ws_protobuf_as_text_witness:
  "OnEnvelope (demo_libs\<lparr>lib_proto := demo_proto\<lparr>proto_Unmarshal := (\<lambda>d. if d = [] then Some pb_empty else None)\<rparr>\<rparr>) 0
     (legacy_envelope (NewProtocolManager 1) (demo_uuid 0) (Time_UnixMilli (demo_clock 0)) ''pb'')
     (demo_net\<lparr>n_sess := [WsSession (demo_wss\<lparr>wss_protocolManager := Some (NewProtocolManager 1)\<rparr>)], n_uuids := 1, n_reads := 1\<rparr>) =
   ws_message (demo_libs\<lparr>lib_proto := demo_proto\<lparr>proto_Unmarshal := (\<lambda>d. if d = [] then Some pb_empty else None)\<rparr>\<rparr>) 0 0
     (ws_options (demo_cfg\<lparr>cfg_WSCodec := 1\<rparr>)) ''pb''
     (demo_net\<lparr>n_sess := [WsSession (demo_wss\<lparr>wss_protocolManager := Some (NewProtocolManager 1)\<rparr>)]\<rparr>)"
proof -
  let ?lib = "demo_libs\<lparr>lib_proto := demo_proto\<lparr>proto_Unmarshal := (\<lambda>d. if d = [] then Some pb_empty else None)\<rparr>\<rparr>"
    and ?v = "demo_wss\<lparr>wss_protocolManager := Some (NewProtocolManager 1)\<rparr>" and ?cfg = "demo_cfg\<lparr>cfg_WSCodec := 1\<rparr>"
  have "proto_Unmarshal (lib_proto ?lib) [] = Some pb_empty" by simp
  moreover have "wss_protocolManager ?v = GetWSProtocolManager (ws_options ?cfg)"
    by (simp add: GetWSProtocolManager_def ws_options_def)
  ultimately show ?thesis
    using ws_protobuf_as_text [of ?lib ?cfg "demo_net\<lparr>n_sess := [WsSession ?v]\<rparr>" 0 ?v "''pb''" 0]
    by (simp add: demo_net_def new_net_def)
qed


text \<open>
  The level of the log. The package reads the level from the environment before \<open>main\<close> runs, and \<open>main\<close>
  sets the level of the configuration, which is read from the same variable: it changes nothing.
\<close>

lemma main_logger_level: "main_logger ulower build env = logger_init ulower build env"
  by (simp add: main_logger_def SetLevel_def logger_init_def Load_config_def Let_def getEnv_def logger_getEnv_def)

end
