(* ===== verification/Server_System.thy ===== *)
theory Server_System
  imports Server_Properties
begin

section \<open>The running server as a system\<close>

text \<open>
  The hub of a server that main has started, with the relay: every operation on the hub, every
  handler goroutine, the relay's among them, and rounds of the consumer with whatever Redis returns,
  in any interleaving.
\<close>

lemma sys_inv_redis [simp]: "sys_inv (w\<lparr>bw_redis := s\<rparr>) = sys_inv w"
  by (simp add: sys_inv_def hub_ok_def gauge_ok_def)

lemma sys_inv_redis_call [inv_rules]: "sys_inv w \<Longrightarrow> sys_inv (snd (redis_call f w))"
  by (simp add: redis_call_def split: prod.splits)

lemma sys_inv_forG [inv_rules]:
  assumes "sys_inv w" and "\<And>x w. sys_inv w \<Longrightarrow> sys_inv (snd (f x w))"
  shows "sys_inv (snd (forG xs f w))"
  unfolding forG_def by (rule foldG_preserves [where P = sys_inv]) (simp_all add: assms)

lemma sys_inv_Publish [inv_rules]: "sys_inv w \<Longrightarrow> sys_inv (snd (Publish rl tz b m w))"
  unfolding Publish_def by (rule sys_inv_redis_call)

lemma main_run_inv: "sys_inv w \<Longrightarrow> sys_inv (snd (main_run rl tz b f e w))"
  unfolding main_run_def
  by (cases f; cases e) (auto intro!: sub_run_inv sys_inv_bindG sys_inv_Publish)

lemma remote_handler_inv: "sys_inv w \<Longrightarrow> sys_inv (snd (remote_handler m w))"
  by (simp add: remote_handler_def Hub_BroadcastRemote_def sys_inv_Emit)

lemma consume_one_inv: "sys_inv w \<Longrightarrow> sys_inv (snd (consume_one rl b remote_handler x w))"
  unfolding consume_one_def Let_def
  by (auto intro!: sys_inv_thenG sys_inv_redis_call sys_inv_ret remote_handler_inv simp del: ret_app split: prod.split option.split)

lemma Consume_round_inv: "sys_inv w \<Longrightarrow> sys_inv (snd (Consume_round rl b consumer remote_handler ctxErr w))"
  unfolding Consume_round_def
  by (auto intro!: sys_inv_bindG sys_inv_thenG sys_inv_redis_call sys_inv_ret sys_inv_forG consume_one_inv
      simp del: ret_app split: sum.split redis_err.split)

lemma RegisterAll_inv: "sys_inv w \<Longrightarrow> sys_inv (snd (RegisterAll emb w))"
  unfolding RegisterAll_def registerMessage_def registerUserLifecycle_def registerSystem_def registerFile_def
    registerHeartbeat_def registerDirect_def
  by (intro sys_inv_thenG sys_inv_Subscribe)

lemma redis_setup_inv: "sys_inv w \<Longrightarrow> sys_inv (snd (redis_setup rl b w))"
  unfolding redis_setup_def EnsureGroup_def by (intro sys_inv_thenG sys_inv_Subscribe sys_inv_redis_call sys_inv_ret)

lemma main_setup_inv:
  assumes "sys_inv w"
  shows "sys_inv (snd (main_setup ulower rl cfg w))"
proof -
  have "sys_inv (snd ((case main_bus cfg of None \<Rightarrow> ret () | Some b \<Rightarrow> redis_setup rl b) v))" if "sys_inv v" for v
    using that by (cases "main_bus cfg") (simp_all add: redis_setup_inv)
  then have "sys_inv (snd (thenG (RegisterAll SubHandler) (case main_bus cfg of None \<Rightarrow> ret () | Some b \<Rightarrow> redis_setup rl b) w))"
    by (intro sys_inv_thenG RegisterAll_inv assms)
  moreover have "RegisterBuiltins ulower NewRegistry = (None, builtin_reg ulower)"
    using builtin_reg_register by (simp add: RegisterBuiltins_def)
  ultimately show ?thesis by (simp add: main_setup_def)
qed

subsection \<open>The step relation\<close>

definition server_start :: "'s redis_lib \<Rightarrow> Config \<Rightarrow> (main_handler, 's) bus_world \<Rightarrow> bool" where
  "server_start rl cfg w \<longleftrightarrow> (\<exists>ulower s. w = snd (main_setup ulower rl cfg (world.extend empty_world \<lparr>bw_redis = s\<rparr>)))"

lemma new_world_inv: "sys_inv (world.extend empty_world \<lparr>bw_redis = s\<rparr>)"
  using sys_inv_empty by (simp add: sys_inv_def hub_ok_def gauge_ok_def world.defs)

lemma server_start_inv: "server_start rl cfg w \<Longrightarrow> sys_inv w"
  unfolding server_start_def by (elim exE) (simp only: main_setup_inv [OF new_world_inv])

inductive server_step ::
  "'s redis_lib \<Rightarrow> (Time \<Rightarrow> int) \<Rightarrow> Bus \<Rightarrow> (main_handler, 's) bus_world \<Rightarrow> (main_handler, 's) bus_world \<Rightarrow> bool"
  for rl tz b where
  hub: "sys_step (main_run rl tz b) w w' \<Longrightarrow> server_step rl tz b w w'"
| consume: "server_step rl tz b w (snd (Consume_round rl b consumer remote_handler ctxErr w))"

interpretation main: handler_runtime "main_run rl tz b" "server_start rl cfg" for rl tz b cfg
  by unfold_locales (rule main_run_inv, assumption, rule server_start_inv)

interpretation server: event_system "server_start rl cfg" "server_step rl tz b" for rl cfg tz b .

lemma server_reachable_inv: "server.reachable rl cfg tz b w \<Longrightarrow> sys_inv w"
proof (erule server.reachable_invariant)
  show "sys_inv v'" if "sys_inv v" "server_step rl tz b v v'" for v v'
    using that(2,1) by cases (auto intro: main.sys_step_inv Consume_round_inv)
qed (rule server_start_inv)

subsection \<open>The consumer\<close>

text \<open>The goroutines that a message of the stream has to start on a server with the relay.\<close>

fun relayed :: "xmessage \<Rightarrow> (main_handler \<times> Event) list" where
  "relayed (mid, vals) = (case Message_parse (case map_of vals ''data'' of Some s \<Rightarrow> s | None \<Rightarrow> []) of
     None \<Rightarrow> []
   | Some m \<Rightarrow>
       if m_Type m = ''message'' then [(SubHandler OnMessageRemote, MessageEvent (m_When m) (m_From m) (m_Text m) False)]
       else if m_Type m = ''direct'' then
         (let e = DirectMessageEvent (m_When m) (m_From m) (m_To m) (m_Text m) in [(SubHandler OnMessageDirect, e), (PublishDirect, e)])
       else [])"

lemma remote_handler_app:
  assumes "main_running cfg b w" and "Message_parse (case map_of vals ''data'' of Some s \<Rightarrow> s | None \<Rightarrow> []) = Some m"
  shows "remote_handler m w = (Ret (), w\<lparr>w_go := w_go w @ relayed (mid, vals)\<rparr>)"
  using assms(2) main_running_spawns [OF assms(1)]
  by (simp add: remote_handler_def Hub_BroadcastRemote_def Emit_eq main_handlers_def event_type_defs Let_def set_go_same)

lemma consume_one_relays:
  assumes "main_running cfg b w"
  shows "consume_one rl b remote_handler x w = (Ret (), consumed rl b (fst x) (relayed x) w)"
proof (cases x)
  case (Pair mid vals)
  show ?thesis
  proof (cases "Message_parse (case map_of vals ''data'' of Some s \<Rightarrow> s | None \<Rightarrow> [])")
    case None
    then show ?thesis using Pair by (simp add: consume_one_def consumed_def redis_call_def thenG_app split: prod.splits)
  next
    case (Some m)
    then show ?thesis using Pair remote_handler_app [OF assms Some, of mid]
      by (simp add: consume_one_def consumed_def redis_call_def thenG_app del: relayed.simps split: prod.splits)
  qed
qed

lemma consumed_running: "main_running cfg b w \<Longrightarrow> main_running cfg b (consumed rl b mid gs w)"
  by (simp add: main_running_def consumed_def)

lemma batch_relays:
  assumes "main_running cfg b w"
  shows "forG xs (consume_one rl b remote_handler) w = (Ret (), w\<lparr>w_go := w_go w @ concat (map relayed xs),
    bw_redis := fold (\<lambda>x s. snd (XAck rl (bus_stream b) (bus_group b) (fst x) s)) xs (bw_redis w)\<rparr>)"
  using assms
proof (induction xs arbitrary: w)
  case (Cons x xs)
  from Cons.IH [OF consumed_running [OF Cons.prems], of rl "fst x" "relayed x"] show ?case
    by (simp add: thenG_app consume_one_relays [OF Cons.prems] del: relayed.simps) (simp add: consumed_def)
qed simp

lemma Consume_round_relays:
  assumes "main_running cfg b w"
    and "XReadGroup rl (bus_group b) consumer [bus_stream b, ''>''] 100 (5 * time_Second) (bw_redis w) = (res, s)"
  shows "Consume_round rl b consumer remote_handler ctxErr w = (case res of
      Inl RedisNil \<Rightarrow> (Ret None, w\<lparr>bw_redis := s\<rparr>)
    | Inl (RedisError _) \<Rightarrow> (Ret ctxErr, w\<lparr>bw_redis := s\<rparr>)
    | Inr strs \<Rightarrow> (Ret None, w\<lparr>w_go := w_go w @ concat (map relayed (concat strs)),
        bw_redis := fold (\<lambda>x s. snd (XAck rl (bus_stream b) (bus_group b) (fst x) s)) (concat strs) s\<rparr>))"
proof -
  have running: "main_running cfg b (w\<lparr>bw_redis := s\<rparr>)" using assms(1) by (simp add: main_running_def)
  show ?thesis
    by (simp add: Consume_round_def redis_call_def assms(2) bindG_app thenG_app batch_relays [OF running] split: sum.split redis_err.split)
qed

text \<open>A context that has no error never ends the loop.\<close>

lemma Consume_goes_on:
  "main_running cfg b w \<Longrightarrow> \<exists>w'. Consume rl b consumer remote_handler (replicate n None) w = (Ret None, w')"
proof (induction n arbitrary: w)
  case (Suc n)
  obtain res s where "XReadGroup rl (bus_group b) consumer [bus_stream b, ''>''] 100 (5 * time_Second) (bw_redis w) = (res, s)" by fastforce
  from Consume_round_relays [OF Suc.prems this, of None] obtain w1 where
    "Consume_round rl b consumer remote_handler None w = (Ret None, w1)" "hub_handlers (w_hub w1) = hub_handlers (w_hub w)"
    by (auto split: sum.splits redis_err.splits)
  moreover from this(2) Suc.prems have "main_running cfg b w1" by (simp add: main_running_def)
  ultimately show ?case using Suc.IH by simp
qed simp

text \<open>
  C22: what the consumer does with an answer of Redis. On a server that main has started with Redis on,
  whatever its clients have done since, and for every answer to the read: a timeout (\<open>redis.Nil\<close>)
  and an error change nothing but the client library's state, and an error ends the loop only with the error of its context. A
  batch of messages starts, in the order of the batch, the remote-message handler for every chat
  message, the direct-message handler and the relay's for every direct message, and nothing for any
  other message or a payload that does not parse; every message of the batch is acknowledged exactly once,
  in order, handled or not; and the loop goes on. With the context that main gives it, which has no
  error, it runs through any number of rounds without returning.
\<close>

theorem consumer_relays:
  assumes "main_running cfg b w"
    and "XReadGroup rl (bus_group b) consumer [bus_stream b, ''>''] 100 (5 * time_Second) (bw_redis w) = (res, s)"
  shows "Consume_round rl b consumer remote_handler ctxErr w = (case res of
      Inl RedisNil \<Rightarrow> (Ret None, w\<lparr>bw_redis := s\<rparr>)
    | Inl (RedisError _) \<Rightarrow> (Ret ctxErr, w\<lparr>bw_redis := s\<rparr>)
    | Inr strs \<Rightarrow> (Ret None, w\<lparr>w_go := w_go w @ concat (map relayed (concat strs)),
        bw_redis := fold (\<lambda>x s. snd (XAck rl (bus_stream b) (bus_group b) (fst x) s)) (concat strs) s\<rparr>)) \<and>
    (\<forall>n. \<exists>w'. Consume rl b consumer remote_handler (replicate n None) w = (Ret None, w'))"
  using Consume_round_relays [OF assms] Consume_goes_on [OF assms(1)] by blast

text \<open>The witness consumes a batch of a chat message, a payload that is not a message, and a direct message.\<close>

definition chat_message :: Message where
  "chat_message = demo_message\<lparr>m_Type := ''message'', m_To := []\<rparr>"

lemma payload_parses:
  "Message_parse (Message_json (\<lambda>_. 28800) chat_message) = Some chat_message"
  "Message_parse (Message_json (\<lambda>_. 28800) demo_message) = Some demo_message" "Message_parse ''?'' = None"
proof -
  have "valid_message chat_message = chat_message" by code_simp
  moreover have "m_When chat_message = m_When demo_message" by (simp add: chat_message_def)
  ultimately show "Message_parse (Message_json (\<lambda>_. 28800) chat_message) = Some chat_message"
    "Message_parse (Message_json (\<lambda>_. 28800) demo_message) = Some demo_message"
    using Message_parse_json [of "\<lambda>_. 28800"] demo_message_text demo_message_valid by simp_all
  show "Message_parse ''?'' = None" by code_simp
qed

definition demo_stream :: "string list" where
  "demo_stream = [Message_json (\<lambda>_. 28800) chat_message, ''?'', Message_json (\<lambda>_. 28800) demo_message]"

theorem consumer_relays_witness:
  "Consume_round list_redis demo_bus ''c'' remote_handler None (demo_server\<lparr>bw_redis := demo_stream\<rparr>) =
     (Ret None, demo_server\<lparr>w_go := [(SubHandler OnMessageRemote, MessageEvent 63885000000123000000 ''ann'' ''hi'' False),
        (SubHandler OnMessageDirect, DirectMessageEvent 63885000000123000000 ''ann'' ''bob'' ''hi''),
        (PublishDirect, DirectMessageEvent 63885000000123000000 ''ann'' ''bob'' ''hi'')], bw_redis := []\<rparr>)"
proof -
  let ?w = "demo_server\<lparr>bw_redis := demo_stream\<rparr>"
  have running: "main_running demo_cfg demo_bus ?w" using demo_running by (simp add: main_running_def)
  have "XReadGroup list_redis (bus_group demo_bus) ''c'' [bus_stream demo_bus, ''>''] 100 (5 * time_Second) (bw_redis ?w) =
      (Inr [map (\<lambda>p. (''0-1'', [(''data'', p)])) demo_stream], demo_stream)" by (simp add: list_redis_def)
  from conjunct1 [OF consumer_relays [OF running this, of None]] show ?thesis
    by (simp add: demo_stream_def payload_parses list_redis_def demo_server_idle) (simp add: chat_message_def demo_message_def Let_def)
qed

end
