(* ===== verification/Client_Programs.thy ===== *)
theory Client_Programs
  imports Frames Protocol Json_Lemmas
begin

section \<open>The programs on the other side (cmd/client/main.go, cmd/peek/main.go)\<close>

text \<open>
  The example client, which reads the welcome message and sends one text, and the viewer, which
  prints every envelope it receives. \<open>dial\<close> is what \<open>net.Dial\<close> returns for an address; the
  identifier and the clock reading of the client's message are arguments. What a program prints is
  a list of lines by their meaning for the client and the text itself for the viewer; the command
  line flags of the viewer are arguments.
\<close>

subsection \<open>The client\<close>

record client_Envelope =
  ce_Version :: string
  ce_Type :: string
  ce_Encoding :: string
  ce_Mid :: string
  ce_Correlation :: string
  ce_From :: string
  ce_To :: string
  ce_Ts :: int64
  ce_Data :: string

definition zero_client_Envelope :: client_Envelope where
  "zero_client_Envelope = \<lparr>ce_Version = [], ce_Type = [], ce_Encoding = [], ce_Mid = [], ce_Correlation = [],
     ce_From = [], ce_To = [], ce_Ts = 0, ce_Data = []\<rparr>"

text \<open>\<open>json.NewEncoder(w).Encode\<close> of the client's envelope, with the line break it adds.\<close>

definition client_json :: "client_Envelope \<Rightarrow> string" where
  "client_json e = json_object
     ([json_member ''version'' (json_string (ce_Version e)), json_member ''type'' (json_string (ce_Type e))] @
      omitempty ''encoding'' (ce_Encoding e) @ omitempty ''mid'' (ce_Mid e) @
      omitempty ''correlation_id'' (ce_Correlation e) @ omitempty ''from'' (ce_From e) @ omitempty ''to'' (ce_To e) @
      [json_member ''ts'' (json_int (ce_Ts e))] @
      (if ce_Data e = [] then [] else [json_member ''data'' (json_bytes (Some (ce_Data e)))])) @ [CHR 0x0A]"

definition client_fields :: "client_Envelope json_field list" where
  "client_fields =
     [(''version'', set_string (\<lambda>s e. e\<lparr>ce_Version := s\<rparr>)),
      (''type'', set_string (\<lambda>s e. e\<lparr>ce_Type := s\<rparr>)),
      (''encoding'', set_string (\<lambda>s e. e\<lparr>ce_Encoding := s\<rparr>)),
      (''mid'', set_string (\<lambda>s e. e\<lparr>ce_Mid := s\<rparr>)),
      (''correlation_id'', set_string (\<lambda>s e. e\<lparr>ce_Correlation := s\<rparr>)),
      (''from'', set_string (\<lambda>s e. e\<lparr>ce_From := s\<rparr>)),
      (''to'', set_string (\<lambda>s e. e\<lparr>ce_To := s\<rparr>)),
      (''ts'', set_int64 (\<lambda>i e. e\<lparr>ce_Ts := i\<rparr>)),
      (''data'', set_bytes (\<lambda>s e. e\<lparr>ce_Data := s\<rparr>))]"

datatype client_line =
    Connected string
  | Welcome string int64 string
  | DecodeWelcomeFailed json_err
  | ReadWelcomeFailed io_err
  | SentOne

text \<open>Reading the welcome message: a line in every case.\<close>

definition client_welcome :: "(string \<Rightarrow> nat) \<Rightarrow> conn \<Rightarrow> client_line \<times> conn" where
  "client_welcome arrived c = (case client_readFrame arrived c of
     (Inl err, c') \<Rightarrow> (ReadWelcomeFailed err, c')
   | (Inr (_, Some err), c') \<Rightarrow> (ReadWelcomeFailed err, c')
   | (Inr (buf, None), c') \<Rightarrow>
       ((case json_Unmarshal client_fields buf zero_client_Envelope of
           (None, env) \<Rightarrow> Welcome (ce_Type env) (ce_Ts env) (ce_Data env)
         | (Some err, _) \<Rightarrow> DecodeWelcomeFailed err), c'))"

definition client_message :: "string \<Rightarrow> int64 \<Rightarrow> client_Envelope" where
  "client_message uuid now = zero_client_Envelope\<lparr>ce_Version := ''1.0'', ce_Type := ''text'', ce_Encoding := ''json'',
     ce_Mid := uuid, ce_From := ''go-client'', ce_Ts := now, ce_Data := ''Hello from Go client''\<rparr>"

definition client_main ::
  "(string \<Rightarrow> nat) \<Rightarrow> (string \<Rightarrow> io_err + conn) \<Rightarrow> string \<Rightarrow> int64 \<Rightarrow> client_line list \<times> unit outcome \<times> conn option" where
  "client_main arrived dial uuid now =
     (let addr = ''127.0.0.1:8080'' in
      case dial addr of
        Inl err \<Rightarrow> ([], Panic (ErrorPanic (io_err_text err)), None)
      | Inr c \<Rightarrow>
         (case client_welcome arrived c of (line, c1) \<Rightarrow>
            (case client_writeFrame (client_json (client_message uuid now)) c1 of
               (Some err, c2) \<Rightarrow> ([Connected addr, line], Panic (ErrorPanic (io_err_text err)), Some c2)
             | (None, c2) \<Rightarrow> ([Connected addr, line, SentOne], Ret (), Some c2))))"

subsection \<open>The viewer\<close>

definition parseCodec :: "string \<Rightarrow> string + int" where
  "parseCodec s =
     (if s = ''json'' \<or> s = ''JSON'' \<or> s = ''0'' then Inr CodecJson
      else if s = ''protobuf'' \<or> s = ''pb'' \<or> s = ''PB'' \<or> s = ''1'' then Inr CodecProtobuf
      else Inl (''unknown codec: '' @ s))"

definition peek_data :: "string \<Rightarrow> string" where
  "peek_data d =
     (if d = [] then ''  data: <empty>''
      else if utf8_valid d then ''  data(text): '' @ d
      else let s = b64_encode d; s' = (if 80 < length s then take 80 s @ ''...'' else s)
           in ''  data(base64): '' @ s')"

definition peek_show :: "Envelope \<Rightarrow> string" where
  "peek_show env = ''Envelope:'' @ [CHR 0x0A] @ ''  type: '' @ e_Type env @ [CHR 0x0A] @
     ''  ts:   '' @ strconv_Itoa (sint (e_Ts env)) @ [CHR 0x0A] @ peek_data (e_Data env) @ [CHR 0x0A]"

text \<open>How the viewer ends, and its exit code; a panic of the decoder ends it as well.\<close>

datatype peek_end =
    PeekCodec string
  | PeekDial io_err
  | PeekRead frame_err
  | PeekDecode codec_err
  | PeekPanic panic

definition peek_exit :: "peek_end \<Rightarrow> int" where
  "peek_exit e = (case e of PeekCodec _ \<Rightarrow> 2 | PeekPanic _ \<Rightarrow> 2 | _ \<Rightarrow> 1)"

text \<open>The loop, with a bound on the number of frames; \<open>None\<close> is a loop that has not ended within it.\<close>

fun peek_loop :: "nat \<Rightarrow> proto_lib \<Rightarrow> MessageCodec \<Rightarrow> int \<Rightarrow> FrameCodec \<Rightarrow> conn \<Rightarrow> string \<times> peek_end option" where
  "peek_loop 0 pl mc mx fc c = ([], None)"
| "peek_loop (Suc n) pl mc mx fc c = (case ReadFrame fc (Some c) of
     (Inl err, _) \<Rightarrow> ([], Some (PeekRead err))
   | (Inr data, fc', c') \<Rightarrow>
       (case Codec_Decode pl mc data zero_Envelope mx of
          Panic p \<Rightarrow> ([], Some (PeekPanic p))
        | Ret (Some err, _) \<Rightarrow> ([], Some (PeekDecode err))
        | Ret (None, env) \<Rightarrow>
            (case peek_loop n pl mc mx fc' (case c' of Some d \<Rightarrow> d | None \<Rightarrow> c) of
               (out, e) \<Rightarrow> (peek_show env @ out, e))))"

definition peek_main ::
  "nat \<Rightarrow> proto_lib \<Rightarrow> string \<Rightarrow> string \<Rightarrow> int \<Rightarrow> (string \<Rightarrow> io_err + conn) \<Rightarrow> string \<times> peek_end option" where
  "peek_main fuel pl addr codecS mx dial = (case parseCodec codecS of
     Inl err \<Rightarrow> ([], Some (PeekCodec err))
   | Inr cc \<Rightarrow> (case NewCodec cc of
       Inl err \<Rightarrow> ([], Some (PeekCodec err))
     | Inr mc \<Rightarrow> (case dial addr of
         Inl err \<Rightarrow> ([], Some (PeekDial err))
       | Inr c \<Rightarrow> peek_loop fuel pl mc mx NewFrameCodec c)))"

end
