(* ===== verification/Program_Properties.thy ===== *)
theory Program_Properties
  imports Client_Programs Tcp_Transcript
begin

section \<open>The client and the viewer against the server\<close>

text \<open>
  The client program and the server speak to each other: each side's bytes are the other side's
  input. The viewer shows every envelope that a server sends.
\<close>

subsection \<open>The two JSON forms of an envelope\<close>

definition client_members :: "client_Envelope \<Rightarrow> (string \<times> string \<times> jval) list" where
  "client_members e =
     (let str = (\<lambda>k v. (k, json_string v, JStr (to_valid v))); opt = (\<lambda>k v. if v = [] then [] else [str k v])
      in [str ''version'' (ce_Version e), str ''type'' (ce_Type e)] @
        opt ''encoding'' (ce_Encoding e) @ opt ''mid'' (ce_Mid e) @ opt ''correlation_id'' (ce_Correlation e) @
        opt ''from'' (ce_From e) @ opt ''to'' (ce_To e) @
        [(''ts'', json_int (ce_Ts e), JNum (json_int (ce_Ts e)))] @
        (if ce_Data e = [] then [] else [(''data'', json_bytes (Some (ce_Data e)), JStr (b64_encode (ce_Data e)))]))"

lemma client_json_members:
  "client_json e = json_object (map (\<lambda>(k, t, v). json_member k t) (client_members e)) @ [CHR 0x0A]"
  by (simp add: client_json_def client_members_def omitempty_def Let_def)

lemma client_members_parse: "list_all (\<lambda>(k, t, v). plain_key k \<and> parses d t v) (client_members e)"
proof -
  have "plain_key ''to''" by code_simp
  then show ?thesis using envelope_keys
    by (simp add: client_members_def Let_def parses_string parses_int parses_bytes)
qed

lemma to_valid_Nil [simp]: "to_valid [] = []"
  by (simp add: to_valid_def runes.simps)

text \<open>The server reads a client's envelope as one of its own, without the receiver.\<close>

definition server_view :: "client_Envelope \<Rightarrow> Envelope" where
  "server_view e = valid_envelope \<lparr>e_Version = ce_Version e, e_Type = ce_Type e, e_Encoding = ce_Encoding e,
     e_From = ce_From e, e_Mid = ce_Mid e, e_Correlation = ce_Correlation e, e_Ts = ce_Ts e, e_Data = ce_Data e\<rparr>"

lemma find_envelope_fields:
  "find_field envelope_fields ''to'' = None"
  "find_field envelope_fields ''version'' = Some (''version'', set_string (\<lambda>s e. e\<lparr>e_Version := s\<rparr>))"
  "find_field envelope_fields ''type'' = Some (''type'', set_string (\<lambda>s e. e\<lparr>e_Type := s\<rparr>))"
  "find_field envelope_fields ''encoding'' = Some (''encoding'', set_string (\<lambda>s e. e\<lparr>e_Encoding := s\<rparr>))"
  "find_field envelope_fields ''from'' = Some (''from'', set_string (\<lambda>s e. e\<lparr>e_From := s\<rparr>))"
  "find_field envelope_fields ''mid'' = Some (''mid'', set_string (\<lambda>s e. e\<lparr>e_Mid := s\<rparr>))"
  "find_field envelope_fields ''correlation_id'' = Some (''correlation_id'', set_string (\<lambda>s e. e\<lparr>e_Correlation := s\<rparr>))"
  "find_field envelope_fields ''ts'' = Some (''ts'', set_int64 (\<lambda>i e. e\<lparr>e_Ts := i\<rparr>))"
  "find_field envelope_fields ''data'' = Some (''data'', set_bytes (\<lambda>s e. e\<lparr>e_Data := s\<rparr>))"
  by (code_simp, simp_all add: find_field_def envelope_fields_def)

lemma set_client_members:
  "set_members envelope_fields (map (\<lambda>(k, t, v). (k, v)) (client_members e)) None zero_Envelope = (None, server_view e)"
  by (cases "ce_Encoding e = []"; cases "ce_Mid e = []"; cases "ce_Correlation e = []"; cases "ce_From e = []";
      cases "ce_To e = []"; cases "ce_Data e = []")
    (simp_all add: client_members_def Let_def find_envelope_fields server_view_def valid_envelope_def zero_Envelope_def)

lemma server_reads_client:
  assumes "ce_Type e \<noteq> []" and "maxSize \<le> 0 \<or> int (length (client_json e)) \<le> maxSize"
  shows "JSONCodec_Decode (client_json e) zero_Envelope maxSize = (None, server_view e)"
proof -
  have ne: "client_members e \<noteq> []" by (simp add: client_members_def Let_def)
  have dec: "json_Decode envelope_fields (client_json e) zero_Envelope = (None, server_view e)"
    unfolding client_json_members json_object_reads(1) [OF ne client_members_parse] by (rule set_client_members)
  have brace: "\<exists>t. client_json e = CHR ''{'' # t" by (simp add: client_json_def json_object_def)
  have "limit_reader maxSize (client_json e) = client_json e"
    using assms(2) by (auto simp: limit_reader_def)
  moreover have "e_Type (server_view e) \<noteq> []"
    using to_valid_nonempty [OF assms(1)] by (simp add: server_view_def valid_envelope_def)
  ultimately show ?thesis using dec brace by (auto simp: JSONCodec_Decode_def)
qed

text \<open>The client reads the server's envelopes.\<close>

definition client_view :: "Envelope \<Rightarrow> client_Envelope" where
  "client_view e = \<lparr>ce_Version = to_valid (e_Version e), ce_Type = to_valid (e_Type e), ce_Encoding = to_valid (e_Encoding e),
     ce_Mid = to_valid (e_Mid e), ce_Correlation = to_valid (e_Correlation e), ce_From = to_valid (e_From e), ce_To = [],
     ce_Ts = e_Ts e, ce_Data = e_Data e\<rparr>"

lemma client_reads_server:
  "json_Unmarshal client_fields (JSONCodec_Encode e) zero_client_Envelope = (None, client_view e)"
proof -
  have ne: "envelope_members e \<noteq> []" by (simp add: envelope_members_def)
  have "set_members client_fields (map (\<lambda>(k, t, v). (k, v)) (envelope_members e)) None zero_client_Envelope = (None, client_view e)"
    by (cases "e_Data e = []")
      (simp_all add: envelope_members_def client_fields_def find_field_def zero_client_Envelope_def client_view_def)
  moreover have "skip_ws [CHR 0x0A] = []" by code_simp
  ultimately show ?thesis
    unfolding JSONCodec_Encode_def json_envelope_members by (simp add: json_object_reads(2) [OF ne envelope_members_parse])
qed

lemma client_welcome_reads:
  assumes "frame_valid (JSONCodec_Encode e)" and "cn_in c = frame_bytes (JSONCodec_Encode e) @ rest"
    and "4 \<le> arrived (cn_in c)"
  shows "client_welcome arrived c = (Welcome (to_valid (e_Type e)) (e_Ts e) (e_Data e), c\<lparr>cn_in := rest\<rparr>)"
proof -
  have "client_readFrame arrived c = (Inr (JSONCodec_Encode e, None), c\<lparr>cn_in := rest\<rparr>)"
    using assms by (intro client_readFrame_ok) (auto simp: frame_valid_def MaxFrameSize_def)
  then show ?thesis by (simp add: client_welcome_def client_reads_server client_view_def)
qed

subsection \<open>A session of the client program\<close>

lemma client_message_not_ping:
  assumes "pm_codec pm = JSONCodec" and "int (length (client_json (client_message uuid now))) \<le> o_MaxFrameSize opt"
  shows "pings pl pm opt [client_json (client_message uuid now)] = []"
proof -
  have "JSONCodec_Decode (client_json (client_message uuid now)) zero_Envelope (o_MaxFrameSize opt) =
      (None, server_view (client_message uuid now))"
    using assms(2) by (intro server_reads_client) (simp_all add: client_message_def)
  then have "decoded pl pm opt (client_json (client_message uuid now)) = Some (server_view (client_message uuid now))"
    using assms(1) by (simp add: decoded_def Manager_DecodeMessage_def Codec_Decode_def)
  moreover have "to_valid ''text'' \<noteq> MsgPing" by code_simp
  ultimately show ?thesis
    by (simp add: pings_def List.map_filter_def server_view_def valid_envelope_def client_message_def)
qed

text \<open>
  C24: the client program and the server talk to each other. Connect the client to a TCP server
  with the JSON codec: the server's input is what the client writes and the client's input is what
  the server writes, however the network cuts it into pieces of at least four bytes. Then the
  client prints the server's welcome, with its timestamp and its text, and reports one message sent,
  without a panic; and the server handles the client's message, answers nothing more, and ends
  after two turns.
\<close>

theorem client_session:
  assumes "net_ok w" and "gw_ok w" and "tcp_opt_ok opt" and "GetTCPProtocolManager opt = Some pm" and "in_time opt (n_clock w)"
    and "\<not> nc_closed c" and "nc_deadline c = None" and "Manager_GetCodec pm = JSONCodec"
    and "msg = client_json (client_message uuid now)" and "int (length msg) \<le> min MaxFrameSize (o_MaxFrameSize opt)"
    and "nc_stream c = \<lparr>cn_in = frame_bytes msg, cn_end = EOF, cn_out = [], cn_room = None\<rparr>"
    and "int (length (JSONCodec_Encode (welcome_envelope w))) \<le> MaxFrameSize" and "\<forall>s. 4 \<le> arrived s"
  shows "\<exists>w'. handleConnection 2 lib opt c w = (Ret True, w') \<and>
    client_main arrived (\<lambda>_. Inr (wire_conn (written w' (length (n_ctx w))))) uuid now =
      ([Connected ''127.0.0.1:8080'',
        Welcome ''text'' (Time_UnixMilli (n_clock w (Suc (n_reads w)))) (json_object [json_member ''text'' (json_string welcome_text)]),
        SentOne], Ret (), Some ((wire_conn [])\<lparr>cn_out := frame_bytes msg\<rparr>))"
proof -
  let ?m = msg and ?e = "welcome_envelope w"
  have pm: "pm_codec pm = JSONCodec" using assms(8) by (simp add: Manager_GetCodec_def)
  have brace: "\<exists>t. client_json x = CHR ''{'' # t" "\<exists>t. JSONCodec_Encode y = CHR ''{'' # t" for x y
    by (simp_all add: client_json_def JSONCodec_Encode_def json_envelope_def json_object_def)
  have valid: "list_all frame_valid [?m]" "frame_valid (JSONCodec_Encode ?e)"
    using assms(9,10,12) brace(1) [of "client_message uuid now"] brace(2) [of ?e] by (auto simp: frame_valid_def)
  have str: "nc_stream c = \<lparr>cn_in = concat (map frame_bytes [?m]), cn_end = EOF, cn_out = [], cn_room = None\<rparr>"
    using assms(11) by simp
  have "pings (lib_proto lib) pm opt [?m] = []" unfolding assms(9)
    by (rule client_message_not_ping [OF pm]) (use assms(9,10) in simp)
  with handleConnection_transcript [OF assms(1-7) str valid(1), of lib] obtain w' where
    1: "handleConnection 2 lib opt c w = (Ret True, w')" "written w' (length (n_ctx w)) = wire (lib_proto lib) pm ?e"
    by (auto simp: numeral_2_eq_2)
  have wire: "wire (lib_proto lib) pm ?e = frame_bytes (JSONCodec_Encode ?e)"
    using assms(12) by (simp add: wire_def Manager_EncodeMessage_def Codec_Encode_def pm)
  have "to_valid ''text'' = ''text''" by code_simp
  then have "client_welcome arrived (wire_conn (wire (lib_proto lib) pm ?e)) =
      (Welcome ''text'' (Time_UnixMilli (n_clock w (Suc (n_reads w)))) (json_object [json_member ''text'' (json_string welcome_text)]), wire_conn [])"
    using client_welcome_reads [OF valid(2), of "wire_conn (wire (lib_proto lib) pm ?e)" "[]" arrived] assms(13) wire
    by (simp add: wire_conn_def welcome_envelope_def CreateTextMessage_def MsgText_def json_text_def)
  moreover have "client_writeFrame ?m (wire_conn []) = (None, (wire_conn [])\<lparr>cn_out := frame_bytes ?m\<rparr>)"
    using assms(10) by (simp add: client_writeFrame_def conn_Write_def wire_conn_def frame_bytes_def MaxFrameSize_def)
  ultimately show ?thesis using 1 by (simp add: client_main_def assms(9) [symmetric])
qed

theorem client_session_witness:
  "\<exists>w'. handleConnection 2 demo_libs demo_opt (demo_conn (frame_bytes (client_json (client_message ''u'' 5)))) demo_net = (Ret True, w') \<and>
    fst (client_main (\<lambda>_. 7) (\<lambda>_. Inr (wire_conn (written w' 0))) ''u'' 5) =
      [Connected ''127.0.0.1:8080'', Welcome ''text'' (Time_UnixMilli (demo_clock 1)) (json_object [json_member ''text'' (json_string welcome_text)]),
       SentOne]"
proof -
  have "Manager_GetCodec demo_pm = JSONCodec" "int (length (JSONCodec_Encode (welcome_envelope demo_net))) \<le> MaxFrameSize"
    "int (length (client_json (client_message ''u'' 5))) \<le> min MaxFrameSize (o_MaxFrameSize demo_opt)" by code_simp+
  moreover have "n_ctx demo_net = []" "n_clock demo_net (Suc (n_reads demo_net)) = demo_clock 1"
    by (simp_all add: demo_net_def new_net_def)
  ultimately show ?thesis
    using client_session [OF demo_net_ok demo_gw_ok demo_opt_ok demo_manager demo_in_time demo_conn_simps(1,2) _ refl _ demo_conn_simps(3) _, of "''u''" 5 "\<lambda>_. 7" demo_libs]
    by auto
qed

subsection \<open>The viewer\<close>

lemma peek_loop_shows:
  assumes "list_all (sendable pl pm mx) es" and "0 < mx" and "cn_in c = concat (map frame_bytes (peer_frames pl pm es))" and "cn_end c = EOF"
  shows "peek_loop (Suc (length es)) pl (Manager_GetCodec pm) mx fc c = (concat (map peek_show es), Some (PeekRead (FrameIO EOF)))"
  using assms
proof (induction es arbitrary: fc c)
  case Nil
  then have "ReadFrame fc (Some c) = (Inl (FrameIO EOF), fc, Some c)"
    by (simp add: ReadFrame_def readFrameInternal_def io_ReadFull_def peer_frames_def)
  then show ?case by simp
next
  case (Cons e es)
  let ?d = "case Manager_EncodeMessage pl pm e of Inr d \<Rightarrow> d | Inl _ \<Rightarrow> []"
  have e: "codec_carries pl (Manager_GetCodec pm) e" "Codec_Encode pl (Manager_GetCodec pm) e = Inr ?d" "frame_valid ?d" "int (length ?d) \<le> mx"
    using Cons.prems(1) by (auto simp: sendable_def Manager_EncodeMessage_def Manager_GetCodec_def split: sum.splits)
  have rest: "cn_in c = frame_bytes ?d @ concat (map frame_bytes (peer_frames pl pm es))"
    using Cons.prems(3) by (simp add: peer_frames_def)
  from ReadFrame_ok [OF e(3) rest, of fc] obtain fc' where
    r: "ReadFrame fc (Some c) = (Inr ?d, fc', Some (c\<lparr>cn_in := concat (map frame_bytes (peer_frames pl pm es))\<rparr>))" by blast
  have "peek_loop (Suc (length es)) pl (Manager_GetCodec pm) mx fc' (c\<lparr>cn_in := concat (map frame_bytes (peer_frames pl pm es))\<rparr>) =
      (concat (map peek_show es), Some (PeekRead (FrameIO EOF)))"
    using Cons.prems by (intro Cons.IH) simp_all
  then show ?case
    using r codec.reads_back [OF e(1,2) Cons.prems(2) e(4)] by (simp del: peek_loop.simps(2) add: peek_loop.simps(2) [of "Suc (length es)"])
qed

text \<open>
  C32: the viewer shows what was sent. Whatever envelopes a server sends that the chosen codec can
  carry within the viewer's size limit, the viewer prints each of them once and in order, and when
  the server closes the connection it ends with the end of the stream and exit code 1. Every codec name
  other than json, JSON, 0, protobuf, pb, PB and 1 ends it with exit code 2 and an error that names it,
  before it connects, whatever a connection would do.
\<close>

theorem peek_shows:
  assumes "list_all (sendable pl (NewProtocolManager cc) mx) es" and "0 < mx" and "parseCodec codecS = Inr cc"
    and "dial addr = Inr c" and "cn_end c = EOF" and "cn_in c = concat (map frame_bytes (peer_frames pl (NewProtocolManager cc) es))"
  shows "peek_main (Suc (length es)) pl addr codecS mx dial = (concat (map peek_show es), Some (PeekRead (FrameIO EOF))) \<and>
    peek_exit (PeekRead (FrameIO EOF)) = 1 \<and>
    (\<forall>name dial'. name \<notin> {''json'', ''JSON'', ''0'', ''protobuf'', ''pb'', ''PB'', ''1''} \<longrightarrow>
       peek_main n pl addr name mx dial' = ([], Some (PeekCodec (''unknown codec: '' @ name)))) \<and>
    peek_exit (PeekCodec err) = 2"
proof -
  have "cc = 0 \<or> cc = 1" using assms(3) by (auto simp: parseCodec_def CodecJson_def CodecProtobuf_def split: if_splits)
  moreover have "NewCodec 0 = Inr JSONCodec" "NewCodec 1 = Inr ProtobufCodec" "Manager_GetCodec (NewProtocolManager 0) = JSONCodec"
    "Manager_GetCodec (NewProtocolManager 1) = ProtobufCodec" by code_simp+
  ultimately have "NewCodec cc = Inr (Manager_GetCodec (NewProtocolManager cc))" by auto
  then show ?thesis
    using peek_loop_shows [OF assms(1,2,6,5)] assms(3,4)
    by (simp add: peek_main_def peek_exit_def parseCodec_def del: peek_loop.simps)
qed

theorem peek_shows_witness:
  "peek_main 2 (lib_proto demo_libs) ''localhost:8080'' ''json'' 1048576
     (\<lambda>_. Inr (wire_conn (concat (map frame_bytes (peer_frames (lib_proto demo_libs) demo_pm [demo_ping]))))) =
   (peek_show demo_ping, Some (PeekRead (FrameIO EOF))) \<and>
   peek_main 9 (lib_proto demo_libs) ''localhost:8080'' ''Json'' 1048576 (\<lambda>_. Inl EOF) = ([], Some (PeekCodec ''unknown codec: Json''))"
proof -
  have pm: "NewProtocolManager 0 = demo_pm" by (simp add: demo_pm_def CodecJson_def)
  have "list_all (sendable (lib_proto demo_libs) (NewProtocolManager 0) 1048576) [demo_ping]"
    using demo_sendable by (simp add: pm demo_opt_def)
  moreover have "parseCodec ''json'' = Inr 0" by (simp add: parseCodec_def CodecJson_def)
  ultimately have "peek_main (Suc (length [demo_ping])) (lib_proto demo_libs) ''localhost:8080'' ''json'' 1048576
        (\<lambda>_. Inr (wire_conn (concat (map frame_bytes (peer_frames (lib_proto demo_libs) demo_pm [demo_ping]))))) =
      (concat (map peek_show [demo_ping]), Some (PeekRead (FrameIO EOF)))"
    and "\<forall>name dial'. name \<notin> {''json'', ''JSON'', ''0'', ''protobuf'', ''pb'', ''PB'', ''1''} \<longrightarrow>
       peek_main 9 (lib_proto demo_libs) ''localhost:8080'' name 1048576 dial' = ([], Some (PeekCodec (''unknown codec: '' @ name)))"
    using peek_shows [of "lib_proto demo_libs" 0 1048576 "[demo_ping]" "''json''"
      "\<lambda>_. Inr (wire_conn (concat (map frame_bytes (peer_frames (lib_proto demo_libs) demo_pm [demo_ping]))))" "''localhost:8080''"
      "wire_conn (concat (map frame_bytes (peer_frames (lib_proto demo_libs) demo_pm [demo_ping])))" 9]
    by (simp_all add: pm wire_conn_def)
  then show ?thesis by (simp add: numeral_2_eq_2)
qed

end
