(* ===== verification/Go_Threads.thy ===== *)
theory Go_Threads
  imports Go_Prelude
begin

section \<open>Goroutines that interleave\<close>

text \<open>
  A computation of the prelude runs in one piece. A \<open>thread\<close> is a computation cut into atomic
  actions: each action runs without interruption and gives the rest of the thread, and the actions
  of several threads may interleave. \<open>alone\<close> runs a thread without interference. \<open>owes\<close> is a
  rely-guarantee judgement about one thread, and \<open>pool_ok\<close> lifts it to a pool of threads.
\<close>

datatype ('w, 'a) thread = Done 'a | Act "'w \<Rightarrow> ('w, 'a) thread outcome \<times> 'w"

primrec bindT :: "('w, 'a) thread \<Rightarrow> ('a \<Rightarrow> ('w, 'b) thread) \<Rightarrow> ('w, 'b) thread" where
  "bindT (Done x) f = f x"
| "bindT (Act a) f = Act (map_prod (map_outcome (\<lambda>t. bindT t f)) id \<circ> a)"

definition atom :: "('w, 'a) go \<Rightarrow> ('w, 'a) thread" where
  "atom m = Act (map_prod (map_outcome Done) id \<circ> m)"

definition thenT :: "('w, 'a) thread \<Rightarrow> ('w, 'b) thread \<Rightarrow> ('w, 'b) thread" where
  "thenT t u = bindT t (\<lambda>_. u)"

fun foldT :: "'a list \<Rightarrow> ('a \<Rightarrow> 'b \<Rightarrow> ('w, 'b) thread) \<Rightarrow> 'b \<Rightarrow> ('w, 'b) thread" where
  "foldT [] f b = Done b"
| "foldT (x # xs) f b = bindT (f x b) (foldT xs f)"

text \<open>\<open>defer func() { _ = recover() }()\<close> around a thread: a panic ends it and is not seen outside.\<close>

primrec recoverT :: "('w, unit) thread \<Rightarrow> ('w, unit) thread" where
  "recoverT (Done x) = Done x"
| "recoverT (Act a) = Act (\<lambda>w. case map_prod (map_outcome recoverT) id (a w) of
     (Ret t, w') \<Rightarrow> (Ret t, w')
   | (Panic p, w') \<Rightarrow> (Ret (Done ()), w'))"

lemma thread_induct [case_names Done Act]:
  assumes "\<And>x. P (Done x)" and "\<And>a. (\<And>w t w'. a w = (Ret t, w') \<Longrightarrow> P t) \<Longrightarrow> P (Act a)"
  shows "P t"
proof (induction t)
  case (Act a)
  show ?case
  proof (rule assms(2))
    fix w t w'
    assume "a w = (Ret t, w')"
    with Act [of "a w" "Ret t" t] rangeI [of a w] show "P t" by simp
  qed
qed (rule assms(1))

lemma map_outcome_RetE: "map_outcome f r = Ret y \<Longrightarrow> (\<And>x. r = Ret x \<Longrightarrow> y = f x \<Longrightarrow> Q) \<Longrightarrow> Q"
  by (cases r) auto

subsection \<open>A thread without interference\<close>

primrec alone :: "('w, 'a) thread \<Rightarrow> ('w, 'a) go" where
  "alone (Done x) = ret x"
| "alone (Act a) = (\<lambda>w. case map_prod (map_outcome alone) id (a w) of
     (Ret k, w') \<Rightarrow> k w'
   | (Panic p, w') \<Rightarrow> (Panic p, w'))"

lemma alone_Act: "alone (Act a) w = (case a w of (Ret t, w') \<Rightarrow> alone t w' | (Panic p, w') \<Rightarrow> (Panic p, w'))"
  by (cases "a w"; cases "fst (a w)") simp_all

lemma alone_atom [simp]: "alone (atom m) = m"
proof
  fix w
  show "alone (atom m) w = m w" by (cases "m w"; cases "fst (m w)") (simp_all add: atom_def)
qed

lemma alone_bind [simp]: "alone (bindT t f) = bindG (alone t) (\<lambda>x. alone (f x))"
proof (induction t rule: thread_induct)
  case (Act a)
  show ?case
  proof
    fix w
    obtain r w' where a: "a w = (r, w')" by (cases "a w")
    then show "alone (bindT (Act a) f) w = bindG (alone (Act a)) (\<lambda>x. alone (f x)) w"
      using Act by (cases r) (simp_all add: bindG_def)
  qed
qed simp

lemma alone_then [simp]: "alone (thenT t u) = thenG (alone t) (alone u)"
  by (simp add: thenT_def thenG_def)

lemma alone_fold [simp]: "alone (foldT xs f b) = foldG xs (\<lambda>x b. alone (f x b)) b"
proof (induction xs arbitrary: b)
  case (Cons x xs)
  then have "(\<lambda>b. alone (foldT xs f b)) = foldG xs (\<lambda>x b. alone (f x b))" by (rule ext)
  then show ?case by simp
qed simp

lemma sum_list_int_update: "i < length ds \<Longrightarrow> sum_list (ds[i := d]) = sum_list ds + d - (ds ! i :: int)"
  by (induction ds arbitrary: i) (auto split: nat.split)

subsection \<open>Threads under interference\<close>

text \<open>
  States satisfy \<open>ok\<close>, and every action of every thread moves the state along \<open>ev\<close>. A thread may
  leave an imbalance behind that a later action of it settles: \<open>gap\<close> measures the imbalance of a
  state, and \<open>owes w d t\<close> says that from \<open>w\<close> on, whatever the others do within \<open>ok\<close> and \<open>ev\<close>, the
  thread \<open>t\<close> never panics, keeps \<open>ok\<close> and \<open>ev\<close>, and by its end has taken \<open>d\<close> off the imbalance, its
  debt never exceeding one. \<open>tries\<close> is the judgement for a thread that may panic and keeps the balance.
\<close>

locale thread_pool =
  fixes ok :: "'w \<Rightarrow> bool" and ev :: "'w \<Rightarrow> 'w \<Rightarrow> bool" and gap :: "'w \<Rightarrow> int"
  assumes ev_refl: "ev w w" and ev_trans: "ev u v \<Longrightarrow> ev v w \<Longrightarrow> ev u w"
begin

inductive owes :: "'w \<Rightarrow> int \<Rightarrow> ('w, 'a) thread \<Rightarrow> bool" where
  owes_Done: "owes w0 0 (Done x)"
| owes_Act: "\<bar>d\<bar> \<le> 1 \<Longrightarrow> (\<And>w. ok w \<Longrightarrow> ev w0 w \<Longrightarrow> \<exists>t w' d'. a w = (Ret t, w') \<and> ok w' \<and> ev w w' \<and>
     gap w' - gap w = d' - d \<and> owes w' d' t) \<Longrightarrow> owes w0 d (Act a)"

inductive_cases owes_DoneE: "owes w0 d (Done x)"
inductive_cases owes_ActE: "owes w0 d (Act a)"

inductive tries :: "'w \<Rightarrow> ('w, 'a) thread \<Rightarrow> bool" where
  tries_Done: "tries w0 (Done x)"
| tries_Act: "(\<And>w. ok w \<Longrightarrow> ev w0 w \<Longrightarrow> ok (snd (a w)) \<and> ev w (snd (a w)) \<and> gap (snd (a w)) = gap w \<and>
     (\<forall>t. fst (a w) = Ret t \<longrightarrow> tries (snd (a w)) t)) \<Longrightarrow> tries w0 (Act a)"

lemma owes_bound: "owes w d t \<Longrightarrow> \<bar>d\<bar> \<le> 1"
  by (auto elim: owes.cases)

lemma owes_later:
  assumes "owes w0 d t" and "ev w0 w1"
  shows "owes w1 d t"
  using assms
proof (induction arbitrary: w1 rule: owes.induct)
  case (owes_Act d w0 a)
  show ?case
  proof (rule owes.owes_Act [OF owes_Act.hyps(1)])
    fix w
    assume "ok w" "ev w1 w"
    then show "\<exists>t w' d'. a w = (Ret t, w') \<and> ok w' \<and> ev w w' \<and> gap w' - gap w = d' - d \<and> owes w' d' t"
      using owes_Act.IH [of w] ev_trans [OF owes_Act.prems] by blast
  qed
qed (rule owes_Done)

lemma owes_atom:
  assumes "\<bar>d\<bar> \<le> 1" and "\<And>w. ok w \<Longrightarrow> ev w0 w \<Longrightarrow> \<exists>x w'. m w = (Ret x, w') \<and> ok w' \<and> ev w w' \<and> owes w' (d + gap w' - gap w) (f x)"
  shows "owes w0 d (bindT (atom m) f)"
  unfolding atom_def bindT.simps
proof (rule owes_Act [OF assms(1)])
  fix w
  assume "ok w" "ev w0 w"
  from assms(2) [OF this] obtain x w' where "m w = (Ret x, w')" "ok w'" "ev w w'" "owes w' (d + gap w' - gap w) (f x)" by blast
  then show "\<exists>t w' d'. (map_prod (map_outcome (\<lambda>t. bindT t f)) id \<circ> (map_prod (map_outcome Done) id \<circ> m)) w = (Ret t, w') \<and>
      ok w' \<and> ev w w' \<and> gap w' - gap w = d' - d \<and> owes w' d' t"
    by (intro exI [of _ "f x"] exI [of _ w'] exI [of _ "d + gap w' - gap w"]) simp
qed

lemma owes_bind:
  assumes "owes w0 d t" and "\<And>x w. ev w0 w \<Longrightarrow> owes w 0 (f x)"
  shows "owes w0 d (bindT t f)"
  using assms
proof (induction rule: owes.induct)
  case (owes_Done w0 x)
  then show ?case using ev_refl by simp
next
  case (owes_Act d w0 a)
  show ?case unfolding bindT.simps
  proof (rule owes.owes_Act [OF owes_Act.hyps(1)])
    fix w
    assume w: "ok w" "ev w0 w"
    from owes_Act.IH [OF w] obtain t w' d' where 1: "a w = (Ret t, w')" "ok w'" "ev w w'" "gap w' - gap w = d' - d"
      "(\<And>x v. ev w' v \<Longrightarrow> owes v 0 (f x)) \<Longrightarrow> owes w' d' (bindT t f)" by blast
    have "owes v 0 (f x)" if "ev w' v" for x v
      using owes_Act.prems ev_trans [OF w(2) ev_trans [OF 1(3) that]] by blast
    with 1 show "\<exists>t w' d'. (map_prod (map_outcome (\<lambda>t. bindT t f)) id \<circ> a) w = (Ret t, w') \<and>
        ok w' \<and> ev w w' \<and> gap w' - gap w = d' - d \<and> owes w' d' t" by auto
  qed
qed

lemma owes_then: "owes w0 d t \<Longrightarrow> (\<And>w. ev w0 w \<Longrightarrow> owes w 0 u) \<Longrightarrow> owes w0 d (thenT t u)"
  unfolding thenT_def by (rule owes_bind)

lemma owes_fold:
  assumes "\<And>x b w. x \<in> set xs \<Longrightarrow> ev w0 w \<Longrightarrow> owes w 0 (f x b)"
  shows "owes w0 0 (foldT xs f b)"
  using assms
proof (induction xs arbitrary: w0 b)
  case (Cons x xs)
  show ?case unfolding foldT.simps
  proof (rule owes_bind)
    show "owes w0 0 (f x b)" by (rule Cons.prems) (simp_all add: ev_refl)
    show "owes w 0 (foldT xs f c)" if "ev w0 w" for c w
      by (rule Cons.IH, rule Cons.prems) (auto intro: ev_trans [OF that])
  qed
qed (simp add: owes_Done)

lemma tries_later: "tries w0 t \<Longrightarrow> ev w0 w1 \<Longrightarrow> tries w1 t"
proof (induction arbitrary: w1 rule: tries.induct)
  case (tries_Act w0 a)
  show ?case
    by (rule tries.tries_Act) (use tries_Act.IH ev_trans [OF tries_Act.prems] in blast)
qed (rule tries_Done)

lemma tries_atom:
  assumes "\<And>w. ok w \<Longrightarrow> ev w0 w \<Longrightarrow> ok (snd (m w)) \<and> ev w (snd (m w)) \<and> gap (snd (m w)) = gap w"
  shows "tries w0 (atom m)"
  unfolding atom_def by (rule tries_Act) (use assms in \<open>auto intro: tries_Done elim: map_outcome_RetE\<close>)

lemma tries_bind:
  assumes "tries w0 t" and "\<And>x w. ev w0 w \<Longrightarrow> tries w (f x)"
  shows "tries w0 (bindT t f)"
  using assms
proof (induction rule: tries.induct)
  case (tries_Done w0 x)
  then show ?case using ev_refl by simp
next
  case (tries_Act w0 a)
  show ?case unfolding bindT.simps
  proof (rule tries.tries_Act)
    fix w
    assume w: "ok w" "ev w0 w"
    have "tries v (f x)" if "ev (snd (a w)) v" for v x
      using tries_Act.prems ev_trans [OF w(2) ev_trans [OF _ that]] tries_Act.IH [OF w] by blast
    with tries_Act.IH [OF w] show "ok (snd ((map_prod (map_outcome (\<lambda>t. bindT t f)) id \<circ> a) w)) \<and>
        ev w (snd ((map_prod (map_outcome (\<lambda>t. bindT t f)) id \<circ> a) w)) \<and>
        gap (snd ((map_prod (map_outcome (\<lambda>t. bindT t f)) id \<circ> a) w)) = gap w \<and>
        (\<forall>t. fst ((map_prod (map_outcome (\<lambda>t. bindT t f)) id \<circ> a) w) = Ret t \<longrightarrow>
          tries (snd ((map_prod (map_outcome (\<lambda>t. bindT t f)) id \<circ> a) w)) t)"
      by (cases "a w"; cases "fst (a w)") auto
  qed
qed

lemma tries_then: "tries w0 t \<Longrightarrow> (\<And>w. ev w0 w \<Longrightarrow> tries w u) \<Longrightarrow> tries w0 (thenT t u)"
  unfolding thenT_def by (rule tries_bind)

lemma tries_fold:
  assumes "\<And>x b w. ev w0 w \<Longrightarrow> tries w (f x b)"
  shows "tries w0 (foldT xs f b)"
  using assms
proof (induction xs arbitrary: w0 b)
  case (Cons x xs)
  show ?case unfolding foldT.simps
    by (rule tries_bind) (auto intro: Cons ev_refl ev_trans)
qed (simp add: tries_Done)

lemma tries_recover: "tries w0 t \<Longrightarrow> owes w0 0 (recoverT t)"
proof (induction rule: tries.induct)
  case (tries_Act w0 a)
  show ?case unfolding recoverT.simps
  proof (rule owes_Act)
    fix w
    assume w: "ok w" "ev w0 w"
    note IH = tries_Act.IH [OF w]
    obtain r w' where a: "a w = (r, w')" by (cases "a w")
    show "\<exists>t v d'. (case map_prod (map_outcome recoverT) id (a w) of (Ret t, w') \<Rightarrow> (Ret t, w') | (Panic p, w') \<Rightarrow> (Ret (Done ()), w')) = (Ret t, v) \<and>
        ok v \<and> ev w v \<and> gap v - gap w = d' - 0 \<and> owes v d' t"
      using IH a owes_Done [of w' "()"] by (cases r) auto
  qed simp
qed (simp add: owes_Done)

subsection \<open>A pool of threads\<close>

definition pool_ok :: "'w \<Rightarrow> ('w, 'a) thread list \<Rightarrow> bool" where
  "pool_ok w ts \<longleftrightarrow> ok w \<and> (\<exists>ds. list_all2 (owes w) ds ts \<and> gap w = sum_list ds)"

lemma pool_okE:
  assumes "pool_ok w ts"
  obtains ds where "ok w" "list_all2 (owes w) ds ts" "gap w = sum_list ds"
  using assms unfolding pool_ok_def by blast

lemma pool_later: "list_all2 (owes w) ds ts \<Longrightarrow> ev w w' \<Longrightarrow> list_all2 (owes w') ds ts"
  by (erule list_all2_mono) (rule owes_later)

lemma pool_env: "pool_ok w ts \<Longrightarrow> ok w' \<Longrightarrow> ev w w' \<Longrightarrow> gap w' = gap w \<Longrightarrow> pool_ok w' ts"
  unfolding pool_ok_def using pool_later by fastforce

lemma pool_spawn:
  assumes "pool_ok w ts" and "ok w'" and "ev w w'" and "owes w' (gap w' - gap w) t"
  shows "pool_ok w' (ts @ [t])"
proof -
  from assms(1) obtain ds where ds: "list_all2 (owes w) ds ts" "gap w = sum_list ds" by (rule pool_okE)
  have "list_all2 (owes w') (ds @ [gap w' - gap w]) (ts @ [t])"
    by (intro list_all2_appendI pool_later [OF ds(1) assms(3)]) (simp add: assms(4))
  moreover have "gap w' = sum_list (ds @ [gap w' - gap w])" using ds(2) by simp
  ultimately show ?thesis using assms(2) unfolding pool_ok_def by blast
qed

lemma pool_act:
  assumes "pool_ok w ts" and "i < length ts" and "ts ! i = Act a"
  shows "\<exists>t w'. a w = (Ret t, w') \<and> pool_ok w' (ts[i := t])"
proof -
  from assms(1) obtain ds where ds: "ok w" "list_all2 (owes w) ds ts" "gap w = sum_list ds" by (rule pool_okE)
  then have i: "i < length ds" "owes w (ds ! i) (Act a)" using assms(2,3) by (auto simp: list_all2_conv_all_nth)
  obtain t w' d where 1: "a w = (Ret t, w')" "ok w'" "ev w w'" "gap w' - gap w = d - ds ! i" "owes w' d t"
    using owes_ActE [OF i(2)] ds(1) ev_refl by metis
  have "list_all2 (owes w') (ds[i := d]) (ts[i := t])"
    using pool_later [OF ds(2) 1(3)] 1(5) by (rule list_all2_update_cong)
  moreover have "gap w' = sum_list (ds[i := d])" using 1(4) ds(3) i(1) by (simp add: sum_list_int_update)
  ultimately show ?thesis using 1(1,2) unfolding pool_ok_def by blast
qed

lemma pool_drop:
  assumes "pool_ok w ts" and "i < length ts" and "ts ! i = Done x"
  shows "pool_ok w (take i ts @ drop (Suc i) ts)"
proof -
  from assms(1) obtain ds where ds: "ok w" "list_all2 (owes w) ds ts" "gap w = sum_list ds" by (rule pool_okE)
  then have i: "i < length ds" "owes w (ds ! i) (Done x)" using assms(2,3) by (auto simp: list_all2_conv_all_nth)
  have "ds ! i = 0" using i(2) by (rule owes_DoneE)
  then have "sum_list ds = sum_list (take i ds @ drop (Suc i) ds)" using i(1) by (subst id_take_nth_drop [of i ds]) simp_all
  moreover have "list_all2 (owes w) (take i ds @ drop (Suc i) ds) (take i ts @ drop (Suc i) ts)"
    using ds(2) by (intro list_all2_appendI) (auto intro: list_all2_takeI list_all2_dropI)
  ultimately show ?thesis using ds unfolding pool_ok_def by metis
qed

lemma pool_gap: "pool_ok w ts \<Longrightarrow> \<bar>gap w\<bar> \<le> int (length ts)"
proof -
  assume "pool_ok w ts"
  then obtain ds where ds: "list_all2 (owes w) ds ts" "gap w = sum_list ds" by (rule pool_okE)
  from ds(1) have "\<bar>sum_list ds\<bar> \<le> int (length ts)"
    by (induction rule: list_all2_induct) (auto dest: owes_bound)
  with ds(2) show ?thesis by simp
qed

end

end
