(* ===== verification/Hub_Threads.thy ===== *)
theory Hub_Threads
  imports Subscribers Go_Threads
begin

section \<open>The hub under concurrent goroutines (internal/chat/hub.go)\<close>

text \<open>
  The operations of the hub again, cut where other goroutines can run: an operation on the client
  map, a critical section of a mutex, an operation on a channel, a counter and a read of a client's
  name is one action each. (\<open>Send\<close> with the count of a drop, and \<open>Close\<close> with its two channels under
  \<open>sync.Once\<close>, are one action: no other code sees the point between.) Run alone, each thread is the
  operation of \<open>Chat_Hub\<close>. \<open>conc_step\<close> interleaves any number of them.
\<close>

subsection \<open>The operations as threads\<close>

definition clients_LoadAndDelete :: "cref \<Rightarrow> (('h, 'z) world_scheme, bool) go" where
  "clients_LoadAndDelete r = withClient r (\<lambda>c.
     bindG (getG (\<lambda>w. Load (hub_clients (w_hub w)) (cl_ID c))) (\<lambda>loaded.
       case loaded of
         Some _ \<Rightarrow> thenG (modifyHub (\<lambda>h. h\<lparr>hub_clients := Delete (cl_ID c) (hub_clients h)\<rparr>)) (ret True)
       | None \<Rightarrow> ret False))"

definition clients_Store :: "cref \<Rightarrow> (('h, 'z) world_scheme, unit) go" where
  "clients_Store r = withClient r (\<lambda>c. modifyHub (\<lambda>h. h\<lparr>hub_clients := Store (cl_ID c) r (hub_clients h)\<rparr>))"

definition read_Name :: "cref \<Rightarrow> (('h, 'z) world_scheme, string) go" where
  "read_Name r = withClient r (\<lambda>c. ret (cl_Name c))"

definition joined_thread :: "Time \<Rightarrow> cref \<Rightarrow> (('h, 'z) world_scheme, unit) thread" where
  "joined_thread now r = thenT (atom (Hub_Emit (UserEvent now r ''joined''))) (atom (AddOnline 1))"

definition RegisterClient_thread :: "Time \<Rightarrow> cref \<Rightarrow> (('h, 'z) world_scheme, unit) thread" where
  "RegisterClient_thread now r = thenT (atom (clients_Store r)) (joined_thread now r)"

definition UnregisterClient_thread :: "Time \<Rightarrow> cref \<Rightarrow> (('h, 'z) world_scheme, unit) thread" where
  "UnregisterClient_thread now r = bindT (atom (clients_LoadAndDelete r)) (\<lambda>loaded.
     if loaded then thenT (atom (Client_Close r))
       (thenT (atom (Hub_Emit (UserEvent now r ''leave''))) (atom (AddOnline (-1))))
     else atom (Client_Close r))"

definition Range_thread ::
  "(cref \<Rightarrow> 'b \<Rightarrow> (('h, 'z) world_scheme, 'b) thread) \<Rightarrow> 'b \<Rightarrow> (('h, 'z) world_scheme, 'b) thread" where
  "Range_thread f b = bindT (atom (getG range_order)) (\<lambda>ks. foldT ks (\<lambda>k b.
     bindT (atom (getG (\<lambda>w. Load (hub_clients (w_hub w)) k))) (\<lambda>v.
       case v of None \<Rightarrow> Done b | Some r \<Rightarrow> f r b)) b)"

definition KickByName_thread :: "Time \<Rightarrow> string \<Rightarrow> (('h, 'z) world_scheme, bool) thread" where
  "KickByName_thread now name = Range_thread (\<lambda>r found. bindT (atom (read_Name r)) (\<lambda>n.
     if n = name then thenT (UnregisterClient_thread now r) (Done True) else Done found)) False"

definition ListNames_thread :: "(('h, 'z) world_scheme, string list) thread" where
  "ListNames_thread = Range_thread (\<lambda>r out. bindT (atom (read_Name r)) (\<lambda>n. Done (out @ [n]))) []"

definition SendToAll_thread :: "string \<Rightarrow> (('h, 'z) world_scheme, unit) thread" where
  "SendToAll_thread msg = Range_thread (\<lambda>r _. atom (Client_Send r msg)) ()"

definition SendToUser_thread :: "string \<Rightarrow> string \<Rightarrow> (('h, 'z) world_scheme, bool) thread" where
  "SendToUser_thread userName msg = Range_thread (\<lambda>r found. bindT (atom (read_Name r)) (\<lambda>n.
     if n = userName then thenT (atom (Client_Send r msg)) (Done True) else Done found)) False"

definition IsBanned_thread :: "Time \<Rightarrow> string \<Rightarrow> (('h, 'z) world_scheme, bool) thread" where
  "IsBanned_thread now name = bindT (atom (IsBanned_read now name)) (\<lambda>a.
     case a of Answer b \<Rightarrow> Done b | Expired \<Rightarrow> atom (IsBanned_clean name))"

text \<open>Run alone, a thread is the operation.\<close>

lemma alone_Range: "alone (Range_thread f b) = Hub_Range (\<lambda>r b. alone (f r b)) b"
  by (simp add: Range_thread_def Hub_Range_def Hub_RangeOver_def option.case_distrib [of alone] cong: option.case_cong)

lemma read_Name_bind: "bindG (read_Name r) k = withClient r (\<lambda>c. k (cl_Name c))"
  by (auto simp: fun_eq_iff read_Name_def withClient_def bindG_def split: option.split)

lemma alone_Register [simp]: "alone (RegisterClient_thread now r) = Hub_RegisterClient now r"
  by (auto simp: RegisterClient_thread_def joined_thread_def Hub_RegisterClient_def clients_Store_def withClient_def thenG_def bindG_def
      modifyHub_def fun_eq_iff split: option.split)

lemma alone_Unregister [simp]: "alone (UnregisterClient_thread now r) = Hub_UnregisterClient now r"
proof
  fix w :: "('h, 'z) world_scheme"
  show "alone (UnregisterClient_thread now r) w = Hub_UnregisterClient now r w"
  proof (cases "w_heap w r")
    case (Some c)
    then show ?thesis
      by (cases "Load (hub_clients (w_hub w)) (cl_ID c)")
        (simp_all add: UnregisterClient_thread_def Hub_UnregisterClient_def clients_LoadAndDelete_def thenG_def modifyHub_def bindG_app [of "withClient r f" for f])
  qed (simp add: UnregisterClient_thread_def Hub_UnregisterClient_def clients_LoadAndDelete_def)
qed

lemma alone_if: "alone (if b then t else u) = (if b then alone t else alone u)"
  by simp

lemma alone_Kick: "alone (KickByName_thread now name) = Hub_KickByName now name"
  by (simp add: KickByName_thread_def Hub_KickByName_def kick_body_def [abs_def] alone_Range read_Name_bind alone_if cong: if_cong)

lemma alone_ListNames: "alone ListNames_thread = Hub_ListNames"
  by (simp add: ListNames_thread_def Hub_ListNames_def list_body_def [abs_def] alone_Range read_Name_bind)

lemma alone_SendToAll: "alone (SendToAll_thread msg) = Hub_SendToAll msg"
  by (simp add: SendToAll_thread_def Hub_SendToAll_def send_all_body_def [abs_def] alone_Range)

lemma alone_SendToUser: "alone (SendToUser_thread u msg) = Hub_SendToUser u msg"
  by (simp add: SendToUser_thread_def Hub_SendToUser_def send_user_body_def [abs_def] alone_Range read_Name_bind alone_if cong: if_cong)

lemma alone_IsBanned: "alone (IsBanned_thread now name) = Hub_IsBanned now name"
  by (simp add: IsBanned_thread_def Hub_IsBanned_def ban_answer.case_distrib [of alone] cong: ban_answer.case_cong)

subsection \<open>The handlers as threads\<close>

definition sub_thread :: "(Time \<Rightarrow> int) \<Rightarrow> sub_handler \<Rightarrow> Event \<Rightarrow> (('h, 'z) world_scheme, unit) thread" where
  "sub_thread tz hdl e = (case hdl of
     OnMessageLocal \<Rightarrow> (case e of
         MessageEvent when from content _ \<Rightarrow>
           thenT (SendToAll_thread (local_line tz when from content)) (atom (IncMessage ''local''))
       | _ \<Rightarrow> atom (panicG TypeAssertion))
   | OnMessageRemote \<Rightarrow> atom (IncMessage ''remote'')
   | OnUserJoined \<Rightarrow> (case e of
         UserEvent _ user _ \<Rightarrow> bindT (atom (read_Name user)) (\<lambda>n. SendToAll_thread (txt_system @ n @ txt_joined))
       | _ \<Rightarrow> atom (panicG TypeAssertion))
   | OnUserLeave \<Rightarrow> (case e of
         UserEvent _ user _ \<Rightarrow> bindT (atom (read_Name user)) (\<lambda>n. SendToAll_thread (txt_system @ n @ txt_left))
       | _ \<Rightarrow> atom (panicG TypeAssertion))
   | OnSystemNotice \<Rightarrow> (case e of
         SystemNoticeEvent _ level content \<Rightarrow> SendToAll_thread (txt_notice @ level @ ''] '' @ content)
       | _ \<Rightarrow> atom (panicG TypeAssertion))
   | OnFileTransfer \<Rightarrow> (case e of
         FileTransferEvent _ from target name _ _ _ \<Rightarrow> SendToAll_thread (file_line from target name)
       | _ \<Rightarrow> atom (panicG TypeAssertion))
   | OnHeartbeat \<Rightarrow> atom IncHeartbeat
   | OnMessageDirect \<Rightarrow> (case e of
         DirectMessageEvent _ from dest content \<Rightarrow>
           bindT (SendToUser_thread dest (txt_direct @ from @ '': '' @ content)) (\<lambda>sent.
             thenT (if \<not> sent then bindT (SendToUser_thread from (txt_offline @ dest)) (\<lambda>_. Done ()) else Done ())
               (atom IncDirect))
       | _ \<Rightarrow> atom (panicG TypeAssertion)))"

lemma alone_sub: "alone (sub_thread tz hdl e) = sub_run tz hdl e"
  by (cases hdl; cases e)
    (simp_all add: sub_thread_def sub_run_def alone_SendToAll alone_SendToUser read_Name_bind alone_if cong: if_cong)

subsection \<open>The interleaved service\<close>

text \<open>
  The state of the service: the world, the running goroutines and the panic that ended the program,
  if one did. A goroutine that \<open>Emit\<close> starts recovers from panics; a panic in any other goroutine
  ends the program. Calls come from goroutines of their own; a client registers as soon as it
  has been created, under an id of its own.
\<close>

record conc =
  c_world :: "sub_handler world"
  c_threads :: "(sub_handler world, unit) thread list"
  c_crashed :: "panic option"

definition ignore :: "('w, 'a) thread \<Rightarrow> ('w, unit) thread" where
  "ignore t = bindT t (\<lambda>_. Done ())"

datatype hub_call =
    CallKickByName Time string
  | CallListNames
  | CallEmit Event
  | CallBroadcastLocal Time string string
  | CallBroadcastRemote string string Time
  | CallBanFor Time string Duration
  | CallIsBanned Time string
  | CallSubscribe EventType sub_handler
  | CallCancel EventType uint64

fun call_thread :: "hub_call \<Rightarrow> (sub_handler world, unit) thread" where
  "call_thread (CallKickByName now name) = ignore (KickByName_thread now name)"
| "call_thread CallListNames = ignore ListNames_thread"
| "call_thread (CallEmit e) = atom (Hub_Emit e)"
| "call_thread (CallBroadcastLocal now from content) = atom (Hub_BroadcastLocal now from content)"
| "call_thread (CallBroadcastRemote from content t) = atom (Hub_BroadcastRemote from content t)"
| "call_thread (CallBanFor now name d) = atom (Hub_BanFor now name d)"
| "call_thread (CallIsBanned now name) = ignore (IsBanned_thread now name)"
| "call_thread (CallSubscribe t f) = atom (Hub_Subscribe t f)"
| "call_thread (CallCancel t hid) = atom (Hub_cancel t hid)"

definition goroutine_thread :: "(Time \<Rightarrow> int) \<Rightarrow> sub_handler \<times> Event \<Rightarrow> (sub_handler world, unit) thread" where
  "goroutine_thread tz g = recoverT (sub_thread tz (fst g) (snd g))"

definition conc_start :: "conc \<Rightarrow> bool" where
  "conc_start s \<longleftrightarrow> s = \<lparr>c_world = empty_world, c_threads = [], c_crashed = None\<rparr>"

definition spawn :: "(sub_handler world, unit) thread \<Rightarrow> conc \<Rightarrow> conc" where
  "spawn t s = s\<lparr>c_threads := c_threads s @ [t]\<rparr>"

inductive conc_step :: "(Time \<Rightarrow> int) \<Rightarrow> conc \<Rightarrow> conc \<Rightarrow> bool" for tz where
  connect: "c_crashed s = None \<Longrightarrow> w_heap (c_world s) r = None \<Longrightarrow>
     (\<And>q c. w_heap (c_world s) q = Some c \<Longrightarrow> cl_ID c \<noteq> cid) \<Longrightarrow>
     conc_step tz s (spawn (joined_thread now r) (s\<lparr>c_world := snd (clients_Store r
       ((c_world s)\<lparr>w_heap := (w_heap (c_world s))(r \<mapsto> (NewClientWithBuffer cid n)\<lparr>cl_Name := nm\<rparr>)\<rparr>))\<rparr>))"
| disconnect: "c_crashed s = None \<Longrightarrow> w_heap (c_world s) r \<noteq> None \<Longrightarrow>
     conc_step tz s (spawn (UnregisterClient_thread now r) s)"
| call: "c_crashed s = None \<Longrightarrow> conc_step tz s (spawn (call_thread k) s)"
| goroutine: "c_crashed s = None \<Longrightarrow> i < length (w_go (c_world s)) \<Longrightarrow>
     conc_step tz s (spawn (goroutine_thread tz (w_go (c_world s) ! i))
       (s\<lparr>c_world := (c_world s)\<lparr>w_go := take i (w_go (c_world s)) @ drop (Suc i) (w_go (c_world s))\<rparr>\<rparr>))"
| act: "c_crashed s = None \<Longrightarrow> i < length (c_threads s) \<Longrightarrow> c_threads s ! i = Act a \<Longrightarrow> a (c_world s) = (Ret t, w) \<Longrightarrow>
     conc_step tz s (s\<lparr>c_world := w, c_threads := (c_threads s)[i := t]\<rparr>)"
| crash: "c_crashed s = None \<Longrightarrow> i < length (c_threads s) \<Longrightarrow> c_threads s ! i = Act a \<Longrightarrow> a (c_world s) = (Panic p, w) \<Longrightarrow>
     conc_step tz s (s\<lparr>c_world := w, c_crashed := Some p\<rparr>)"
| finish: "c_crashed s = None \<Longrightarrow> i < length (c_threads s) \<Longrightarrow> c_threads s ! i = Done x \<Longrightarrow>
     conc_step tz s (s\<lparr>c_threads := take i (c_threads s) @ drop (Suc i) (c_threads s)\<rparr>)"
| rename: "c_crashed s = None \<Longrightarrow> w_heap (c_world s) r = Some c \<Longrightarrow>
     conc_step tz s (s\<lparr>c_world := (c_world s)\<lparr>w_heap := (w_heap (c_world s))(r \<mapsto> c\<lparr>cl_Name := nm\<rparr>)\<rparr>\<rparr>)"
| receive: "c_crashed s = None \<Longrightarrow> conc_step tz s (s\<lparr>c_world := snd (Client_Receive r (c_world s))\<rparr>)"

inductive_cases conc_step_elim: "conc_step tz s s'"

interpretation conc: event_system conc_start "conc_step tz" for tz .

definition conc_reachable :: "(Time \<Rightarrow> int) \<Rightarrow> conc \<Rightarrow> bool" where
  "conc_reachable tz = event_system.reachable conc_start (conc_step tz)"

end
