(* ===== verification/Hub_Interleaving.thy ===== *)
theory Hub_Interleaving
  imports Hub_Threads
begin

section \<open>What survives every interleaving of the hub's goroutines\<close>

text \<open>
  The hub's invariant holds between any two actions of any goroutines, no panic ends the program,
  and the online gauge is off by at most the number of goroutines that have not finished. The
  second part is the race between a broadcast and a disconnect.
\<close>

subsection \<open>The rely-guarantee condition\<close>

text \<open>Clients stay allocated, keep their id, and are never registered again once they are not.\<close>

definition evolves :: "('h, 'z) world_scheme \<Rightarrow> ('h, 'z) world_scheme \<Rightarrow> bool" where
  "evolves w w' \<longleftrightarrow> (\<forall>r c. w_heap w r = Some c \<longrightarrow> (\<exists>c'. w_heap w' r = Some c' \<and> cl_ID c' = cl_ID c) \<and>
     (Load (hub_clients (w_hub w)) (cl_ID c) \<noteq> Some r \<longrightarrow> Load (hub_clients (w_hub w')) (cl_ID c) \<noteq> Some r))"

definition gauge_gap :: "('h, 'z) world_scheme \<Rightarrow> int" where
  "gauge_gap w = int (length (hub_clients (w_hub w))) - online (w_metrics w)"

definition retired :: "cref \<Rightarrow> ('h, 'z) world_scheme \<Rightarrow> bool" where
  "retired r w \<longleftrightarrow> (\<exists>c. w_heap w r = Some c \<and> Load (hub_clients (w_hub w)) (cl_ID c) \<noteq> Some r)"

lemma evolves_refl [simp]: "evolves w w"
  by (simp add: evolves_def)

lemma evolves_trans: "evolves u v \<Longrightarrow> evolves v w \<Longrightarrow> evolves u w"
  unfolding evolves_def by metis

interpretation hub: thread_pool hub_ok evolves gauge_gap
  by unfold_locales (simp, rule evolves_trans)

lemma evolvesD: "evolves w w' \<Longrightarrow> w_heap w r \<noteq> None \<Longrightarrow> w_heap w' r \<noteq> None"
  by (fastforce simp: evolves_def)

lemma retired_later: "evolves w w' \<Longrightarrow> retired r w \<Longrightarrow> retired r w'"
  by (fastforce simp: evolves_def retired_def)

lemma evolvesI:
  assumes "\<And>r c. w_heap w r = Some c \<Longrightarrow> \<exists>c'. w_heap w' r = Some c' \<and> cl_ID c' = cl_ID c"
    and "hub_clients (w_hub w') = hub_clients (w_hub w)"
  shows "evolves w w'"
  using assms by (simp add: evolves_def)

subsection \<open>The actions\<close>

definition harmless :: "('h, 'z) world_scheme \<Rightarrow> ('h, 'z) world_scheme \<Rightarrow> bool" where
  "harmless w w' \<longleftrightarrow> hub_ok w' \<and> evolves w w' \<and> gauge_gap w' = gauge_gap w"

lemma harmless_refl: "hub_ok w \<Longrightarrow> harmless w w"
  by (simp add: harmless_def)

lemma harmless_same_clients:
  assumes "hub_ok w'" and "hub_clients (w_hub w') = hub_clients (w_hub w)" and "online (w_metrics w') = online (w_metrics w)"
    and "\<And>r c. w_heap w r = Some c \<Longrightarrow> \<exists>c'. w_heap w' r = Some c' \<and> cl_ID c' = cl_ID c"
  shows "harmless w w'"
  unfolding harmless_def using assms evolvesI [OF assms(4,2)] by (simp add: gauge_gap_def)

lemma harmless_Emit: "hub_ok w \<Longrightarrow> harmless w (snd (Hub_Emit e w))"
  by (rule harmless_same_clients) (simp_all add: Emit_eq hub_ok_def)

lemma harmless_Send:
  assumes "hub_ok w"
  shows "harmless w (snd (Client_Send r m w))"
proof (rule harmless_same_clients)
  show "\<exists>c'. w_heap (snd (Client_Send r m w)) q = Some c' \<and> cl_ID c' = cl_ID c" if "w_heap w q = Some c" for q c
    using that by (cases "w_heap w r"; cases "is_open (the (w_heap w r))") (auto simp: Send_nil Send_closed Send_open)
qed (simp_all add: send_keeps_hub send_keeps_online hub_ok_Send [OF assms])

lemma harmless_modifyHub:
  assumes "hub_ok w" and "\<And>h. hub_clients (f h) = hub_clients h"
  shows "harmless w (snd (modifyHub f w))"
  by (rule harmless_same_clients) (use assms in \<open>simp_all add: modifyHub_def hub_ok_def\<close>)

lemma harmless_observe: "hub_ok w \<Longrightarrow> online_delta mt = 0 \<Longrightarrow> harmless w (snd (observe_call mt w))"
  by (rule harmless_same_clients) (simp_all add: observe_call_def hub_ok_def)

lemma harmless_read: "hub_ok w \<Longrightarrow> harmless w (snd (read_Name r w))"
  by (cases "w_heap w r") (simp_all add: read_Name_def harmless_refl)

lemma harmless_Close:
  assumes "hub_ok w" and "retired r w"
  shows "\<exists>w'. Client_Close r w = (Ret (), w') \<and> harmless w w'"
proof -
  from assms(2) obtain c where c: "w_heap w r = Some c" "Load (hub_clients (w_hub w)) (cl_ID c) \<noteq> Some r" by (auto simp: retired_def)
  have ok: "client_ok c" using assms(1) c(1) hub_okD(2) heap_okD by blast
  let ?w = "w\<lparr>w_heap := (w_heap w)(r \<mapsto> close_client c)\<rparr>"
  have "hub_ok ?w"
  proof (rule hub_okI)
    show "heap_ok (w_heap ?w)" using hub_okD(2) [OF assms(1)] ok by (auto intro: inv_rules)
    show "\<exists>c. w_heap ?w q = Some c \<and> cl_ID c = k \<and> is_open c" if "Load (hub_clients (w_hub ?w)) k = Some q" for k q
      using hub_okD(3) [OF assms(1), of k q] that c by auto
  qed (use hub_okD(1) [OF assms(1)] in simp)
  then have "harmless w ?w" by (rule harmless_same_clients) (use c in auto)
  then show ?thesis using Close_heap [OF c(1) ok] by auto
qed

subsection \<open>The threads\<close>

lemma owes_atom_harmless:
  assumes "\<And>w. hub_ok w \<Longrightarrow> evolves w0 w \<Longrightarrow> \<exists>x w'. m w = (Ret x, w') \<and> harmless w w' \<and> hub.owes w' d (f x)" and "\<bar>d\<bar> \<le> 1"
  shows "hub.owes w0 d (bindT (atom m) f)"
  using assms(1) by (intro hub.owes_atom [OF assms(2)]) (fastforce simp: harmless_def)

lemma owes_last:
  assumes "\<bar>d\<bar> \<le> 1" and "\<And>w. hub_ok w \<Longrightarrow> evolves w0 w \<Longrightarrow> \<exists>x w'. m w = (Ret x, w') \<and> hub_ok w' \<and> evolves w w' \<and> gauge_gap w' = gauge_gap w - d"
  shows "hub.owes w0 d (atom m)"
proof -
  have "hub.owes w0 d (bindT (atom m) Done)"
  proof (rule hub.owes_atom [OF assms(1)])
    fix w
    assume "hub_ok w" "evolves w0 w"
    from assms(2) [OF this] obtain x w' where "m w = (Ret x, w')" "hub_ok w'" "evolves w w'" "gauge_gap w' = gauge_gap w - d" by blast
    then show "\<exists>x w'. m w = (Ret x, w') \<and> hub_ok w' \<and> evolves w w' \<and> hub.owes w' (d + gauge_gap w' - gauge_gap w) (Done x)"
      using hub.owes_Done [of w' x] by auto
  qed
  also have "bindT (atom m) Done = atom m" by (simp add: atom_def fun_eq_iff map_prod_def outcome.map_comp comp_def split: prod.split)
  finally show ?thesis .
qed

lemma owes_AddOnline:
  assumes "\<bar>d\<bar> \<le> 1"
  shows "hub.owes w0 d (atom (AddOnline d))"
  using assms by (rule owes_last) (auto simp: AddOnline_def observe_call_def hub_ok_def gauge_gap_def intro!: evolvesI)

lemma owes_Emit_then:
  assumes "\<bar>d\<bar> \<le> 1"
  shows "hub.owes w0 d (thenT (atom (Hub_Emit e)) (atom (AddOnline d)))"
  unfolding thenT_def
proof (rule owes_atom_harmless [OF _ assms])
  fix w
  assume "hub_ok w"
  then show "\<exists>x w'. Hub_Emit e w = (Ret x, w') \<and> harmless w w' \<and> hub.owes w' d (atom (AddOnline d))"
    using harmless_Emit [of w e] owes_AddOnline [OF assms] by (simp add: Emit_eq)
qed

lemma LoadAndDelete_loaded:
  assumes "w_heap w r = Some c" and "Load (hub_clients (w_hub w)) (cl_ID c) = Some q"
  shows "clients_LoadAndDelete r w = (Ret True, w\<lparr>w_hub := (w_hub w)\<lparr>hub_clients := Delete (cl_ID c) (hub_clients (w_hub w))\<rparr>\<rparr>)"
  using assms by (simp add: clients_LoadAndDelete_def modifyHub_def)

lemma LoadAndDelete_ok:
  assumes "hub_ok w" and "w_heap w r = Some c"
  shows "\<exists>b w'. clients_LoadAndDelete r w = (Ret b, w') \<and> hub_ok w' \<and> evolves w w' \<and> retired r w' \<and>
    gauge_gap w' = gauge_gap w - of_bool b"
proof (cases "Load (hub_clients (w_hub w)) (cl_ID c)")
  case None
  with assms show ?thesis by (auto simp: clients_LoadAndDelete_def retired_def)
next
  case (Some q)
  let ?m = "hub_clients (w_hub w)"
  let ?w = "w\<lparr>w_hub := (w_hub w)\<lparr>hub_clients := Delete (cl_ID c) ?m\<rparr>\<rparr>"
  note m = hub_okD(1) [OF assms(1)]
  have "?m \<noteq> []" using Some by (auto simp: Load_def)
  then have len: "int (length (Delete (cl_ID c) ?m)) = int (length ?m) - 1"
    using syncmap.size_delete [OF m, of "cl_ID c"] Some by (cases ?m) auto
  have "hub_ok ?w" using assms(1) m by (auto simp: hub_ok_def syncmap.ok_delete syncmap.load_delete split: if_splits)
  moreover have "evolves w ?w" by (auto simp: evolves_def syncmap.load_delete [OF m])
  moreover have "retired r ?w" using assms(2) by (auto simp: retired_def syncmap.load_delete [OF m])
  moreover note LoadAndDelete_loaded [OF assms(2) Some]
  ultimately show ?thesis using len by (auto simp: gauge_gap_def)
qed

lemma owes_Unregister:
  assumes "w_heap w0 r \<noteq> None"
  shows "hub.owes w0 0 (UnregisterClient_thread now r)"
  unfolding UnregisterClient_thread_def
proof (rule hub.owes_atom)
  fix w
  assume w: "hub_ok w" "evolves w0 w"
  from evolvesD [OF w(2) assms] obtain c where "w_heap w r = Some c" by blast
  from LoadAndDelete_ok [OF w(1) this] obtain b w' where 1: "clients_LoadAndDelete r w = (Ret b, w')" "hub_ok w'" "evolves w w'" "retired r w'"
    "gauge_gap w' = gauge_gap w - of_bool b" by blast
  let ?rest = "thenT (atom (Hub_Emit (UserEvent now r ''leave''))) (atom (AddOnline (-1)))"
  have close: "\<exists>x v'. Client_Close r v = (Ret x, v') \<and> harmless v v'" if "hub_ok v" "evolves w' v" for v
    using harmless_Close [OF that(1) retired_later [OF that(2) 1(4)]] by blast
  have "hub.owes w' (-1) (thenT (atom (Client_Close r)) ?rest)"
    unfolding thenT_def [of "atom (Client_Close r)"]
  proof (rule owes_atom_harmless)
    fix v
    assume "hub_ok v" "evolves w' v"
    from close [OF this] owes_Emit_then [of "-1"] show "\<exists>x v'. Client_Close r v = (Ret x, v') \<and> harmless v v' \<and> hub.owes v' (-1) ?rest" by fastforce
  qed simp
  moreover have "hub.owes w' 0 (atom (Client_Close r))"
    by (rule owes_last) (use close in \<open>fastforce simp: harmless_def\<close>)+
  ultimately show "\<exists>x w'. clients_LoadAndDelete r w = (Ret x, w') \<and> hub_ok w' \<and> evolves w w' \<and>
      hub.owes w' (0 + gauge_gap w' - gauge_gap w) (if x then thenT (atom (Client_Close r)) ?rest else atom (Client_Close r))"
    using 1 by (intro exI [of _ b] exI [of _ w']) (cases b, simp_all)
qed simp

text \<open>A loop over the clients: each body starts in a state in which its client is allocated.\<close>

lemma owes_Range:
  fixes f :: "cref \<Rightarrow> 'b \<Rightarrow> (('h, 'z) world_scheme, 'b) thread"
  assumes "\<And>r b w. w_heap w r \<noteq> None \<Longrightarrow> hub.owes w 0 (f r b)"
  shows "hub.owes w0 0 (Range_thread f b)"
  unfolding Range_thread_def
proof (rule owes_atom_harmless)
  have body: "hub.owes w1 0 (bindT (atom (getG (\<lambda>w. Load (hub_clients (w_hub w)) k))) (\<lambda>v. case v of None \<Rightarrow> Done b | Some r \<Rightarrow> f r b))" for w1 k b
  proof (rule owes_atom_harmless)
    fix w :: "('h, 'z) world_scheme"
    assume w: "hub_ok w"
    show "\<exists>x w'. getG (\<lambda>w. Load (hub_clients (w_hub w)) k) w = (Ret x, w') \<and> harmless w w' \<and> hub.owes w' 0 (case x of None \<Rightarrow> Done b | Some r \<Rightarrow> f r b)"
      using hub_okD(3) [OF w, of k] assms [of w] harmless_refl [OF w] by (cases "Load (hub_clients (w_hub w)) k") (auto intro: hub.owes_Done)
  qed simp
  fix w :: "('h, 'z) world_scheme"
  assume "hub_ok w"
  then show "\<exists>x w'. getG range_order w = (Ret x, w') \<and> harmless w w' \<and> hub.owes w' 0 (foldT x (\<lambda>k b. bindT (atom (getG (\<lambda>w. Load (hub_clients (w_hub w)) k)))
      (\<lambda>v. case v of None \<Rightarrow> Done b | Some r \<Rightarrow> f r b)) b)"
    using hub.owes_fold [OF body] by (simp add: harmless_refl)
qed simp

lemma owes_read:
  assumes "w_heap w0 r \<noteq> None" and "\<And>n w. evolves w0 w \<Longrightarrow> hub.owes w 0 (f n)"
  shows "hub.owes w0 0 (bindT (atom (read_Name r)) f)"
proof (rule owes_atom_harmless)
  fix w
  assume w: "hub_ok w" "evolves w0 w"
  from evolvesD [OF w(2) assms(1)] obtain c where "w_heap w r = Some c" by blast
  then show "\<exists>x w'. read_Name r w = (Ret x, w') \<and> harmless w w' \<and> hub.owes w' 0 (f x)"
    using assms(2) [OF w(2)] harmless_refl [OF w(1)] by (simp add: read_Name_def)
qed simp

lemma owes_Kick: "hub.owes w0 0 (KickByName_thread now name)"
  unfolding KickByName_thread_def
proof (rule owes_Range, rule owes_read, assumption)
  fix r b n and w w' :: "('a, 'b) world_scheme"
  assume "w_heap w r \<noteq> None" "evolves w w'"
  then have "w_heap w' r \<noteq> None" by (rule evolvesD [rotated])
  then show "hub.owes w' 0 (if n = name then thenT (UnregisterClient_thread now r) (Done True) else Done b)"
    by (auto intro: hub.owes_then owes_Unregister hub.owes_Done)
qed

lemma owes_ListNames: "hub.owes w0 0 ListNames_thread"
  unfolding ListNames_thread_def by (rule owes_Range, rule owes_read, assumption) (rule hub.owes_Done)

lemma owes_harmless:
  fixes m :: "(('h, 'z) world_scheme, 'a) go"
  assumes "\<And>w. hub_ok w \<Longrightarrow> \<exists>x. fst (m w) = Ret x" and "\<And>w. hub_ok w \<Longrightarrow> harmless w (snd (m w))"
  shows "hub.owes w0 0 (atom m)"
proof (rule owes_last)
  fix w :: "('h, 'z) world_scheme"
  assume "hub_ok w"
  from assms [OF this] show "\<exists>x w'. m w = (Ret x, w') \<and> hub_ok w' \<and> evolves w w' \<and> gauge_gap w' = gauge_gap w - 0"
    by (cases "m w") (auto simp: harmless_def)
qed simp

lemma owes_Emit: "hub.owes w0 0 (atom (Hub_Emit e))"
  by (rule owes_harmless) (simp_all add: harmless_Emit, simp add: Emit_eq)

lemma owes_modifyHub: "(\<And>h. hub_clients (f h) = hub_clients h) \<Longrightarrow> hub.owes w0 0 (atom (modifyHub f))"
  by (rule owes_harmless) (simp_all add: harmless_modifyHub, simp add: modifyHub_def)

lemma harmless_same_world: "hub_ok w \<Longrightarrow> hub_clients h = hub_clients (w_hub w) \<Longrightarrow> harmless w (w\<lparr>w_hub := h\<rparr>)"
  by (rule harmless_same_clients) (simp_all add: hub_ok_def)

lemma owes_Subscribe: "hub.owes w0 0 (atom (Hub_Subscribe t f))"
  by (rule owes_harmless) (simp_all add: hub_op_defs thenG_app bindG_app harmless_same_world)

lemma owes_IsBanned: "hub.owes w0 0 (IsBanned_thread now name)"
  unfolding IsBanned_thread_def
proof (rule owes_atom_harmless)
  fix w
  assume w: "hub_ok w"
  have clean: "hub.owes w 0 (atom (IsBanned_clean name))"
    by (rule owes_harmless) (auto simp: hub_op_defs thenG_app bindG_app harmless_same_world)
  obtain a where "IsBanned_read now name w = (Ret a, w)" by (simp add: IsBanned_read_def)
  then show "\<exists>x w'. IsBanned_read now name w = (Ret x, w') \<and> harmless w w' \<and>
      hub.owes w' 0 (case x of Answer b \<Rightarrow> Done b | Expired \<Rightarrow> atom (IsBanned_clean name))"
    using clean harmless_refl [OF w] by (cases a) (auto intro: hub.owes_Done)
qed simp

lemma owes_ignore: "hub.owes w0 0 t \<Longrightarrow> hub.owes w0 0 (ignore t)"
  unfolding ignore_def by (rule hub.owes_bind, assumption) (rule hub.owes_Done)

lemma owes_call: "hub.owes w0 0 (call_thread k)"
  by (cases k) (auto intro!: owes_ignore owes_Kick owes_ListNames owes_IsBanned owes_Emit owes_modifyHub owes_Subscribe
      simp: Hub_BroadcastLocal_def Hub_BroadcastRemote_def Hub_BanFor_def Hub_cancel_def Let_def split: option.split)

text \<open>The handlers may run into a closed channel; what they do is harmless, and they recover.\<close>

lemma tries_harmless: "(\<And>w. hub_ok w \<Longrightarrow> harmless w (snd (m w))) \<Longrightarrow> hub.tries w0 (atom m)"
  by (rule hub.tries_atom) (simp add: harmless_def)

lemma tries_Range: "(\<And>r b w. hub.tries w (f r b)) \<Longrightarrow> hub.tries w0 (Range_thread f b)"
  unfolding Range_thread_def
  by (intro hub.tries_bind hub.tries_fold tries_harmless) (auto simp: harmless_refl intro: hub.tries_Done split: option.split)

lemma tries_SendToAll: "hub.tries w0 (SendToAll_thread m)"
  unfolding SendToAll_thread_def by (intro tries_Range tries_harmless harmless_Send)

lemma tries_SendToUser: "hub.tries w0 (SendToUser_thread u m)"
  unfolding SendToUser_thread_def
  by (intro tries_Range hub.tries_bind tries_harmless harmless_read) (auto intro: hub.tries_then hub.tries_Done tries_harmless harmless_Send)

lemma tries_sub: "hub.tries w0 (sub_thread tz hdl e)"
  unfolding sub_thread_def IncMessage_def IncHeartbeat_def IncDirect_def
  by (cases hdl; cases e)
    (auto intro!: hub.tries_then hub.tries_bind hub.tries_Done tries_SendToAll tries_SendToUser tries_harmless
      intro: harmless_observe harmless_read harmless_refl)

lemma owes_goroutine: "hub.owes w0 0 (goroutine_thread tz g)"
  unfolding goroutine_thread_def by (rule hub.tries_recover [OF tries_sub])

subsection \<open>The invariant\<close>

definition conc_inv :: "conc \<Rightarrow> bool" where
  "conc_inv s \<longleftrightarrow> c_crashed s = None \<and> hub.pool_ok (c_world s) (c_threads s)"

lemma conc_connect:
  assumes "hub.pool_ok w ts" and "w_heap w r = None" and "\<And>q c. w_heap w q = Some c \<Longrightarrow> cl_ID c \<noteq> cid"
  shows "hub.pool_ok (snd (clients_Store r (w\<lparr>w_heap := (w_heap w)(r \<mapsto> (NewClientWithBuffer cid n)\<lparr>cl_Name := nm\<rparr>)\<rparr>)))
    (ts @ [joined_thread now r])"
proof (rule hub.pool_spawn [OF assms(1)])
  let ?c = "(NewClientWithBuffer cid n)\<lparr>cl_Name := nm\<rparr>" and ?m = "hub_clients (w_hub w)"
  let ?w = "w\<lparr>w_heap := (w_heap w)(r \<mapsto> ?c), w_hub := (w_hub w)\<lparr>hub_clients := Store cid r ?m\<rparr>\<rparr>"
  have eq: "snd (clients_Store r (w\<lparr>w_heap := (w_heap w)(r \<mapsto> ?c)\<rparr>)) = ?w" by (simp add: clients_Store_def modifyHub_def)
  have ok: "hub_ok w" using assms(1) by (rule hub.pool_okE)
  note m = hub_okD(1) [OF ok]
  have c: "client_ok ?c" using NewClient_ok [of cid n] by (simp add: client_ok_def)
  have new: "Load ?m cid = None"
    using hub_okD(3) [OF ok, of cid] assms(3) by (cases "Load ?m cid") auto
  show "hub_ok (snd (clients_Store r (w\<lparr>w_heap := (w_heap w)(r \<mapsto> ?c)\<rparr>)))" unfolding eq
  proof (rule hub_okI)
    show "\<exists>c. w_heap ?w q = Some c \<and> cl_ID c = k \<and> is_open c" if "Load (hub_clients (w_hub ?w)) k = Some q" for k q
      using that hub_okD(3) [OF ok, of k q] assms(2) by (auto simp: syncmap.load_store [OF m] split: if_splits)
  qed (use m hub_okD(2) [OF ok] c in \<open>auto simp: syncmap.ok_store intro: inv_rules\<close>)
  show "evolves w (snd (clients_Store r (w\<lparr>w_heap := (w_heap w)(r \<mapsto> ?c)\<rparr>)))" unfolding eq
    using assms(2,3) by (auto simp: evolves_def syncmap.load_store [OF m])
  have "gauge_gap ?w - gauge_gap w = 1" using syncmap.size_store [OF m, of cid r] new by (simp add: gauge_gap_def)
  then show "hub.owes (snd (clients_Store r (w\<lparr>w_heap := (w_heap w)(r \<mapsto> ?c)\<rparr>)))
      (gauge_gap (snd (clients_Store r (w\<lparr>w_heap := (w_heap w)(r \<mapsto> ?c)\<rparr>))) - gauge_gap w) (joined_thread now r)"
    unfolding eq using owes_Emit_then [of 1] by (simp add: joined_thread_def)
qed

lemma conc_spawn:
  assumes "conc_inv s" and "hub.owes (c_world s) 0 t"
  shows "conc_inv (spawn t s)"
  using assms hub.pool_spawn [of "c_world s" "c_threads s" "c_world s" t] hub.pool_okE
  by (fastforce simp: conc_inv_def spawn_def)

lemma conc_env:
  assumes "conc_inv s" and "\<And>w. hub_ok w \<Longrightarrow> w = c_world s \<Longrightarrow> harmless w w'"
  shows "conc_inv (s\<lparr>c_world := w'\<rparr>)"
proof -
  from assms(1) have p: "hub.pool_ok (c_world s) (c_threads s)" "c_crashed s = None" by (simp_all add: conc_inv_def)
  then have "hub_ok (c_world s)" by (auto elim: hub.pool_okE)
  from assms(2) [OF this refl] show ?thesis using p hub.pool_env by (auto simp: conc_inv_def harmless_def)
qed

lemma harmless_rename:
  assumes "hub_ok w" and "w_heap w r = Some c"
  shows "harmless w (w\<lparr>w_heap := (w_heap w)(r \<mapsto> c\<lparr>cl_Name := nm\<rparr>)\<rparr>)"
proof (rule harmless_same_clients)
  have "client_ok (c\<lparr>cl_Name := nm\<rparr>)" using heap_okD [OF hub_okD(2) [OF assms(1)] assms(2)] by (simp add: client_ok_def)
  then show "hub_ok (w\<lparr>w_heap := (w_heap w)(r \<mapsto> c\<lparr>cl_Name := nm\<rparr>)\<rparr>)"
    using assms hub_okD(2) [OF assms(1)] by (intro hub_ok_heap_only [OF assms(1)]) (auto intro: inv_rules)
qed (use assms in auto)

lemma harmless_Receive:
  assumes "hub_ok w"
  shows "harmless w (snd (Client_Receive r w))"
proof (rule harmless_same_clients)
  show "hub_ok (snd (Client_Receive r w))" using assms by (rule hub_ok_Receive)
qed (auto simp: go_simps select_recv_def split: option.splits list.splits)

lemma conc_inv_step: "conc_step tz s s' \<Longrightarrow> conc_inv s \<Longrightarrow> conc_inv s'"
proof (induction rule: conc_step.induct)
  case (connect s r cid now n nm)
  from conc_connect [OF _ connect(2) connect(3)] connect(4) show ?case by (simp add: conc_inv_def spawn_def)
next
  case (goroutine s i)
  let ?w = "(c_world s)\<lparr>w_go := take i (w_go (c_world s)) @ drop (Suc i) (w_go (c_world s))\<rparr>"
  have "conc_inv (s\<lparr>c_world := ?w\<rparr>)"
    by (rule conc_env [OF goroutine.prems]) (auto intro!: harmless_same_clients simp: hub_ok_def)
  then show ?case by (rule conc_spawn) (rule owes_goroutine)
next
  case (act s i a t w)
  then show ?case using hub.pool_act [of "c_world s" "c_threads s" i a] by (auto simp: conc_inv_def)
next
  case (crash s i a p w)
  then show ?case using hub.pool_act [of "c_world s" "c_threads s" i a] by (auto simp: conc_inv_def)
next
  case (finish s i x)
  then show ?case using hub.pool_drop [of "c_world s" "c_threads s" i x] by (auto simp: conc_inv_def)
qed (auto intro: conc_spawn owes_Unregister owes_call conc_env harmless_rename harmless_Receive)

lemma conc_inv_start: "conc_start s \<Longrightarrow> conc_inv s"
  using sys_invD(1) [OF sys_inv_empty]
  by (auto simp: conc_start_def conc_inv_def hub.pool_ok_def gauge_gap_def empty_world_def NewHub_def)

lemma conc_reachable_inv: "conc.reachable tz s \<Longrightarrow> conc_inv s"
  by (erule conc.reachable_invariant) (auto intro: conc_inv_start conc_inv_step)

text \<open>
  C1: the hub under concurrency. In every state that any interleaving of goroutines can reach
  (clients connecting and disconnecting, kicks, broadcasts and direct messages handled by the
  subscribers, bans, subscriptions, renames, receiving transports), cut between any two atomic
  actions: no panic has ended the program; the client map has one entry per id, each pointing to an
  open, well-formed client of that id; the online gauge differs from the number of registered
  clients by at most the number of goroutines that have not finished; and it is equal to that number
  when all have.
\<close>

theorem hub_threads_invariant:
  assumes "conc_reachable tz s"
  shows "c_crashed s = None \<and> hub_ok (c_world s) \<and>
    \<bar>int (length (hub_clients (w_hub (c_world s)))) - online (w_metrics (c_world s))\<bar> \<le> int (length (c_threads s)) \<and>
    (c_threads s = [] \<longrightarrow> online (w_metrics (c_world s)) = int (length (hub_clients (w_hub (c_world s)))))"
proof -
  have "conc_inv s" using assms unfolding conc_reachable_def by (rule conc_reachable_inv)
  then have "c_crashed s = None" "hub.pool_ok (c_world s) (c_threads s)" by (simp_all add: conc_inv_def)
  with hub.pool_gap [of "c_world s" "c_threads s"] show ?thesis
    by (auto simp: gauge_gap_def elim: hub.pool_okE)
qed

definition demo_conc :: conc where
  "demo_conc = spawn (joined_thread 7 0) \<lparr>c_world = snd (clients_Store 0
     (empty_world\<lparr>w_heap := Map.empty(0 \<mapsto> (NewClientWithBuffer ''a'' 1)\<lparr>cl_Name := ''ann''\<rparr>)\<rparr>)), c_threads = [], c_crashed = None\<rparr>"

lemma demo_conc_reachable: "conc_reachable (\<lambda>_. 0) demo_conc"
proof -
  let ?s = "\<lparr>c_world = empty_world, c_threads = [], c_crashed = None\<rparr>"
  have "conc_step (\<lambda>_. 0) ?s demo_conc"
    using conc_step.connect [where s = ?s and r = 0 and cid = "''a''" and now = 7 and n = 1 and nm = "''ann''"] by (simp add: demo_conc_def empty_world_def)
  then show ?thesis
    unfolding conc_reachable_def by (intro conc.reach_step [OF conc.reach_start]) (auto simp: conc_start_def)
qed

lemma demo_conc_counts:
  "length (hub_clients (w_hub (c_world demo_conc))) = 1" "online (w_metrics (c_world demo_conc)) = 0" "length (c_threads demo_conc) = 1"
  by (simp_all add: demo_conc_def spawn_def clients_Store_def modifyHub_def empty_world_def NewHub_def Store_def)

theorem hub_threads_invariant_witness:
  "conc_reachable (\<lambda>_. 0) demo_conc \<and> length (hub_clients (w_hub (c_world demo_conc))) = 1 \<and>
   online (w_metrics (c_world demo_conc)) = 0 \<and>
   \<bar>int (length (hub_clients (w_hub (c_world demo_conc)))) - online (w_metrics (c_world demo_conc))\<bar> \<le> int (length (c_threads demo_conc))"
  using hub_threads_invariant [OF demo_conc_reachable] demo_conc_reachable demo_conc_counts by simp

subsection \<open>A broadcast and a disconnect\<close>

lemma bindT_assoc: "bindT (bindT t f) g = bindT t (\<lambda>x. bindT (f x) g)"
proof (induction t rule: thread_induct)
  case (Act a)
  have "(map_prod (map_outcome (\<lambda>t. bindT t g)) id \<circ> (map_prod (map_outcome (\<lambda>t. bindT t f)) id \<circ> a)) w =
      (map_prod (map_outcome (\<lambda>t. bindT t (\<lambda>x. bindT (f x) g))) id \<circ> a) w" for w
    using Act by (cases "a w"; cases "fst (a w)") auto
  then show ?case by (simp add: fun_eq_iff)
qed simp

lemma step_atom:
  assumes "i < length ts" and "ts ! i = bindT (atom m) f" and "m w = (Ret x, w')"
  shows "conc_step tz \<lparr>c_world = w, c_threads = ts, c_crashed = None\<rparr> \<lparr>c_world = w', c_threads = ts[i := f x], c_crashed = None\<rparr>"
proof -
  have "ts ! i = Act (map_prod (map_outcome (\<lambda>t. bindT t f)) id \<circ> (map_prod (map_outcome Done) id \<circ> m))" using assms(2) by (simp add: atom_def)
  from conc_step.act [of "\<lparr>c_world = w, c_threads = ts, c_crashed = None\<rparr>" i _ "f x" w' tz] this assms(1,3) show ?thesis by simp
qed

lemma step_recover:
  assumes "i < length ts" and "ts ! i = recoverT (bindT (atom m) f)" and "m w = (r, w')"
  shows "conc_step tz \<lparr>c_world = w, c_threads = ts, c_crashed = None\<rparr>
    \<lparr>c_world = w', c_threads = ts[i := (case r of Ret x \<Rightarrow> recoverT (f x) | Panic p \<Rightarrow> Done ())], c_crashed = None\<rparr>"
proof -
  let ?t = "case r of Ret x \<Rightarrow> recoverT (f x) | Panic p \<Rightarrow> Done ()"
  obtain a where a: "ts ! i = Act a" "a w = (Ret ?t, w')"
    using assms(2,3) by (cases r) (simp_all add: atom_def)
  from conc_step.act [of "\<lparr>c_world = w, c_threads = ts, c_crashed = None\<rparr>" i a ?t w' tz] a assms(1) show ?thesis by simp
qed

text \<open>What a broadcast does for one key, and the goroutine of a local message in terms of it.\<close>

definition send_next :: "string \<Rightarrow> string \<Rightarrow> unit \<Rightarrow> (('h, 'z) world_scheme, unit) thread" where
  "send_next msg k b = bindT (atom (getG (\<lambda>w. Load (hub_clients (w_hub w)) k)))
     (\<lambda>v. case v of None \<Rightarrow> Done () | Some r \<Rightarrow> atom (Client_Send r msg))"

definition send_rest :: "string \<Rightarrow> string list \<Rightarrow> (('h, 'z) world_scheme, unit) thread" where
  "send_rest msg ks = thenT (foldT ks (send_next msg) ()) (atom (IncMessage ''local''))"

lemma local_goroutine:
  "goroutine_thread tz (OnMessageLocal, MessageEvent when from content lcl) =
     recoverT (bindT (atom (getG range_order)) (send_rest (local_line tz when from content)))"
  by (simp add: goroutine_thread_def sub_thread_def SendToAll_thread_def Range_thread_def thenT_def bindT_assoc send_rest_def [abs_def]
      send_next_def [abs_def])

lemma send_rest_Cons:
  "send_rest msg (k # ks) = bindT (atom (getG (\<lambda>w. Load (hub_clients (w_hub w)) k)))
     (\<lambda>v. bindT (case v of None \<Rightarrow> Done () | Some r \<Rightarrow> atom (Client_Send r msg)) (\<lambda>_. send_rest msg ks))"
  by (simp add: send_rest_def send_next_def thenT_def bindT_assoc)

text \<open>
  C10: a broadcast can be lost. While the goroutine of a local message goes over the clients, a client
  that it has loaded from the map and not yet sent to can disconnect: its channel is closed, the
  send panics, the panic ends the goroutine and is recovered. For every state of the hub and whichever
  client the loop comes to first, there is such an interleaving; afterwards the goroutine has finished,
  only the disconnected client is no longer registered, and no other client, however much room it
  has, was sent the message; the message is not counted either.
\<close>

theorem broadcast_race:
  fixes w :: "sub_handler world"
  assumes "hub_ok w" and "range_order w = k # ks" and "Load (hub_clients (w_hub w)) k = Some r"
  shows "\<exists>w' rest. (conc_step tz)\<^sup>*\<^sup>*
      \<lparr>c_world = w, c_threads = [goroutine_thread tz (OnMessageLocal, MessageEvent when from content lcl), UnregisterClient_thread now r], c_crashed = None\<rparr>
      \<lparr>c_world = w', c_threads = [Done (), rest], c_crashed = None\<rparr> \<and>
    (\<forall>q. registered w' q \<longleftrightarrow> registered w q \<and> q \<noteq> r) \<and> (\<forall>q. q \<noteq> r \<longrightarrow> w_heap w' q = w_heap w q) \<and> w_metrics w' = w_metrics w"
proof -
  let ?m = "hub_clients (w_hub w)"
  define msg where "msg = local_line tz when from content"
  from hub_okD(3) [OF assms(1,3)] obtain c where c: "w_heap w r = Some c" "cl_ID c = k" "is_open c" by blast
  have cok: "client_ok c" using heap_okD [OF hub_okD(2) [OF assms(1)] c(1)] .
  let ?w1 = "w\<lparr>w_hub := (w_hub w)\<lparr>hub_clients := Delete k ?m\<rparr>\<rparr>"
  let ?w2 = "?w1\<lparr>w_heap := (w_heap w)(r \<mapsto> close_client c)\<rparr>"
  let ?b0 = "recoverT (bindT (atom (getG range_order)) (send_rest msg))"
  let ?b1 = "recoverT (send_rest msg (k # ks))" and ?b2 = "recoverT (bindT (atom (Client_Send r msg)) (\<lambda>_. send_rest msg ks))"
  let ?u0 = "UnregisterClient_thread now r" and ?u1 = "thenT (atom (Hub_Emit (UserEvent now r ''leave''))) (atom (AddOnline (-1)))"
  let ?s = "\<lambda>w b u. \<lparr>c_world = w, c_threads = [b, u], c_crashed = None\<rparr>"
  have 1: "conc_step tz (?s w ?b0 u) (?s w ?b1 u)" for u
    using step_recover [of 0 "[?b0, u]" "getG range_order" _ w "Ret (k # ks)" w tz] assms(2) by simp
  have 2: "conc_step tz (?s w ?b1 u) (?s w ?b2 u)" for u
  proof -
    have "[?b1, u] ! 0 = recoverT (bindT (atom (getG (\<lambda>w. Load (hub_clients (w_hub w)) k)))
        (\<lambda>v. bindT (case v of None \<Rightarrow> Done () | Some r \<Rightarrow> atom (Client_Send r msg)) (\<lambda>_. send_rest msg ks)))"
      by (simp only: nth_Cons_0 send_rest_Cons)
    from step_recover [OF _ this, of w "Ret (Some r)" w tz] assms(3) show ?thesis by simp
  qed
  have 3: "conc_step tz (?s w b ?u0) (?s ?w1 b (thenT (atom (Client_Close r)) ?u1))" for b
  proof -
    have "[b, ?u0] ! 1 = bindT (atom (clients_LoadAndDelete r)) (\<lambda>loaded. if loaded then thenT (atom (Client_Close r)) ?u1 else atom (Client_Close r))"
      by (simp add: UnregisterClient_thread_def)
    from step_atom [OF _ this, of w True ?w1 tz] LoadAndDelete_loaded [OF c(1), of r] assms(3) c(2) show ?thesis by simp
  qed
  have 4: "conc_step tz (?s ?w1 b (thenT (atom (Client_Close r)) ?u1)) (?s ?w2 b ?u1)" for b
    using step_atom [of 1 "[b, thenT (atom (Client_Close r)) ?u1]" "Client_Close r" "\<lambda>_. ?u1" ?w1 "()" ?w2 tz] Close_heap [of ?w1 r c] c cok
    by (simp add: thenT_def [of "atom (Client_Close r)"])
  have "Client_Send r msg ?w2 = (Panic SendOnClosedChannel, ?w2)"
    by (rule Send_closed [of _ _ "close_client c"]) (simp_all add: close_client_def)
  then have 5: "conc_step tz (?s ?w2 ?b2 ?u1) (?s ?w2 (Done ()) ?u1)"
    using step_recover [of 0 "[?b2, ?u1]" "Client_Send r msg" _ ?w2 "Panic SendOnClosedChannel" ?w2 tz] by simp
  have "(conc_step tz)\<^sup>*\<^sup>* (?s w ?b0 ?u0) (?s ?w2 (Done ()) ?u1)"
    using 1 [of ?u0] 2 [of ?u0] 3 [of ?b2] 4 [of ?b2] 5 by (meson converse_rtranclp_into_rtranclp rtranclp.rtrancl_refl)
  moreover have "registered ?w2 q \<longleftrightarrow> registered w q \<and> q \<noteq> r" for q
    by (rule registered_delete [OF assms(1,3)]) simp
  ultimately show ?thesis unfolding local_goroutine msg_def by (intro exI [of _ ?w2] exI [of _ ?u1]) simp
qed

theorem broadcast_race_witness:
  "\<exists>w' rest. (conc_step (\<lambda>_. 0))\<^sup>*\<^sup>*
      \<lparr>c_world = demo_world, c_threads = [goroutine_thread (\<lambda>_. 0) (OnMessageLocal, MessageEvent 5 ''carol'' ''hi'' True), UnregisterClient_thread 6 2], c_crashed = None\<rparr>
      \<lparr>c_world = w', c_threads = [Done (), rest], c_crashed = None\<rparr> \<and> registered w' 3 \<and> \<not> registered w' 2 \<and>
    w_heap w' 3 = Some (demo_client ''b'' ''bob'' 1)"
proof -
  have "Load (hub_clients (w_hub (demo_world :: sub_handler world))) ''a'' = Some 2" by (simp add: demo_world_eq NewHub_def Load_def)
  from broadcast_race [OF demo_world_ok demo_order this, of "\<lambda>_. 0" 5 "''carol''" "''hi''" True 6] obtain w' rest where
    w': "(conc_step (\<lambda>_. 0))\<^sup>*\<^sup>*
      \<lparr>c_world = demo_world, c_threads = [goroutine_thread (\<lambda>_. 0) (OnMessageLocal, MessageEvent 5 ''carol'' ''hi'' True), UnregisterClient_thread 6 2], c_crashed = None\<rparr>
      \<lparr>c_world = w', c_threads = [Done (), rest], c_crashed = None\<rparr>"
    "\<forall>q. registered w' q \<longleftrightarrow> registered (demo_world :: sub_handler world) q \<and> q \<noteq> 2"
    "\<forall>q. q \<noteq> 2 \<longrightarrow> w_heap w' q = w_heap (demo_world :: sub_handler world) q" by blast
  have "registered w' 3" "\<not> registered w' 2" "w_heap w' 3 = Some (demo_client ''b'' ''bob'' 1)" using w'(2,3) by simp_all
  with w'(1) show ?thesis by blast
qed

end
