(* ===== verification/Hub_Draining.thy ===== *)
theory Hub_Draining
  imports Hub_Interleaving
begin

section \<open>The hub's goroutines come to an end\<close>

text \<open>
  The steps of goroutines that are already running or started, without new calls, clients or
  messages. A running operation may start goroutines (\<open>Emit\<close>), a handler starts none: so the
  multiset of the remaining work decreases with every step.
\<close>

inductive run_step :: "(Time \<Rightarrow> int) \<Rightarrow> conc \<Rightarrow> conc \<Rightarrow> bool" for tz where
  run_goroutine: "c_crashed s = None \<Longrightarrow> i < length (w_go (c_world s)) \<Longrightarrow>
     run_step tz s (spawn (goroutine_thread tz (w_go (c_world s) ! i))
       (s\<lparr>c_world := (c_world s)\<lparr>w_go := take i (w_go (c_world s)) @ drop (Suc i) (w_go (c_world s))\<rparr>\<rparr>))"
| run_act: "c_crashed s = None \<Longrightarrow> i < length (c_threads s) \<Longrightarrow> c_threads s ! i = Act a \<Longrightarrow> a (c_world s) = (Ret t, w) \<Longrightarrow>
     run_step tz s (s\<lparr>c_world := w, c_threads := (c_threads s)[i := t]\<rparr>)"
| run_crash: "c_crashed s = None \<Longrightarrow> i < length (c_threads s) \<Longrightarrow> c_threads s ! i = Act a \<Longrightarrow> a (c_world s) = (Panic p, w) \<Longrightarrow>
     run_step tz s (s\<lparr>c_world := w, c_crashed := Some p\<rparr>)"
| run_finish: "c_crashed s = None \<Longrightarrow> i < length (c_threads s) \<Longrightarrow> c_threads s ! i = Done x \<Longrightarrow>
     run_step tz s (s\<lparr>c_threads := take i (c_threads s) @ drop (Suc i) (c_threads s)\<rparr>)"

lemma run_step_conc: "run_step tz s s' \<Longrightarrow> conc_step tz s s'"
  by (induction rule: run_step.induct) (auto intro: conc_step.intros)

subsection \<open>Threads that start no goroutines\<close>

inductive quietT :: "(('h, 'z) world_scheme, 'a) thread \<Rightarrow> bool" where
  quiet_Done: "quietT (Done x)"
| quiet_Act: "(\<And>w. w_go (snd (a w)) = w_go w) \<Longrightarrow> (\<And>w t w'. a w = (Ret t, w') \<Longrightarrow> quietT t) \<Longrightarrow> quietT (Act a)"

inductive_cases quiet_ActE: "quietT (Act a)"

lemma quiet_atom:
  assumes "\<And>w. w_go (snd (m w)) = w_go w"
  shows "quietT (atom m)"
  unfolding atom_def
proof (rule quiet_Act)
  show "quietT t" if "(map_prod (map_outcome Done) id \<circ> m) w = (Ret t, w')" for w t w'
    using that by (cases "m w") (auto elim: map_outcome_RetE intro: quiet_Done)
qed (simp add: assms)

lemma quiet_bind: "quietT t \<Longrightarrow> (\<And>x. quietT (f x)) \<Longrightarrow> quietT (bindT t f)"
proof (induction rule: quietT.induct)
  case (quiet_Act a)
  show ?case unfolding bindT.simps
  proof (rule quietT.quiet_Act)
    show "quietT t" if "(map_prod (map_outcome (\<lambda>t. bindT t f)) id \<circ> a) w = (Ret t, w')" for w t w'
      using that quiet_Act.IH quiet_Act.prems by (cases "a w") (auto elim: map_outcome_RetE)
  qed (simp add: quiet_Act.hyps)
qed simp

lemma quiet_then: "quietT t \<Longrightarrow> quietT u \<Longrightarrow> quietT (thenT t u)"
  unfolding thenT_def by (rule quiet_bind)

lemma quiet_fold: "(\<And>x b. quietT (f x b)) \<Longrightarrow> quietT (foldT xs f b)"
  by (induction xs arbitrary: b) (auto intro: quiet_Done quiet_bind)

lemma quiet_recover: "quietT t \<Longrightarrow> quietT (recoverT t)"
proof (induction rule: quietT.induct)
  case (quiet_Act a)
  let ?a = "\<lambda>w. case map_prod (map_outcome recoverT) id (a w) of (Ret t, w') \<Rightarrow> (Ret t, w') | (Panic p, w') \<Rightarrow> (Ret (Done ()), w')"
  have "w_go (snd (?a w)) = w_go w" for w
    using quiet_Act.hyps(1) [of w] by (cases "a w"; cases "fst (a w)") auto
  moreover have "quietT t" if "?a w = (Ret t, w')" for w t w'
    using that quiet_Act.IH by (cases "a w"; cases "fst (a w)") (auto intro: quiet_Done)
  ultimately show ?case unfolding recoverT.simps by (rule quietT.quiet_Act)
qed (simp add: quiet_Done)

lemma quiet_Range: "(\<And>r b. quietT (f r b)) \<Longrightarrow> quietT (Range_thread f b)"
  unfolding Range_thread_def by (intro quiet_bind quiet_fold quiet_atom) (auto intro: quiet_Done split: option.split)

lemma read_keeps_go: "w_go (snd (read_Name r w)) = w_go w"
  by (cases "w_heap w r") (simp_all add: read_Name_def)

lemma quiet_SendToAll: "quietT (SendToAll_thread m)"
  unfolding SendToAll_thread_def by (intro quiet_Range quiet_atom send_keeps_go)

lemma quiet_SendToUser: "quietT (SendToUser_thread u m)"
  unfolding SendToUser_thread_def
  by (intro quiet_Range quiet_bind quiet_atom read_keeps_go) (auto intro: quiet_then quiet_Done quiet_atom send_keeps_go)

lemma quiet_goroutine: "quietT (goroutine_thread tz g)"
proof -
  have "quietT (sub_thread tz hdl e)" for hdl e
    unfolding sub_thread_def
    by (cases hdl; cases e)
      (auto intro!: quiet_then quiet_bind quiet_Done quiet_SendToAll quiet_SendToUser quiet_atom simp: observe_defs read_keeps_go)
  then show ?thesis unfolding goroutine_thread_def by (rule quiet_recover)
qed

subsection \<open>The remaining work\<close>

datatype work = Pending | Running "(sub_handler world, unit) thread"

definition continues :: "(('w, 'a) thread \<times> ('w, 'a) thread) set" where
  "continues = {(t', t). \<exists>a w w'. t = Act a \<and> a w = (Ret t', w')}"

lemma wf_continues: "wf continues"
proof (rule wfUNIVI)
  fix P :: "('a, 'b) thread \<Rightarrow> bool" and t
  assume step: "\<forall>t. (\<forall>t'. (t', t) \<in> continues \<longrightarrow> P t') \<longrightarrow> P t"
  show "P t"
  proof (induction t rule: thread_induct)
    case (Act a)
    then have "P t'" if "(t', Act a) \<in> continues" for t' using that by (auto simp: continues_def)
    with step show ?case by blast
  qed (use step in \<open>auto simp: continues_def\<close>)
qed

fun level :: "work \<Rightarrow> nat" where
  "level Pending = 1"
| "level (Running t) = (if quietT t then 0 else 2)"

fun rest_of :: "work \<Rightarrow> (sub_handler world, unit) thread" where
  "rest_of Pending = Done ()"
| "rest_of (Running t) = t"

definition smaller :: "(work \<times> work) set" where
  "smaller = inv_image (less_than <*lex*> continues) (\<lambda>x. (level x, rest_of x))"

lemma wf_smaller: "wf smaller"
  unfolding smaller_def by (intro wf_inv_image wf_lex_prod wf_less_than wf_continues)

definition work_left :: "conc \<Rightarrow> work multiset" where
  "work_left s = image_mset Running (mset (c_threads s)) + replicate_mset (length (w_go (c_world s))) Pending"

definition drain_order :: "(conc \<times> conc) set" where
  "drain_order = inv_image (less_than <*lex*> mult smaller) (\<lambda>s. (if c_crashed s = None then 1 else 0, work_left s))"

lemma wf_drain_order: "wf drain_order"
  unfolding drain_order_def by (intro wf_inv_image wf_lex_prod wf_less_than wf_mult wf_smaller)

lemma continue_smaller:
  assumes "a w = (Ret t, w')"
  shows "(Running t, Running (Act a)) \<in> smaller"
proof -
  have "(t, Act a) \<in> continues" using assms by (auto simp: continues_def)
  moreover have "quietT t" if "quietT (Act a)" using quiet_ActE [OF that] assms by metis
  ultimately show ?thesis by (auto simp: smaller_def)
qed

lemma multD:
  assumes "J \<noteq> {#}" and "\<And>k. k \<in># K \<Longrightarrow> \<exists>j\<in>#J. (k, j) \<in> smaller"
  shows "(I + K, I + J) \<in> mult smaller"
  using one_step_implies_mult [OF assms(1), of K smaller I] assms(2) by blast

lemma work_act:
  assumes "i < length (c_threads s)" and "c_threads s ! i = Act a" and "a (c_world s) = (Ret t, w)"
  shows "(work_left (s\<lparr>c_world := w, c_threads := (c_threads s)[i := t]\<rparr>), work_left s) \<in> mult smaller"
proof -
  let ?R = "image_mset Running (mset (c_threads s) - {#Act a#})" and ?P = "\<lambda>n. replicate_mset n Pending"
  have "Act a \<in># mset (c_threads s)" using assms(1,2) by (metis nth_mem set_mset_mset)
  then have "image_mset Running (mset (c_threads s)) = add_mset (Running (Act a)) ?R"
    by (metis image_mset_add_mset insert_DiffM)
  then have old: "work_left s = ?R + add_mset (Running (Act a)) (?P (length (w_go (c_world s))))" by (simp add: work_left_def)
  have new: "work_left (s\<lparr>c_world := w, c_threads := (c_threads s)[i := t]\<rparr>) = ?R + add_mset (Running t) (?P (length (w_go w)))"
    using assms(1,2) by (simp add: work_left_def mset_update)
  have cont: "(Running t, Running (Act a)) \<in> smaller" using assms(3) by (rule continue_smaller)
  show ?thesis
  proof (cases "quietT (Act a)")
    case True
    then have "w_go w = w_go (c_world s)" using assms(3) by (metis quiet_ActE snd_conv)
    then show ?thesis unfolding old new
      using multD [of "{#Running (Act a)#}" "{#Running t#}" "?R + ?P (length (w_go w))"] cont by (simp add: ac_simps)
  next
    case False
    then have "(Pending, Running (Act a)) \<in> smaller" by (simp add: smaller_def)
    then show ?thesis unfolding old new using cont by (intro multD) (auto split: if_splits)
  qed
qed

lemma run_step_drains: "run_step tz s s' \<Longrightarrow> (s', s) \<in> drain_order"
proof (induction rule: run_step.induct)
  case (run_goroutine s i)
  let ?I = "image_mset Running (mset (c_threads s)) + replicate_mset (length (w_go (c_world s)) - 1) Pending"
  have "(Running (goroutine_thread tz (w_go (c_world s) ! i)), Pending) \<in> smaller" by (simp add: smaller_def quiet_goroutine)
  then have "(?I + {#Running (goroutine_thread tz (w_go (c_world s) ! i))#}, ?I + {#Pending#}) \<in> mult smaller" by (intro multD) auto
  moreover have "replicate_mset (length (w_go (c_world s))) Pending = add_mset Pending (replicate_mset (length (w_go (c_world s)) - 1) Pending)"
    using run_goroutine(2) by (cases "length (w_go (c_world s))") simp_all
  ultimately show ?case using run_goroutine by (simp add: drain_order_def work_left_def spawn_def)
next
  case (run_act s i a t w)
  then show ?case using work_act [of i s a t w] by (simp add: drain_order_def)
next
  case (run_finish s i x)
  let ?ts = "take i (c_threads s) @ drop (Suc i) (c_threads s)"
  have "mset (c_threads s) = add_mset (Done x) (mset ?ts)"
    using run_finish(2,3) by (subst id_take_nth_drop [OF run_finish(2)]) simp
  then have "work_left s = work_left (s\<lparr>c_threads := ?ts\<rparr>) + {#Running (Done x)#}" by (simp add: work_left_def)
  then show ?case using run_finish(1) multD [of "{#Running (Done x)#}" "{#}" "work_left (s\<lparr>c_threads := ?ts\<rparr>)"] by (simp add: drain_order_def)
qed (simp add: drain_order_def)

lemma run_step_progress:
  assumes "c_crashed s = None" and "c_threads s \<noteq> [] \<or> w_go (c_world s) \<noteq> []"
  shows "\<exists>s'. run_step tz s s'"
proof (cases "c_threads s")
  case Nil
  then show ?thesis using run_step.run_goroutine [OF assms(1), of 0] assms(2) by auto
next
  case (Cons t ts)
  show ?thesis
  proof (cases t)
    case (Done x)
    then show ?thesis using run_step.run_finish [OF assms(1), of 0] Cons by auto
  next
    case (Act a)
    obtain r w where "a (c_world s) = (r, w)" by (cases "a (c_world s)")
    then show ?thesis
      using run_step.run_act [OF assms(1), of 0 a _ w] run_step.run_crash [OF assms(1), of 0 a _ w] Cons Act by (cases r) auto
  qed
qed

text \<open>
  C9: the service comes to rest. From every state the service can reach, goroutines that run
  without new calls cannot run for ever, in whatever order they are scheduled; a run that cannot
  go on has finished every goroutine, those started on the way among them, and then the online gauge
  is the number of registered clients.
\<close>

theorem service_drains:
  assumes "conc_reachable tz s"
  shows "\<not> (\<exists>f. f 0 = s \<and> (\<forall>i. run_step tz (f i) (f (Suc i)))) \<and>
    (\<forall>s'. (run_step tz)\<^sup>*\<^sup>* s s' \<and> \<not> (\<exists>s''. run_step tz s' s'') \<longrightarrow>
      c_threads s' = [] \<and> w_go (c_world s') = [] \<and> online (w_metrics (c_world s')) = int (length (hub_clients (w_hub (c_world s')))))"
proof (intro conjI allI impI notI)
  assume "\<exists>f. f 0 = s \<and> (\<forall>i. run_step tz (f i) (f (Suc i)))"
  then obtain f where "\<forall>i. run_step tz (f i) (f (Suc i))" by blast
  then have "\<forall>i. (f (Suc i), f i) \<in> drain_order" by (blast intro: run_step_drains)
  then show False using wf_drain_order by (auto simp: wf_iff_no_infinite_down_chain)
next
  fix s'
  assume run: "(run_step tz)\<^sup>*\<^sup>* s s' \<and> \<not> (\<exists>s''. run_step tz s' s'')"
  have "(conc_step tz)\<^sup>*\<^sup>* s s'" using run run_step_conc by (blast intro: mono_rtranclp [rule_format])
  then have "conc.reachable tz s'" using assms unfolding conc_reachable_def by (rule conc.reachable_star)
  from conc_reachable_inv [OF this] have inv: "conc_inv s'" .
  then have rest: "c_threads s' = []" "w_go (c_world s') = []" using run run_step_progress [of s' tz] by (auto simp: conc_inv_def)
  then show "c_threads s' = []" "w_go (c_world s') = []" by simp_all
  show "online (w_metrics (c_world s')) = int (length (hub_clients (w_hub (c_world s'))))"
    using hub.pool_gap [of "c_world s'" "c_threads s'"] inv rest by (simp add: conc_inv_def gauge_gap_def)
qed

theorem service_drains_witness:
  "conc_reachable (\<lambda>_. 0) demo_conc \<and> length (c_threads demo_conc) = 1 \<and>
   \<not> (\<exists>f. f 0 = demo_conc \<and> (\<forall>i. run_step (\<lambda>_. 0) (f i) (f (Suc i)))) \<and>
   \<not> (\<exists>s. (run_step (\<lambda>_. 0))\<^sup>*\<^sup>* demo_conc s \<and> \<not> (\<exists>t. run_step (\<lambda>_. 0) s t) \<and> c_threads s \<noteq> [])"
  using service_drains [OF demo_conc_reachable] demo_conc_reachable demo_conc_counts by blast

end
