(* ===== verification/Hub_Spec.thy ===== *)
theory Hub_Spec
  imports Subscribers
begin

section \<open>The hub as a room\<close>

text \<open>
  What the hub promises, without pointers, channels, maps or iteration orders: a room has members,
  each with a name and an inbox of bounded size. \<open>hub_does\<close> are the hub's operations with every
  iteration order of the client map; they do what the room does.
\<close>

record member =
  mb_name :: string
  mb_inbox :: "string list"
  mb_size :: nat

type_synonym room = "string \<rightharpoonup> member"

datatype room_op =
    Join string string nat
  | Leave string
  | Nick string string
  | Say string
  | Tell string string
  | Kick string
  | Names
  | Fetch string

datatype room_answer = NoAnswer | YesNo bool | NameBag "string multiset" | Message "string option"

definition put :: "string \<Rightarrow> member \<Rightarrow> member" where
  "put m mb = (if length (mb_inbox mb) < mb_size mb then mb\<lparr>mb_inbox := mb_inbox mb @ [m]\<rparr> else mb)"

definition named :: "string \<Rightarrow> room \<Rightarrow> string set" where
  "named u R = {k. \<exists>mb. R k = Some mb \<and> mb_name mb = u}"

fun room_do :: "room_op \<Rightarrow> room \<Rightarrow> room_answer \<times> room" where
  "room_do (Join k nm n) R = (NoAnswer, R(k \<mapsto> \<lparr>mb_name = nm, mb_inbox = [], mb_size = n\<rparr>))"
| "room_do (Leave k) R = (NoAnswer, R(k := None))"
| "room_do (Nick k nm) R = (NoAnswer, R(k := map_option (mb_name_update (\<lambda>_. nm)) (R k)))"
| "room_do (Say m) R = (NoAnswer, map_option (put m) \<circ> R)"
| "room_do (Tell u m) R = (YesNo (named u R \<noteq> {}), \<lambda>k. if k \<in> named u R then map_option (put m) (R k) else R k)"
| "room_do (Kick u) R = (YesNo (named u R \<noteq> {}), R |` (- named u R))"
| "room_do Names R = (NameBag (image_mset (\<lambda>k. mb_name (the (R k))) (mset_set (dom R))), R)"
| "room_do (Fetch k) R = (case R k of
     None \<Rightarrow> (Message None, R)
   | Some mb \<Rightarrow> (case mb_inbox mb of
        [] \<Rightarrow> (Message None, R)
      | m # ms \<Rightarrow> (Message (Some m), R(k \<mapsto> mb\<lparr>mb_inbox := ms\<rparr>))))"

subsection \<open>The hub's operations\<close>

inductive hub_does :: "('h, 'z) world_scheme \<Rightarrow> room_op \<Rightarrow> room_answer \<Rightarrow> ('h, 'z) world_scheme \<Rightarrow> bool" where
  join: "w_heap w r = None \<Longrightarrow> Load (hub_clients (w_hub w)) k = None \<Longrightarrow> 0 < n \<Longrightarrow>
     Hub_RegisterClient now r (w\<lparr>w_heap := (w_heap w)(r \<mapsto> (NewClientWithBuffer k (int n))\<lparr>cl_Name := nm\<rparr>)\<rparr>) = (Ret (), w') \<Longrightarrow>
     hub_does w (Join k nm n) NoAnswer w'"
| leave: "Load (hub_clients (w_hub w)) k = Some r \<Longrightarrow> Hub_UnregisterClient now r w = (Ret (), w') \<Longrightarrow> hub_does w (Leave k) NoAnswer w'"
| nick: "Load (hub_clients (w_hub w)) k = Some r \<Longrightarrow> w_heap w r = Some c \<Longrightarrow>
     hub_does w (Nick k nm) NoAnswer (w\<lparr>w_heap := (w_heap w)(r \<mapsto> c\<lparr>cl_Name := nm\<rparr>)\<rparr>)"
| say: "mset ks = mset (range_order w) \<Longrightarrow> Hub_RangeOver ks (send_all_body m) () w = (Ret (), w') \<Longrightarrow> hub_does w (Say m) NoAnswer w'"
| tell: "mset ks = mset (range_order w) \<Longrightarrow> Hub_RangeOver ks (send_user_body u m) False w = (Ret b, w') \<Longrightarrow> hub_does w (Tell u m) (YesNo b) w'"
| kick: "mset ks = mset (range_order w) \<Longrightarrow> Hub_RangeOver ks (kick_body now u) False w = (Ret b, w') \<Longrightarrow> hub_does w (Kick u) (YesNo b) w'"
| names: "mset ks = mset (range_order w) \<Longrightarrow> Hub_RangeOver ks list_body [] w = (Ret out, w') \<Longrightarrow> hub_does w Names (NameBag (mset out)) w'"
| fetch: "Load (hub_clients (w_hub w)) k = Some r \<Longrightarrow> Client_Receive r w = (Ret x, w') \<Longrightarrow> hub_does w (Fetch k) (Message x) w'"

text \<open>The room a state of the hub stands for.\<close>

definition member_of :: "Client \<Rightarrow> member" where
  "member_of c = \<lparr>mb_name = cl_Name c, mb_inbox = ch_buf (cl_out c), mb_size = ch_cap (cl_out c)\<rparr>"

definition room_of :: "('h, 'z) world_scheme \<Rightarrow> room" where
  "room_of w k = Option.bind (Load (hub_clients (w_hub w)) k) (\<lambda>r. map_option member_of (w_heap w r))"

lemma member_of_simps [simp]:
  "mb_name (member_of c) = cl_Name c" "mb_inbox (member_of c) = ch_buf (cl_out c)" "mb_size (member_of c) = ch_cap (cl_out c)"
  by (simp_all add: member_of_def)

lemma member_of_push [simp]: "member_of (push_msg m c) = put m (member_of c)"
  by (simp add: push_msg_def put_def member_of_def)

lemma Load_registered:
  assumes "hub_ok w"
  shows "Load (hub_clients (w_hub w)) k = Some r \<longleftrightarrow> registered w r \<and> (\<exists>c. w_heap w r = Some c \<and> cl_ID c = k)"
  using hub_okD(3) [OF assms, of _ r] by (fastforce simp: registered_def)

lemma room_of_Some:
  assumes "hub_ok w"
  shows "room_of w k = Some mb \<longleftrightarrow> (\<exists>r c. registered w r \<and> w_heap w r = Some c \<and> cl_ID c = k \<and> mb = member_of c)"
  unfolding room_of_def bind_eq_Some_conv Load_registered [OF assms] by auto

lemma named_nonempty:
  "hub_ok w \<Longrightarrow> named u (room_of w) \<noteq> {} \<longleftrightarrow> (\<exists>r. registered w r \<and> selects (\<lambda>c. cl_Name c = u) (w_heap w) r)"
  by (simp add: named_def room_of_Some selects_def) (metis member_of_simps(1))

lemma option_eqI_Some: "(\<And>x. a = Some x \<longleftrightarrow> b = Some x) \<Longrightarrow> a = b"
  by (cases a; cases b) auto

subsection \<open>The simulation, operation by operation\<close>

lemma member_of_new: "0 < n \<Longrightarrow> member_of ((NewClientWithBuffer k (int n))\<lparr>cl_Name := nm\<rparr>) = \<lparr>mb_name = nm, mb_inbox = [], mb_size = n\<rparr>"
  by (simp add: member_of_def NewClientWithBuffer_def)

lemma sim_join:
  assumes "sys_inv w" and "w_heap w r = None" and "Load (hub_clients (w_hub w)) k = None" and "0 < n"
    and "Hub_RegisterClient now r (w\<lparr>w_heap := (w_heap w)(r \<mapsto> (NewClientWithBuffer k (int n))\<lparr>cl_Name := nm\<rparr>)\<rparr>) = (Ret (), w')"
  shows "room_of w' = (room_of w)(k \<mapsto> \<lparr>mb_name = nm, mb_inbox = [], mb_size = n\<rparr>) \<and> sys_inv w'"
proof -
  let ?c = "(NewClientWithBuffer k (int n))\<lparr>cl_Name := nm\<rparr>"
  let ?w = "w\<lparr>w_heap := (w_heap w)(r \<mapsto> ?c)\<rparr>"
  have ok: "hub_ok w" using assms(1) by (rule sys_invD)
  have "client_ok ?c" using NewClient_ok [of k "int n"] by (simp add: client_ok_def)
  then have "hub_ok ?w"
    using hub_okD(2) [OF ok] assms(2) by (intro hub_ok_heap_only [OF ok]) (auto intro: heap_ok_upd)
  then have "sys_inv ?w" using assms(1) by (simp add: sys_inv_def gauge_ok_def)
  then have "sys_inv w'" using sys_inv_Register [of ?w r ?c now] assms(3,5) by simp
  moreover have "w_heap w' = w_heap ?w" "hub_clients (w_hub w') = Store k r (hub_clients (w_hub w))"
    using assms(5) Register_eq [of ?w r ?c now] by auto
  moreover have "q \<noteq> r" if "Load (hub_clients (w_hub w)) j = Some q" for j q
    using hub_okD(3) [OF ok that] assms(2) by auto
  ultimately show ?thesis
    by (auto simp: room_of_def fun_eq_iff syncmap.load_store [OF hub_okD(1) [OF ok]] member_of_new [OF assms(4)] intro!: Option.bind_cong)
qed

lemma sim_leave:
  assumes "sys_inv w" and "Load (hub_clients (w_hub w)) k = Some r" and "Hub_UnregisterClient now r w = (Ret (), w')"
  shows "room_of w' = (room_of w)(k := None) \<and> sys_inv w'"
proof -
  have ok: "hub_ok w" using assms(1) by (rule sys_invD)
  from hub_okD(3) [OF ok assms(2)] obtain c where c: "w_heap w r = Some c" "cl_ID c = k" by blast
  have "client_ok c" using heap_okD [OF hub_okD(2) [OF ok] c(1)] .
  from Unregister_present [OF c(1) this, of r now] assms(2,3) c(2)
  have w': "w_heap w' = (w_heap w)(r \<mapsto> close_client c)" "hub_clients (w_hub w') = Delete k (hub_clients (w_hub w))" by auto
  have "q \<noteq> r" if "Load (hub_clients (w_hub w)) j = Some q" "j \<noteq> k" for j q
    using hub_ok_one_key [OF ok _ assms(2), of j] that by auto
  then have "room_of w' = (room_of w)(k := None)"
    by (auto simp: room_of_def fun_eq_iff w' syncmap.load_delete [OF hub_okD(1) [OF ok]] intro!: Option.bind_cong)
  then show ?thesis using sys_inv_Unregister [OF assms(1), of now r] assms(3) by simp
qed

text \<open>A change of one registered client.\<close>

lemma room_of_upd:
  assumes "hub_ok w" and "Load (hub_clients (w_hub w)) k = Some r"
  shows "room_of (w\<lparr>w_heap := (w_heap w)(r \<mapsto> c)\<rparr>) = (room_of w)(k \<mapsto> member_of c)"
proof
  fix j
  show "room_of (w\<lparr>w_heap := (w_heap w)(r \<mapsto> c)\<rparr>) j = ((room_of w)(k \<mapsto> member_of c)) j"
    using hub_ok_one_key [OF assms(1) _ assms(2), of j] assms(2) by (cases "Load (hub_clients (w_hub w)) j") (auto simp: room_of_def)
qed

lemma sim_nick:
  assumes "sys_inv w" and "Load (hub_clients (w_hub w)) k = Some r" and "w_heap w r = Some c"
  shows "room_of (w\<lparr>w_heap := (w_heap w)(r \<mapsto> c\<lparr>cl_Name := nm\<rparr>)\<rparr>) = (room_of w)(k := map_option (mb_name_update (\<lambda>_. nm)) (room_of w k)) \<and>
    sys_inv (w\<lparr>w_heap := (w_heap w)(r \<mapsto> c\<lparr>cl_Name := nm\<rparr>)\<rparr>)"
proof
  have ok: "hub_ok w" using assms(1) by (rule sys_invD)
  show "room_of (w\<lparr>w_heap := (w_heap w)(r \<mapsto> c\<lparr>cl_Name := nm\<rparr>)\<rparr>) = (room_of w)(k := map_option (mb_name_update (\<lambda>_. nm)) (room_of w k))"
    unfolding room_of_upd [OF ok assms(2)] using assms(2,3) by (simp add: room_of_def member_of_def)
  show "sys_inv (w\<lparr>w_heap := (w_heap w)(r \<mapsto> c\<lparr>cl_Name := nm\<rparr>)\<rparr>)" using assms(1,3) by (rule sys_inv_rename)
qed

lemma sim_send:
  assumes "sys_inv w" and "\<And>c. P c \<longleftrightarrow> Q (member_of c)"
  shows "room_of (w\<lparr>w_heap := deliver m {r. registered w r \<and> selects P (w_heap w) r} (w_heap w), w_metrics := ms\<rparr>) =
    (\<lambda>k. map_option (\<lambda>mb. if Q mb then put m mb else mb) (room_of w k))"
proof
  fix k
  show "room_of (w\<lparr>w_heap := deliver m {r. registered w r \<and> selects P (w_heap w) r} (w_heap w), w_metrics := ms\<rparr>) k =
      map_option (\<lambda>mb. if Q mb then put m mb else mb) (room_of w k)"
  proof (cases "Load (hub_clients (w_hub w)) k")
    case (Some r)
    with hub_okD(3) [OF sys_invD(1) [OF assms(1)] Some] assms(2) show ?thesis
      by (auto simp: room_of_def deliver_def registered_def selects_def)
  qed (simp add: room_of_def)
qed

lemma sim_kick:
  assumes "sys_inv w" and "mset ks = mset (range_order w)" and "Hub_RangeOver ks (kick_body now u) False w = (Ret b, w')"
  shows "b = (named u (room_of w) \<noteq> {}) \<and> room_of w' = room_of w |` (- named u (room_of w)) \<and> sys_inv w'"
proof -
  have ok: "hub_ok w" using assms(1) by (rule sys_invD)
  from RangeOver_kick_all [OF assms(1,2), of now u] assms(3) have
    b: "b \<longleftrightarrow> (\<exists>r. registered w r \<and> selects (\<lambda>c. cl_Name c = u) (w_heap w) r)" and
    reg: "registered w' r \<longleftrightarrow> registered w r \<and> \<not> selects (\<lambda>c. cl_Name c = u) (w_heap w) r" and
    heap: "w_heap w' = close_all {r. registered w r \<and> selects (\<lambda>c. cl_Name c = u) (w_heap w) r} (w_heap w)" and inv: "sys_inv w'" for r
    by auto
  have same: "w_heap w' r = w_heap w r" if "registered w' r" for r using that reg heap by (simp add: close_all_def)
  have left: "room_of w' k = Some mb \<longleftrightarrow> room_of w k = Some mb \<and> mb_name mb \<noteq> u" for k mb
    unfolding room_of_Some [OF ok] room_of_Some [OF sys_invD(1) [OF inv]] using same
    by (auto simp: reg selects_def)
  have "room_of w' k = Some mb \<longleftrightarrow> (room_of w |` (- named u (room_of w))) k = Some mb" for k mb
    unfolding left by (auto simp: named_def restrict_map_def)
  then have "room_of w' = room_of w |` (- named u (room_of w))" by (intro ext option_eqI_Some)
  moreover have "b = (named u (room_of w) \<noteq> {})" 
    unfolding b using named_nonempty [OF ok] by simp
  ultimately show ?thesis using inv by simp
qed

lemma sim_names:
  assumes "hub_ok w" and "set ks \<subseteq> dom (room_of w)"
  shows "Hub_RangeOver ks list_body out w = (Ret (out @ map (\<lambda>k. mb_name (the (room_of w k))) ks), w)"
  using assms(2)
proof (induction ks arbitrary: out)
  case (Cons k ks)
  then obtain mb where "room_of w k = Some mb" by auto
  then obtain r c where "Load (hub_clients (w_hub w)) k = Some r" "w_heap w r = Some c" "mb = member_of c"
    by (auto simp: room_of_def bind_eq_Some_conv)
  with Cons \<open>room_of w k = Some mb\<close> show ?case by (simp add: Hub_RangeOver_def list_body_def)
qed (simp add: Hub_RangeOver_def)

lemma range_dom:
  assumes "hub_ok w"
  shows "mset (range_order w) = mset_set (dom (room_of w))"
proof -
  have "set (range_order w) = dom (room_of w)"
    using syncmap.key_load [OF hub_okD(1) [OF assms]] hub_okD(3) [OF assms]
    by (fastforce simp: range_order_def room_of_def bind_eq_Some_conv dom_def simp del: set_map)
  moreover have "distinct (range_order w)" using hub_okD(1) [OF assms] by (simp add: range_order_def syncmap_ok_def)
  ultimately show ?thesis by (metis mset_set_set)
qed

lemma sim_fetch:
  assumes "sys_inv w" and "Load (hub_clients (w_hub w)) k = Some r" and "Client_Receive r w = (Ret x, w')"
  shows "room_do (Fetch k) (room_of w) = (Message x, room_of w') \<and> sys_inv w'"
proof -
  have ok: "hub_ok w" using assms(1) by (rule sys_invD)
  from hub_okD(3) [OF ok assms(2)] obtain c where c: "w_heap w r = Some c" by blast
  have R: "room_of w k = Some (member_of c)" using assms(2) c by (simp add: room_of_def)
  have "sys_inv w'" using sys_inv_Receive [OF assms(1), of r] assms(3) by simp
  moreover have "room_do (Fetch k) (room_of w) = (Message x, room_of w')"
  proof (cases "ch_buf (cl_out c)")
    case Nil
    then have "x = None" "w' = w" using assms(3) c by (auto simp: go_simps select_recv_def split: if_splits)
    then show ?thesis using R Nil by simp
  next
    case (Cons m ms)
    then have x: "x = Some m" "w' = w\<lparr>w_heap := (w_heap w)(r \<mapsto> c\<lparr>cl_out := (cl_out c)\<lparr>ch_buf := ms\<rparr>\<rparr>)\<rparr>"
      using assms(3) c by (auto simp: go_simps select_recv_def)
    show ?thesis unfolding x room_of_upd [OF ok assms(2)] using R Cons by (simp add: member_of_def)
  qed
  ultimately show ?thesis by simp
qed

lemma sim_say:
  assumes "sys_inv w" and "mset ks = mset (range_order w)" and "Hub_RangeOver ks (send_all_body m) () w = (Ret (), w')"
  shows "room_of w' = map_option (put m) \<circ> room_of w \<and> sys_inv w'"
proof -
  have ok: "hub_ok w" using assms(1) by (rule sys_invD)
  have "sys_inv w'" using sys_inv_RangeOver [of "send_all_body m" w ks "()"] sys_inv_Send assms by (auto simp: send_all_body_def)
  moreover have "room_of w' = map_option (put m) \<circ> room_of w"
    using RangeOver_send [where P = "\<lambda>_. True" and body = "send_all_body m" and m = m, OF ok assms(2) send_all_body_eq]
      sim_send [OF assms(1), where P = "\<lambda>_. True" and Q = "\<lambda>_. True" and m = m] assms(3) by (auto simp: send_bodies_keep_hub fun_eq_iff)
  ultimately show ?thesis by simp
qed

lemma sim_tell:
  assumes "sys_inv w" and "mset ks = mset (range_order w)" and "Hub_RangeOver ks (send_user_body u m) False w = (Ret b, w')"
  shows "room_do (Tell u m) (room_of w) = (YesNo b, room_of w') \<and> sys_inv w'"
proof -
  have ok: "hub_ok w" using assms(1) by (rule sys_invD)
  have "sys_inv (snd (send_user_body u m r d v))" if "sys_inv v" for r d v
    unfolding send_user_body_def by (rule sys_inv_withClient) (auto intro: that sys_inv_then_ret sys_inv_Send)
  then have inv: "sys_inv w'" using sys_inv_RangeOver [of "send_user_body u m" w ks False] assms by auto
  from RangeOver_send [where P = "\<lambda>c. cl_Name c = u" and body = "send_user_body u m" and m = m and b = False, OF ok assms(2) send_user_body_eq]
    sim_send [OF assms(1), where P = "\<lambda>c. cl_Name c = u" and Q = "\<lambda>mb. mb_name mb = u" and m = m] assms(3)
  have "b \<longleftrightarrow> (\<exists>r. registered w r \<and> selects (\<lambda>c. cl_Name c = u) (w_heap w) r)"
    and R: "room_of w' = (\<lambda>k. map_option (\<lambda>mb. if mb_name mb = u then put m mb else mb) (room_of w k))"
    by (auto simp: send_bodies_keep_hub)
  then have "b \<longleftrightarrow> named u (room_of w) \<noteq> {}" using named_nonempty [OF ok] by simp
  moreover have "room_of w' = (\<lambda>k. if k \<in> named u (room_of w) then map_option (put m) (room_of w k) else room_of w k)"
    unfolding R by (auto simp: fun_eq_iff named_def map_option_case split: option.split)
  ultimately show ?thesis using inv by simp
qed

lemma hub_does_sim:
  assumes "hub_does w op a w'" and "sys_inv w"
  shows "room_do op (room_of w) = (a, room_of w') \<and> sys_inv w'"
  using assms
proof (induction rule: hub_does.induct)
  case (names ks w out w')
  note ok = sys_invD(1) [OF names.prems]
  have "set ks \<subseteq> dom (room_of w)" using names(1) range_dom [OF ok] by (metis finite_set_mset_mset_set mset_eq_setD order_refl set_mset_mset
      infinite_set_mset_mset_set empty_subsetI)
  from sim_names [OF ok this, of "[]"] names(1,2,3) range_dom [OF ok] show ?case by auto
next
  case (join w r k n now nm w')
  from sim_join [OF join.prems join(1-4)] show ?case by (simp add: fun_upd_def)
next
  case (leave w k r now w')
  from sim_leave [OF leave.prems leave(1,2)] show ?case by (simp add: fun_upd_def)
next
  case (nick w k r c nm)
  from sim_nick [OF nick.prems nick(1,2)] show ?case by (simp add: fun_upd_def)
next
  case (say ks w m w')
  from sim_say [OF say.prems say(1,2)] show ?case by (simp add: comp_def)
next
  case (tell ks w u m b w')
  from sim_tell [OF tell.prems tell(1,2)] show ?case .
next
  case (kick ks w now u b w')
  from sim_kick [OF kick.prems kick(1,2)] show ?case by simp
next
  case (fetch w k r x w')
  from sim_fetch [OF fetch.prems fetch(1,2)] show ?case .
qed

subsection \<open>Sequences of operations\<close>

fun hub_runs :: "('h, 'z) world_scheme \<Rightarrow> (room_op \<times> room_answer) list \<Rightarrow> ('h, 'z) world_scheme \<Rightarrow> bool" where
  "hub_runs w [] w' \<longleftrightarrow> w' = w"
| "hub_runs w ((op, a) # tr) w' \<longleftrightarrow> (\<exists>v. hub_does w op a v \<and> hub_runs v tr w')"

fun room_run :: "room_op list \<Rightarrow> room \<Rightarrow> room_answer list \<times> room" where
  "room_run [] R = ([], R)"
| "room_run (op # ops) R = (case room_do op R of (a, R') \<Rightarrow> (case room_run ops R' of (as, R'') \<Rightarrow> (a # as, R'')))"

fun room_enables :: "room_op \<Rightarrow> room \<Rightarrow> bool" where
  "room_enables (Join k nm n) R \<longleftrightarrow> R k = None \<and> 0 < n"
| "room_enables (Leave k) R \<longleftrightarrow> R k \<noteq> None"
| "room_enables (Nick k nm) R \<longleftrightarrow> R k \<noteq> None"
| "room_enables (Fetch k) R \<longleftrightarrow> R k \<noteq> None"
| "room_enables _ R \<longleftrightarrow> True"

lemma hub_runs_sim:
  "hub_runs w tr w' \<Longrightarrow> sys_inv w \<Longrightarrow> room_run (map fst tr) (room_of w) = (map snd tr, room_of w') \<and> sys_inv w'"
proof (induction w tr w' rule: hub_runs.induct)
  case (2 w op a tr w')
  then obtain v where v: "hub_does w op a v" "hub_runs v tr w'" by auto
  from hub_does_sim [OF v(1) "2.prems"(2)] "2.IH" [OF v(2)] show ?case by simp
qed simp

lemma room_of_Load:
  assumes "hub_ok w" and "room_of w k \<noteq> None"
  obtains r c where "Load (hub_clients (w_hub w)) k = Some r" "w_heap w r = Some c" "client_ok c"
proof -
  from assms(2) obtain r c where "Load (hub_clients (w_hub w)) k = Some r" "w_heap w r = Some c" by (auto simp: room_of_def bind_eq_Some_conv)
  moreover from this(2) have "client_ok c" by (rule heap_okD [OF hub_okD(2) [OF assms(1)]])
  ultimately show thesis by (rule that)
qed

lemma room_of_free: "hub_ok w \<Longrightarrow> room_of w k = None \<Longrightarrow> Load (hub_clients (w_hub w)) k = None"
  using hub_okD(3) [of w k] by (cases "Load (hub_clients (w_hub w)) k") (auto simp: room_of_def)

lemma hub_can:
  assumes "sys_inv w" and "w_heap w r0 = None" and "room_enables op (room_of w)"
  shows "\<exists>a w'. hub_does w op a w'"
proof -
  have ok: "hub_ok w" using assms(1) by (rule sys_invD)
  show ?thesis
  proof (cases op)
    case (Join k nm n)
    let ?w = "w\<lparr>w_heap := (w_heap w)(r0 \<mapsto> (NewClientWithBuffer k (int n))\<lparr>cl_Name := nm\<rparr>)\<rparr>"
    obtain w' where "Hub_RegisterClient 0 r0 ?w = (Ret (), w')" using Register_eq [of ?w r0] by simp
    moreover have "Load (hub_clients (w_hub w)) k = None" "0 < n" using assms(3) Join room_of_free [OF ok] by simp_all
    ultimately show ?thesis unfolding Join using hub_does.join [OF assms(2)] by blast
  next
    case (Leave k)
    with assms(3) ok obtain r c where r: "Load (hub_clients (w_hub w)) k = Some r" "w_heap w r = Some c" "client_ok c" by (auto elim: room_of_Load)
    then have "\<exists>w'. Hub_UnregisterClient 0 r w = (Ret (), w')"
      using Unregister_present [OF r(2,3)] Unregister_absent [OF r(2,3)] by (cases "Load (hub_clients (w_hub w)) (cl_ID c)") auto
    with hub_does.leave [OF r(1)] Leave show ?thesis by blast
  next
    case (Nick k nm)
    with assms(3) ok show ?thesis by (auto elim!: room_of_Load intro: hub_does.nick)
  next
    case (Say m)
    with hub_does.say [OF refl] SendToAll_eq [OF ok, of m, unfolded Hub_SendToAll_def Range_order] show ?thesis by blast
  next
    case (Tell u m)
    with hub_does.tell [OF refl] SendToUser_eq [OF ok, of u m, unfolded Hub_SendToUser_def Range_order] show ?thesis by blast
  next
    case (Kick u)
    with hub_does.kick [OF refl] RangeOver_kick_all [OF assms(1) refl, of 0 u] show ?thesis by blast
  next
    case Names
    have "set (range_order w) \<subseteq> dom (room_of w)"
      using range_dom [OF ok] by (metis finite_set_mset_mset_set infinite_set_mset_mset_set empty_subsetI order_refl set_mset_mset)
    with hub_does.names [OF refl] sim_names [OF ok, of "range_order w" "[]"] Names show ?thesis by blast
  next
    case (Fetch k)
    with assms(3) ok obtain r c where r: "Load (hub_clients (w_hub w)) k = Some r" "w_heap w r = Some c" by (auto elim: room_of_Load)
    then have "\<exists>x w'. Client_Receive r w = (Ret x, w')"
      by (auto simp: go_simps select_recv_def split: list.split)
    with hub_does.fetch [OF r(1)] Fetch show ?thesis by blast
  qed
qed

text \<open>
  C4: the hub implements the room. From every state that satisfies the invariant, and for every
  sequence of operations with any iteration orders: the answers are those the room gives (who was
  reached, whom a kick found, the bag of names, the oldest message of an inbox), and the state
  afterwards stands for the room afterwards. Every operation that the room allows can be carried out,
  that is, it returns without a panic.
\<close>

theorem hub_refines_room:
  assumes "sys_inv w"
  shows "(hub_runs w tr w' \<longrightarrow> room_run (map fst tr) (room_of w) = (map snd tr, room_of w') \<and> sys_inv w') \<and>
    (w_heap w r = None \<and> room_enables op (room_of w) \<longrightarrow> (\<exists>a v. hub_does w op a v))"
  using hub_runs_sim [of w tr w'] hub_can [of w r op] assms by blast

theorem hub_refines_room_witness:
  "sys_inv (demo_world :: nat world) \<and>
   (\<exists>a v. hub_does (demo_world :: nat world) (Kick ''bob'') a v \<and> a = YesNo True)"
proof -
  have "w_heap (demo_world :: nat world) 9 = None" by (simp add: demo_world_eq demo_heap_def)
  with hub_refines_room [OF demo_world_inv, of "[]" demo_world 9 "Kick ''bob''"] obtain a v where
    h: "hub_does (demo_world :: nat world) (Kick ''bob'') a v" by auto
  have "room_of (demo_world :: nat world) ''b'' = Some (member_of (demo_client ''b'' ''bob'' 1))"
    by (simp add: room_of_def demo_world_eq NewHub_def Load_def demo_heap_def)
  then have n: "named ''bob'' (room_of (demo_world :: nat world)) \<noteq> {}" by (force simp: named_def)
  have "hub_runs demo_world [(Kick ''bob'', a)] v" using h by simp
  with hub_refines_room [OF demo_world_inv, of "[(Kick ''bob'', a)]" v] n have "a = YesNo True" by simp
  with h demo_world_inv show ?thesis by blast
qed

end
