(* ===== verification/Spec2Isabelle.thy ===== *)
theory Spec2Isabelle
  imports Client_Properties Hub_Properties Subscriber_Properties Command_Properties Frame_Properties Codec_Properties
    Tcp_Properties Tcp_Transcript Ws_System Message_Payloads Server_System Program_Properties Hub_Draining Hub_Spec
begin

text \<open>
  Verification of the chat-go server.

  \<^bold>\<open>The program.\<close> chat-go is a chat server in Go with two transports, a command language, a relay
  between servers over a Redis stream, and two small programs for the other side of a connection.
  A transport (\<^verbatim>\<open>internal/transport\<close>: TCP with length-prefixed frames, WebSocket) turns a connection
  into a session, wraps it in a context and reports opening, envelopes and closing to its gateway,
  which keeps the contexts in a session manager and dispatches envelopes by type. Envelopes are
  encoded by one of two codecs (\<^verbatim>\<open>internal/protocol\<close>: JSON, protobuf). The chat service proper is the
  hub (\<^verbatim>\<open>internal/chat\<close>) with its clients, its ban list and its event handlers, which run as goroutines
  (\<^verbatim>\<open>internal/subscriber\<close>); commands (\<^verbatim>\<open>internal/command\<close>) act on the hub. The program's main
  (\<^verbatim>\<open>cmd/server\<close>) subscribes the handlers, starts both transports and connects the hub to the Redis
  stream (\<^verbatim>\<open>internal/bus/redisstream\<close>); it connects neither the commands nor the hub to a transport,
  so what a transport does with chat messages is what \<open>tcp_transcript\<close> says: it writes nothing for them.

  \<^bold>\<open>How it is modelled.\<close> Code that changes shared state is a computation \<open>('w, 'a) go\<close> of
  \<open>Go_Prelude\<close>: a function of a state that returns a value or a panic and the state afterwards, also
  after a panic. Objects that are shared by pointer live on an explicit heap. Durations and
  counters are 64-bit words; a Go \<open>int\<close> is an \<open>int\<close> whose range is shown where it matters. Strings are
  byte strings. Concurrency is a step relation, at two grains. \<open>sys_step\<close>, \<open>tcp_step\<close> and \<open>ws_step\<close> let
  goroutines take turns in any order, and each turn is one operation or one round of a loop. \<open>conc_step\<close>
  cuts the operations of the hub into threads of atomic actions (an operation on the client map, a
  critical section, an operation on a channel, a counter) and interleaves these; run alone, a thread
  is the operation.
  The clock, the \<open>uuid\<close> package, the time zone, the lower-case table beyond ASCII, the protobuf
  library, gorilla/websocket and go-redis are parameters; the parts of the standard library that the
  program uses (strings, strconv, fmt scanning and formatting, encoding/json, base64, encoding/binary,
  time with its calendar and RFC 3339 texts) are defined.

  \<^bold>\<open>The theories and the code they model.\<close>
  \<^item> \<open>Go_Prelude\<close>: computations, machine integers, channels, \<open>sync.Map\<close>, reachability, with the
    interfaces \<open>bounded_channel\<close>, \<open>keyed_store\<close> and \<open>event_system\<close>. \<open>Go_Threads\<close>: threads of atomic actions,
    and the interface \<open>thread_pool\<close> for an invariant and a quantity that unfinished threads still owe. \<open>Go_Strings\<close>, \<open>Go_String_Lemmas\<close>:
    UTF-8, strings, numbers. \<open>Go_Time\<close>, \<open>Go_Rfc3339\<close>: formatting, the calendar, instants as text; what is
    written is read back. \<open>Go_Json\<close>, \<open>Json_Lemmas\<close>: JSON and base64; what is written is read back. \<open>Go_Http\<close>: routing
    among patterns that are clean slash paths.
  \<^item> \<open>Observe\<close>, \<open>Observe_Http\<close>: \<^verbatim>\<open>internal/observe\<close>; the collectors, the calls to the metrics in order, the
    HTTP endpoint.
  \<^item> \<open>Chat_Client\<close>, \<open>Client_Properties\<close>: \<^verbatim>\<open>client.go\<close>; the outgoing buffer is a bounded queue, closing is final.
  \<^item> \<open>Chat_Hub\<close>, \<open>Hub_Invariants\<close>, \<open>Hub_Properties\<close>: \<^verbatim>\<open>hub.go\<close> and the event files; the invariant of the
    hub and its gauge, broadcasts and kicking for every iteration order of the client map,
    subscriptions, the ban list as a refinement of ban windows and its race.
  \<^item> \<open>Subscribers\<close>, \<open>Subscriber_Properties\<close>: \<^verbatim>\<open>subscriber.go\<close>; the handlers, the interface
    \<open>handler_runtime\<close> and the step relation \<open>sys_step\<close> of the service, the invariant in every interleaving,
    delivery from event to buffer.
  \<^item> \<open>Hub_Spec\<close>: the room that the hub implements, and the refinement. \<open>Hub_Threads\<close>, \<open>Hub_Interleaving\<close>,
    \<open>Hub_Draining\<close>: the hub's operations and the handlers as threads and their interleaving; the
    invariant between any two atomic actions, the broadcast that a disconnect ends, and that the
    goroutines come to rest.
  \<^item> \<open>Command_Registry\<close>, \<open>Command_Builtins\<close>, \<open>Registry_Properties\<close>, \<open>Command_Invariants\<close>,
    \<open>Command_Properties\<close>: \<^verbatim>\<open>registry.go\<close>, \<^verbatim>\<open>builtin.go\<close>; registration and lookup, dispatch and permission, what
    the commands do, and the invariant with commands.
  \<^item> \<open>Frames\<close>, \<open>Frame_Properties\<close>: \<^verbatim>\<open>frame.go\<close> and the client's framing; frames survive the wire, what is
    refused, what a failed write leaves, the interface \<open>framing\<close> for both readers.
  \<^item> \<open>Protocol\<close>, \<open>Codec_Properties\<close>: \<^verbatim>\<open>internal/protocol\<close>; envelopes, factory, codecs, manager; round
    trips and the interface \<open>message_codec\<close>. \<open>Message_Payloads\<close>: the payload of every message of the
    factory is what its receiver reads.
  \<^item> \<open>Sessions\<close>, \<open>Session_Properties\<close>: \<^verbatim>\<open>session.go\<close>, \<^verbatim>\<open>errors.go\<close>, \<^verbatim>\<open>options.go\<close> and the session objects of
    \<^verbatim>\<open>tcp.go\<close> and \<^verbatim>\<open>ws.go\<close>; the interface \<open>session_object\<close> for both. \<open>Gateways\<close>, \<open>Gateway_Lemmas\<close>: contexts,
    \<^verbatim>\<open>session_manager.go\<close>, \<^verbatim>\<open>gateway.go\<close>, \<^verbatim>\<open>gateway_dispatcher.go\<close>; the well-formed heap and what the
    operations keep of it.
  \<^item> \<open>Tcp_Transport\<close>, \<open>Tcp_System\<close>, \<open>Tcp_Invariants\<close>, \<open>Tcp_Properties\<close>, \<open>Tcp_Transcript\<close>: \<^verbatim>\<open>tcp.go\<close>; the
    reader and the watchers of every connection as the step relation \<open>tcp_step\<close>, the accounting of the
    session manager under every schedule, the end of idle connections, and the exact bytes a
    connection writes for the bytes it gets, with what its watcher does to the manager afterwards.
  \<^item> \<open>Ws_Transport\<close>, \<open>Ws_Properties\<close>, \<open>Ws_System\<close>: \<^verbatim>\<open>ws.go\<close>; which requests open a session,
    what a message becomes, the end of a connection, and the accounting of the session manager under
    every schedule of requests, readers, pings and pongs (\<open>ws_step\<close>).
  \<^item> \<open>Logger\<close>: \<^verbatim>\<open>logger.go\<close>. \<open>Config\<close>: \<^verbatim>\<open>config.go\<close>. \<open>Redis_Bus\<close>: \<^verbatim>\<open>bus.go\<close>. \<open>Server_Main\<close>,
    \<open>Server_Properties\<close>, \<open>Server_System\<close>: \<^verbatim>\<open>cmd/server/main.go\<close>; the options and servers, the relay, what
    it does with chat and direct messages and with every answer of Redis, the timeouts a configuration
    gives, and the whole server as the step relation \<open>server_step\<close>, which keeps the hub's invariant.
  \<^item> \<open>Client_Programs\<close>, \<open>Program_Properties\<close>: \<^verbatim>\<open>cmd/client\<close>, \<^verbatim>\<open>cmd/peek\<close>; the client program against the
    server with each side's output as the other's input, and what the viewer prints.

  \<^bold>\<open>Bounds.\<close> The readers' loops end when their input does. \<open>readLoop\<close> takes a number of turns; one
  turn per frame and one for the end of the stream are enough (\<open>tcp_transcript\<close>). \<open>ws_readLoop\<close> ends
  within one turn per message that the library still has and one more (\<open>ws_connection_ends\<close>), and
  \<open>peek_loop\<close> within one per frame and one more (\<open>peek_shows\<close>). \<open>Consume\<close>, \<open>accept_loop\<close>, \<open>ws_serve\<close> and
  \<open>serve_requests\<close>, which run as long as the program, go over the list of what happens to them. Everything else is
  total.

  \<^bold>\<open>Assumptions.\<close> The named hypotheses on libraries are: \<open>proto.Unmarshal\<close> reads what \<open>proto.Marshal\<close>
  wrote, and reads no bytes as the empty message; a WebSocket connection yields finitely many
  messages before its error. Each theorem that uses one is applied to a library that satisfies it. Beside the
  libraries, the hub's invariant relies on the caller of \<open>RegisterClient\<close>: a client is registered while
  it is open and under an id that no registered client has.

  \<^bold>\<open>Not modelled.\<close> Listening, the HTTP protocol and upgrading to WebSocket (net/http, gorilla/websocket;
  requests and upgrades are arguments), the redirections of \<open>http.ServeMux\<close> for paths that are not clean, the
  collectors behind the metrics (Prometheus), writing log lines (zap; the transports' log calls are
  recorded by key), the generated reflection tables of \<^verbatim>\<open>pb/envelope.pb.go\<close>, the Redis server, the zone
  that an instant carries (an instant is its distance from the zero time, and the zone is a
  function of it), JSON escapes inside the text of an instant, and the more lenient forms that
  \<open>time.Parse\<close> accepts beside RFC 3339.
\<close>

end
